(* ===== verification/Prelude.thy ===== *)
theory Prelude
  imports Main "HOL-Library.Sublist" "HOL-Library.List_Lexorder" "HOL-Library.Char_ord"
begin

text \<open>
  The part of Go's standard library that the gateway plugin relies on, as total executable
  functions, and the generic lemmas the components share.

  A Go \<^verbatim>\<open>string\<close> is a byte sequence; here it is a \<^typ>\<open>string\<close>, one \<^typ>\<open>char\<close> per byte.
  The functions keep Go's names up to case: \<open>has_prefix\<close> is \<^verbatim>\<open>strings.HasPrefix\<close>,
  \<open>trim_space\<close> is \<^verbatim>\<open>strings.TrimSpace\<close> (with the multi-byte white space of Unicode written out
  in UTF-8), \<open>split_on\<close> is \<^verbatim>\<open>strings.Split\<close> with a one-byte separator, \<open>parse_int64\<close> is
  \<^verbatim>\<open>strconv.ParseInt(s, 10, 64)\<close> and so on.  Integers are \<^typ>\<open>int\<close>; where a 64-bit result can wrap
  the wrap is written out with \<open>wrap64\<close>.
\<close>

named_theorems go_defs "definitions of the string library, for evaluation"
named_theorems go_facts "facts on the string library that component proofs rewrite with"

section \<open>Substrings\<close>

definition has_prefix :: "string \<Rightarrow> string \<Rightarrow> bool" where
  "has_prefix s p = prefix p s"

definition has_suffix :: "string \<Rightarrow> string \<Rightarrow> bool" where
  "has_suffix s p = suffix p s"

definition trim_prefix :: "string \<Rightarrow> string \<Rightarrow> string" where
  "trim_prefix s p = (if has_prefix s p then drop (length p) s else s)"

definition trim_suffix :: "string \<Rightarrow> string \<Rightarrow> string" where
  "trim_suffix s p = (if has_suffix s p then take (length s - length p) s else s)"

declare has_prefix_def [go_defs] has_suffix_def [go_defs] trim_prefix_def [go_defs]
  trim_suffix_def [go_defs]

text \<open>\<^verbatim>\<open>strings.Split(s, sep)\<close> for a separator of one byte, and \<^verbatim>\<open>strings.Join\<close>.\<close>

fun split_on :: "char \<Rightarrow> string \<Rightarrow> string list" where
  "split_on c [] = [[]]"
| "split_on c (x # xs) =
     (if x = c then [] # split_on c xs
      else (case split_on c xs of [] \<Rightarrow> [[x]] | w # ws \<Rightarrow> (x # w) # ws))"

fun join :: "string \<Rightarrow> string list \<Rightarrow> string" where
  "join sep [] = []"
| "join sep [w] = w"
| "join sep (w # v # ws) = w @ sep @ join sep (v # ws)"

text \<open>\<^verbatim>\<open>strings.IndexByte\<close>: the position of the first \<open>c\<close>, if any.\<close>

fun index_byte :: "string \<Rightarrow> char \<Rightarrow> nat option" where
  "index_byte [] c = None"
| "index_byte (x # xs) c = (if x = c then Some 0 else map_option Suc (index_byte xs c))"

text \<open>The position of the last \<open>c\<close>, if any (\<^verbatim>\<open>bytealg.LastIndexByteString\<close>).\<close>

definition last_index_byte :: "string \<Rightarrow> char \<Rightarrow> nat option" where
  "last_index_byte s c = map_option (\<lambda>i. length s - Suc i) (index_byte (rev s) c)"

text \<open>\<^verbatim>\<open>strings.Cut(s, sep)\<close> for a separator of one byte: before, after, found.\<close>

definition cut :: "string \<Rightarrow> char \<Rightarrow> string \<times> string \<times> bool" where
  "cut s c = (case index_byte s c of None \<Rightarrow> (s, [], False)
              | Some i \<Rightarrow> (take i s, drop (Suc i) s, True))"

declare last_index_byte_def [go_defs] cut_def [go_defs]

text \<open>\<^verbatim>\<open>strings.Contains(s, sub)\<close>.\<close>

fun contains :: "string \<Rightarrow> string \<Rightarrow> bool" where
  "contains [] p \<longleftrightarrow> p = []"
| "contains (x # xs) p \<longleftrightarrow> prefix p (x # xs) \<or> contains xs p"

section \<open>White space\<close>

text \<open>
  The white space of \<^verbatim>\<open>unicode.IsSpace\<close>, as UTF-8 byte sequences: the ASCII blanks, U+0085,
  U+00A0, U+1680, U+2000 to U+200A, U+2028, U+2029, U+202F, U+205F and U+3000.
\<close>

definition space_seqs :: "string list" where
  "space_seqs =
     [[CHR 0x09], [CHR 0x0A], [CHR 0x0B], [CHR 0x0C], [CHR 0x0D], [CHR 0x20],
      [CHR 0xC2, CHR 0x85], [CHR 0xC2, CHR 0xA0], [CHR 0xE1, CHR 0x9A, CHR 0x80],
      [CHR 0xE2, CHR 0x80, CHR 0x80], [CHR 0xE2, CHR 0x80, CHR 0x81], [CHR 0xE2, CHR 0x80, CHR 0x82],
      [CHR 0xE2, CHR 0x80, CHR 0x83], [CHR 0xE2, CHR 0x80, CHR 0x84], [CHR 0xE2, CHR 0x80, CHR 0x85],
      [CHR 0xE2, CHR 0x80, CHR 0x86], [CHR 0xE2, CHR 0x80, CHR 0x87], [CHR 0xE2, CHR 0x80, CHR 0x88],
      [CHR 0xE2, CHR 0x80, CHR 0x89], [CHR 0xE2, CHR 0x80, CHR 0x8A], [CHR 0xE2, CHR 0x80, CHR 0xA8],
      [CHR 0xE2, CHR 0x80, CHR 0xA9], [CHR 0xE2, CHR 0x80, CHR 0xAF], [CHR 0xE2, CHR 0x81, CHR 0x9F],
      [CHR 0xE3, CHR 0x80, CHR 0x80]]"

text \<open>Drop leading occurrences of any of the non-empty words \<open>ws\<close>.\<close>

function strip_words :: "string list \<Rightarrow> string \<Rightarrow> string" where
  "strip_words ws s =
     (case find (\<lambda>w. w \<noteq> [] \<and> prefix w s) ws of
        None \<Rightarrow> s
      | Some w \<Rightarrow> strip_words ws (drop (length w) s))"
  by pat_completeness auto
termination
  by (relation "measure (\<lambda>(ws, s). length s)")
    (auto simp: find_Some_iff dest!: prefix_length_le intro: diff_less)

declare strip_words.simps [simp del]

definition trim_space :: "string \<Rightarrow> string" where
  "trim_space s = rev (strip_words (map rev space_seqs) (rev (strip_words space_seqs s)))"

section \<open>Letter case\<close>

definition lower_char :: "char \<Rightarrow> char" where
  "lower_char c = (if CHR ''A'' \<le> c \<and> c \<le> CHR ''Z'' then char_of (of_char c + 32 :: nat) else c)"

definition upper_char :: "char \<Rightarrow> char" where
  "upper_char c = (if CHR ''a'' \<le> c \<and> c \<le> CHR ''z'' then char_of (of_char c - 32 :: nat) else c)"

definition is_ascii :: "string \<Rightarrow> bool" where
  "is_ascii s = list_all (\<lambda>c. c < CHR 0x80) s"

text \<open>
  \<^verbatim>\<open>strings.ToLower\<close>.  On ASCII text it is written out; any other text goes through the tables of
  package \<^verbatim>\<open>unicode\<close>, the parameter \<open>uni\<close>.
\<close>

definition to_lower :: "(string \<Rightarrow> string) \<Rightarrow> string \<Rightarrow> string" where
  "to_lower uni s = (if is_ascii s then map lower_char s else uni s)"

text \<open>
  Simple case folding towards ASCII.  The only non-ASCII code points that fold to an ASCII letter are
  U+017F (long s) and U+212A (Kelvin sign), so for an ASCII \<open>t\<close>, \<open>equal_fold s t\<close> is
  \<^verbatim>\<open>strings.EqualFold(s, t)\<close> for every \<open>s\<close>.
\<close>

fun ascii_fold :: "string \<Rightarrow> string" where
  "ascii_fold [] = []"
| "ascii_fold (c # s) =
     (if prefix [CHR 0xC5, CHR 0xBF] (c # s) then CHR ''s'' # ascii_fold (drop 1 s)
      else if prefix [CHR 0xE2, CHR 0x84, CHR 0xAA] (c # s) then CHR ''k'' # ascii_fold (drop 2 s)
      else lower_char c # ascii_fold s)"

definition equal_fold :: "string \<Rightarrow> string \<Rightarrow> bool" where
  "equal_fold s t = (ascii_fold s = ascii_fold t)"

declare lower_char_def [go_defs] upper_char_def [go_defs] is_ascii_def [go_defs]
  to_lower_def [go_defs] equal_fold_def [go_defs] trim_space_def [go_defs] space_seqs_def [go_defs]

section \<open>Numbers\<close>

definition max_int64 :: int where "max_int64 = 9223372036854775807"
definition min_int64 :: int where "min_int64 = - 9223372036854775808"

text \<open>Two's complement wrap-around of 64-bit signed arithmetic.\<close>

definition wrap64 :: "int \<Rightarrow> int" where
  "wrap64 x = (x + 9223372036854775808) mod 18446744073709551616 - 9223372036854775808"

definition digit_char :: "nat \<Rightarrow> char" where
  "digit_char d = char_of (48 + d)"

definition is_digit :: "char \<Rightarrow> bool" where
  "is_digit c \<longleftrightarrow> CHR ''0'' \<le> c \<and> c \<le> CHR ''9''"

definition digit_val :: "char \<Rightarrow> nat" where
  "digit_val c = of_char c - 48"

text \<open>\<^verbatim>\<open>strconv.FormatUint(n, 10)\<close> and \<^verbatim>\<open>strconv.Itoa\<close> / \<^verbatim>\<open>FormatInt(i, 10)\<close>.\<close>

fun format_nat :: "nat \<Rightarrow> string" where
  "format_nat n = (if n < 10 then [digit_char n] else format_nat (n div 10) @ [digit_char (n mod 10)])"

declare format_nat.simps [simp del]

definition format_int :: "int \<Rightarrow> string" where
  "format_int i = (if i < 0 then CHR ''-'' # format_nat (nat (- i)) else format_nat (nat i))"

definition digits_val :: "string \<Rightarrow> nat" where
  "digits_val s = foldl (\<lambda>v c. v * 10 + digit_val c) 0 s"

text \<open>
  \<^verbatim>\<open>strconv.ParseInt(s, 10, 64)\<close>, which is also \<^verbatim>\<open>strconv.Atoi\<close> on a 64-bit platform: an optional
  sign, at least one digit, digits only, and a value in range.
\<close>

definition parse_digits :: "string \<Rightarrow> nat option" where
  "parse_digits s = (if s = [] \<or> \<not> list_all is_digit s then None else Some (digits_val s))"

definition parse_int64 :: "string \<Rightarrow> int option" where
  "parse_int64 s =
     (let (neg, ds) = (case s of c # cs \<Rightarrow>
                         if c = CHR ''-'' then (True, cs) else if c = CHR ''+'' then (False, cs)
                         else (False, s)
                       | [] \<Rightarrow> (False, s))
      in case parse_digits ds of
           None \<Rightarrow> None
         | Some n \<Rightarrow>
             (let v = (if neg then - int n else int n)
              in if min_int64 \<le> v \<and> v \<le> max_int64 then Some v else None))"

declare digit_char_def [go_defs] is_digit_def [go_defs] digit_val_def [go_defs]
  digits_val_def [go_defs] parse_digits_def [go_defs] parse_int64_def [go_defs]
  format_int_def [go_defs] max_int64_def [go_defs] min_int64_def [go_defs] wrap64_def [go_defs]

text \<open>Division of a signed quantity that rounds towards zero, as Go's \<^verbatim>\<open>int(x)\<close> of a quotient does.\<close>

definition quot_trunc :: "int \<Rightarrow> int \<Rightarrow> int" where
  "quot_trunc a b = (if a < 0 then - ((- a) div b) else a div b)"

section \<open>Lemmas\<close>

subsection \<open>Splitting and joining\<close>

lemma split_on_not_Nil [simp]: "split_on c s \<noteq> []"
  by (induction s) (auto split: list.splits)

lemma join_Cons: "ws \<noteq> [] \<Longrightarrow> join sep (w # ws) = w @ sep @ join sep ws"
  by (cases ws) auto

lemma join_split_on: "join [c] (split_on c s) = s"
proof (induction s)
  case Nil
  then show ?case by simp
next
  case (Cons x xs)
  show ?case
  proof (cases "split_on c xs")
    case Nil
    then show ?thesis by simp
  next
    case (Cons w ws)
    with Cons.IH show ?thesis by (cases ws) auto
  qed
qed

lemma split_on_no_sep: "c \<notin> set s \<Longrightarrow> split_on c s = [s]"
  by (induction s) auto

lemma split_on_append_sep: "c \<notin> set w \<Longrightarrow> split_on c (w @ c # s) = w # split_on c s"
  by (induction w) auto

lemma split_on_join:
  "ws \<noteq> [] \<Longrightarrow> (\<And>w. w \<in> set ws \<Longrightarrow> c \<notin> set w) \<Longrightarrow> split_on c (join [c] ws) = ws"
proof (induction ws)
  case (Cons w ws)
  then show ?case
    by (cases ws) (auto simp: split_on_no_sep split_on_append_sep)
qed simp

subsection \<open>Positions\<close>

lemma index_byte_None: "index_byte s c = None \<longleftrightarrow> c \<notin> set s"
  by (induction s) auto

lemma index_byte_append: "c \<notin> set a \<Longrightarrow> index_byte (a @ c # b) c = Some (length a)"
  by (induction a) auto

lemma index_byte_Some:
  "index_byte s c = Some i \<Longrightarrow> s = take i s @ c # drop (Suc i) s \<and> c \<notin> set (take i s) \<and> i < length s"
  by (induction s arbitrary: i) (auto split: if_splits)

lemma last_index_byte_None: "last_index_byte s c = None \<longleftrightarrow> c \<notin> set s"
  by (simp add: last_index_byte_def index_byte_None)

lemma last_index_byte_append: "c \<notin> set b \<Longrightarrow> last_index_byte (a @ c # b) c = Some (length a)"
  by (simp add: last_index_byte_def index_byte_append)

text \<open>The last separator splits a string in one way only.\<close>

lemma last_sep_inj:
  fixes a b :: string
  assumes "a @ c # u = b @ c # v" and "c \<notin> set u" and "c \<notin> set v"
  shows "a = b \<and> u = v"
proof -
  have "last_index_byte (a @ c # u) c = Some (length a)" and "last_index_byte (b @ c # v) c = Some (length b)"
    using assms(2,3) by (simp_all add: last_index_byte_append)
  with assms(1) have "length a = length b" by simp
  with assms(1) show ?thesis by simp
qed

subsection \<open>White space\<close>

lemma strip_words_step:
  "strip_words ws s = (case find (\<lambda>w. w \<noteq> [] \<and> prefix w s) ws of
     None \<Rightarrow> s | Some w \<Rightarrow> strip_words ws (drop (length w) s))"
  by (subst strip_words.simps) simp

lemma strip_words_no_prefix:
  "w \<in> set ws \<Longrightarrow> w \<noteq> [] \<Longrightarrow> \<not> prefix w (strip_words ws s)"
proof (induction ws s rule: strip_words.induct)
  case (1 ws s)
  show ?case
  proof (cases "find (\<lambda>w. w \<noteq> [] \<and> prefix w s) ws")
    case None
    moreover from this "1.prems" have "\<not> prefix w s"
      by (auto simp: find_None_iff)
    ultimately show ?thesis by (simp add: strip_words_step [of ws s])
  next
    case (Some v)
    with "1.IH" "1.prems" show ?thesis
      by (simp add: strip_words_step [of ws s])
  qed
qed

lemma strip_words_id:
  "(\<And>w. w \<in> set ws \<Longrightarrow> w \<noteq> [] \<Longrightarrow> \<not> prefix w s) \<Longrightarrow> strip_words ws s = s"
  by (subst strip_words_step) (auto simp: find_None_iff split: option.splits dest: find_Some_iff [THEN iffD1])

lemma strip_words_suffix: "suffix (strip_words ws s) s"
proof (induction ws s rule: strip_words.induct)
  case (1 ws s)
  show ?case
  proof (cases "find (\<lambda>w. w \<noteq> [] \<and> prefix w s) ws")
    case None
    then show ?thesis by (simp add: strip_words_step [of ws s])
  next
    case (Some v)
    with "1.IH" have "suffix (strip_words ws (drop (length v) s)) (drop (length v) s)"
      by simp
    then have "suffix (strip_words ws (drop (length v) s)) s"
      by (rule suffix_order.trans) (rule suffix_drop)
    with Some show ?thesis by (simp add: strip_words_step [of ws s])
  qed
qed

lemma trim_space_sublist: "set (trim_space s) \<subseteq> set s"
proof -
  have "set (trim_space s) \<subseteq> set (strip_words space_seqs s)"
    using set_mono_suffix [OF strip_words_suffix, of "map rev space_seqs" "rev (strip_words space_seqs s)"]
    by (simp add: trim_space_def)
  then show ?thesis
    using set_mono_suffix [OF strip_words_suffix] by blast
qed

lemma trim_space_idem [simp]: "trim_space (trim_space s) = trim_space s"
proof -
  let ?l = "strip_words space_seqs s"
  let ?r = "strip_words (map rev space_seqs) (rev ?l)"
  have "prefix (rev ?r) ?l"
    using strip_words_suffix [of "map rev space_seqs" "rev ?l"]
    by (simp add: suffix_to_prefix)
  then have left: "strip_words space_seqs (rev ?r) = rev ?r"
    by (intro strip_words_id)
      (use strip_words_no_prefix [of _ space_seqs s] in \<open>blast intro: prefix_order.trans\<close>)
  have "strip_words (map rev space_seqs) ?r = ?r"
    by (rule strip_words_id) (rule strip_words_no_prefix)
  with left show ?thesis by (simp add: trim_space_def)
qed

lemma trim_space_Nil [simp]: "trim_space [] = []"
  by (simp add: trim_space_def strip_words_step space_seqs_def)

text \<open>A string of visible ASCII characters has no white space at its ends.\<close>

definition visible :: "string \<Rightarrow> bool" where
  "visible s = list_all (\<lambda>c. CHR 0x20 < c \<and> c < CHR 0x7F) s"

lemma visible_no_space_prefix:
  assumes "visible s" and "w \<in> set space_seqs \<or> w \<in> set (map rev space_seqs)"
  shows "\<not> prefix w s"
proof
  assume p: "prefix w s"
  from assms(2) have "w \<noteq> []" and "\<not> visible w"
    by (auto simp: space_seqs_def visible_def)
  moreover from p assms(1) have "visible w"
    by (auto simp: visible_def prefix_def)
  ultimately show False by simp
qed

lemma visible_rev [simp]: "visible (rev s) = visible s"
  by (simp add: visible_def list_all_iff)

lemma strip_words_visible:
  "visible s \<Longrightarrow> strip_words space_seqs s = s \<and> strip_words (map rev space_seqs) s = s"
  by (intro conjI strip_words_id) (use visible_no_space_prefix in blast)+

lemma trim_space_visible: "visible s \<Longrightarrow> trim_space s = s"
  by (simp add: trim_space_def strip_words_visible)

subsection \<open>Numbers\<close>

lemma of_char_le: "c \<le> d \<longleftrightarrow> of_char c \<le> (of_char d :: nat)"
  by (simp add: less_eq_char_def)

lemma of_char_less: "c < d \<longleftrightarrow> of_char c < (of_char d :: nat)"
  by (simp add: less_char_def)

text \<open>Evaluation of \<^term>\<open>char_of\<close> at a numeral.\<close>

lemmas char_eval = char_of_def bit_Suc_0_iff

lemma of_char_digit: "d < 10 \<Longrightarrow> of_char (digit_char d) = 48 + d"
  by (simp add: digit_char_def)

lemma is_digit_digit_char [simp]: "d < 10 \<Longrightarrow> is_digit (digit_char d)"
  by (simp add: is_digit_def of_char_le of_char_digit)

lemma digit_val_digit_char [simp]: "d < 10 \<Longrightarrow> digit_val (digit_char d) = d"
  by (simp add: digit_val_def of_char_digit)

lemma format_nat_digits: "list_all is_digit (format_nat n) \<and> format_nat n \<noteq> []"
proof (induction n rule: format_nat.induct)
  case (1 n)
  then show ?case by (subst (1 2) format_nat.simps) auto
qed

lemma digits_val_snoc: "digits_val (s @ [c]) = digits_val s * 10 + digit_val c"
  by (simp add: digits_val_def)

lemma digits_val_format_nat [simp]: "digits_val (format_nat n) = n"
proof (induction n rule: format_nat.induct)
  case (1 n)
  show ?case
  proof (cases "n < 10")
    case True
    then show ?thesis by (subst format_nat.simps) (simp add: digits_val_def)
  next
    case False
    with 1 show ?thesis by (subst format_nat.simps) (simp add: digits_val_snoc)
  qed
qed

lemma parse_digits_format_nat [simp]: "parse_digits (format_nat n) = Some n"
  using format_nat_digits [of n] by (simp add: parse_digits_def)

lemma digit_not_sign: "is_digit c \<Longrightarrow> c \<noteq> CHR ''-'' \<and> c \<noteq> CHR ''+''"
  by (auto simp: is_digit_def)

lemma parse_int64_format_int:
  assumes "min_int64 \<le> i" and "i \<le> max_int64"
  shows "parse_int64 (format_int i) = Some i"
proof (cases "i < 0")
  case True
  with assms show ?thesis by (simp add: parse_int64_def format_int_def)
next
  case False
  obtain c cs where c: "format_nat (nat i) = c # cs"
    using format_nat_digits [of "nat i"] by (cases "format_nat (nat i)") auto
  then have "is_digit c" using format_nat_digits [of "nat i"] by simp
  then have "c \<noteq> CHR ''-''" and "c \<noteq> CHR ''+''" by (auto dest: digit_not_sign)
  moreover have "parse_digits (c # cs) = Some (nat i)"
    using parse_digits_format_nat [of "nat i"] by (simp add: c)
  ultimately show ?thesis using False assms
    by (simp add: parse_int64_def format_int_def c)
qed

lemma format_nat_inj: "format_nat m = format_nat n \<Longrightarrow> m = n"
  by (metis digits_val_format_nat)

lemma format_nat_no_char: "\<not> is_digit c \<Longrightarrow> c \<notin> set (format_nat n)"
  using format_nat_digits [of n] by (auto simp: list_all_iff)

lemma wrap64_id: "min_int64 \<le> x \<Longrightarrow> x \<le> max_int64 \<Longrightarrow> wrap64 x = x"
  by (simp add: wrap64_def min_int64_def max_int64_def)

lemma wrap64_range: "min_int64 \<le> wrap64 x \<and> wrap64 x \<le> max_int64"
  using pos_mod_bound [of 18446744073709551616 "x + 9223372036854775808"]
  by (simp add: wrap64_def min_int64_def max_int64_def)

subsection \<open>Case folding\<close>

lemma equal_fold_refl [simp]: "equal_fold s s"
  by (simp add: equal_fold_def)

lemma lower_char_idem [simp]: "lower_char (lower_char c) = lower_char c"
  by (auto simp: lower_char_def of_char_le)

lemma map_lower_char_idem [simp]: "map (lower_char \<circ> lower_char) s = map lower_char s"
  by simp

subsection \<open>Maps built by a loop\<close>

text \<open>A Go map filled by a loop is the association list read backwards: the last assignment wins.\<close>

lemma fold_map_upd: "fold (\<lambda>x m. m(f x \<mapsto> g x)) xs m = m ++ map_of (rev (map (\<lambda>x. (f x, g x)) xs))"
  by (induction xs arbitrary: m) (simp_all add: map_add_upd_left)

lemma fold_skip: "fold (\<lambda>x m. if P x then m else f x m) xs m = fold f (filter (\<lambda>x. \<not> P x) xs) m"
  by (induction xs arbitrary: m) simp_all

lemma map_of_rev_Some: "map_of (rev xs) k = Some v \<Longrightarrow> (k, v) \<in> set xs"
  using map_of_SomeD [of "rev xs" k v] by simp

lemma map_of_rev_distinct: "distinct (map fst xs) \<Longrightarrow> map_of (rev xs) k = Some v \<longleftrightarrow> (k, v) \<in> set xs"
  using map_of_eq_Some_iff [of "rev xs" k v] by (simp flip: rev_map)

lemma map_of_rev_None: "map_of (rev xs) k = None \<longleftrightarrow> k \<notin> fst ` set xs"
  by (simp add: map_of_eq_None_iff)

section \<open>Outcomes of an HTTP request\<close>

text \<open>
  What one HTTP GET of the plugin can come to, with the body already run through
  \<^verbatim>\<open>json.Unmarshal\<close> (\<open>None\<close> when the body is not the expected JSON).  Every upstream answer
  (service-service, application-service, Keycloak) enters the model as such a value.
\<close>

datatype 'a http_outcome =
    RequestBuildFailed
  | TransportFailed
  | BodyReadFailed
  | Response (http_status: int) (http_body: "'a option")

text \<open>A usable answer: status 200 and a body that decodes.\<close>

fun good_answer :: "'a http_outcome \<Rightarrow> 'a option" where
  "good_answer (Response s b) = (if s = 200 then b else None)"
| "good_answer _ = None"

end
