(* ===== verification/Caches.thy ===== *)
theory Caches
  imports Prelude
begin

text \<open>
  The contract shared by the three polled caches of the plugin (\<^verbatim>\<open>SnapshotCache\<close>, \<^verbatim>\<open>AppRegistryCache\<close>,
  \<^verbatim>\<open>JWKSCache\<close>): a refresh that yields a usable payload replaces what the cache serves, any other
  refresh leaves it as it was ("last-known-good").  The consequences over whole histories of refreshes
  and version polls are proved once here and used by each cache through its interpretation.
\<close>

section \<open>Last-known-good caches\<close>

text \<open>The payload of the last event that carries one.\<close>

fun last_payload :: "('e \<Rightarrow> 'v option) \<Rightarrow> 'e list \<Rightarrow> 'v option" where
  "last_payload f [] = None"
| "last_payload f (e # es) = (case last_payload f es of None \<Rightarrow> f e | Some v \<Rightarrow> Some v)"

lemma last_payload_None: "last_payload f es = None \<longleftrightarrow> (\<forall>e \<in> set es. f e = None)"
  by (induction es) (auto split: option.splits)

lemma last_payload_snoc: "last_payload f (es @ [e]) = (case f e of None \<Rightarrow> last_payload f es | Some v \<Rightarrow> Some v)"
  by (induction es) (auto split: option.splits)

locale last_good_cache =
  fixes refresh :: "'e \<Rightarrow> 'c \<Rightarrow> 'c"
    and payload :: "'e \<Rightarrow> 'v option"
    and view :: "'c \<Rightarrow> 'v option"
  assumes keep: "payload e = None \<Longrightarrow> view (refresh e c) = view c"
    and replace: "payload e = Some v \<Longrightarrow> view (refresh e c) = Some v"
begin

lemma view_refresh: "view (refresh e c) = (case payload e of None \<Rightarrow> view c | Some v \<Rightarrow> Some v)"
  using keep replace by (cases "payload e") auto

lemma view_history:
  "view (fold refresh es c) = (case last_payload payload es of None \<Rightarrow> view c | Some v \<Rightarrow> Some v)"
  by (induction es arbitrary: c) (auto simp: view_refresh split: option.splits)

lemma outage_keeps_view: "(\<And>e. e \<in> set es \<Longrightarrow> payload e = None) \<Longrightarrow> view (fold refresh es c) = view c"
  by (simp add: view_history last_payload_None [THEN iffD2])

lemma never_cold_again: "view c \<noteq> None \<Longrightarrow> view (fold refresh es c) \<noteq> None"
  by (auto simp: view_history split: option.splits)

lemma warm_iff: "view c = None \<Longrightarrow> view (fold refresh es c) \<noteq> None \<longleftrightarrow> (\<exists>e \<in> set es. payload e \<noteq> None)"
  using last_payload_None [of payload es] by (cases "last_payload payload es") (auto simp: view_history)

end

section \<open>Version polling\<close>

text \<open>One round of a poll loop and a history of rounds: a refresh tick (\<open>None\<close>) or a version poll.\<close>

definition poll_step ::
  "('e \<Rightarrow> 'c \<Rightarrow> 'c) \<Rightarrow> ('a \<Rightarrow> 'e \<Rightarrow> 'c \<Rightarrow> 'c) \<Rightarrow> 'a option \<times> 'e \<Rightarrow> 'c \<Rightarrow> 'c" where
  "poll_step refresh check op c =
     (case op of (None, e) \<Rightarrow> refresh e c | (Some a, e) \<Rightarrow> check a e c)"

fun poll_run ::
  "('e \<Rightarrow> 'c \<Rightarrow> 'c) \<Rightarrow> ('a \<Rightarrow> 'e \<Rightarrow> 'c \<Rightarrow> 'c) \<Rightarrow> ('a option \<times> 'e) list \<Rightarrow> 'c \<Rightarrow> 'c" where
  "poll_run refresh check [] c = c"
| "poll_run refresh check (op # ops) c = poll_run refresh check ops (poll_step refresh check op c)"

text \<open>
  The two registry caches also poll a version and refresh only when it differs from the version of
  the snapshot they serve.  \<open>check\<close> takes the answer of the version endpoint and the event of the
  refresh it may trigger.
\<close>

locale polled_cache = last_good_cache refresh payload view
  for refresh :: "'e \<Rightarrow> 'c \<Rightarrow> 'c"
    and payload :: "'e \<Rightarrow> 'v option"
    and view :: "'c \<Rightarrow> 'v option" +
  fixes check :: "string http_outcome \<Rightarrow> 'e \<Rightarrow> 'c \<Rightarrow> 'c"
    and version :: "'c \<Rightarrow> string"
  assumes check_fails: "good_answer a = None \<Longrightarrow> check a e c = c"
    and check_same: "good_answer a = Some (version c) \<Longrightarrow> check a e c = c"
    and check_changed: "good_answer a = Some v \<Longrightarrow> v \<noteq> version c \<Longrightarrow> check a e c = refresh e c"
begin

lemma check_cases: "check a e c = c \<or> check a e c = refresh e c"
proof (cases "good_answer a")
  case (Some v)
  then show ?thesis using check_same check_changed by (cases "v = version c") auto
qed (simp add: check_fails)

lemma check_view: "view (check a e c) = view c \<or> view (check a e c) = payload e"
  using check_cases [of a e c] by (auto simp: view_refresh split: option.splits)

lemma check_never_cold: "view c \<noteq> None \<Longrightarrow> view (check a e c) \<noteq> None"
  using check_cases [of a e c] by (auto simp: view_refresh split: option.splits)

text \<open>Any interleaving of refreshes and polls serves the initial view or the payload of some event.\<close>

lemma run_view:
  "view (poll_run refresh check ops c) \<in> insert (view c) (payload ` snd ` set ops)"
proof (induction ops arbitrary: c)
  case (Cons op ops)
  obtain poll e where op: "op = (poll, e)" by (cases op)
  have "view (poll_step refresh check op c) \<in> {view c, payload e}"
    using check_view [of _ e c] by (auto simp: op poll_step_def view_refresh split: option.splits)
  with Cons.IH [of "poll_step refresh check op c"] show ?case by (auto simp: op)
qed simp

lemma run_never_cold: "view c \<noteq> None \<Longrightarrow> view (poll_run refresh check ops c) \<noteq> None"
proof (induction ops arbitrary: c)
  case (Cons op ops)
  have "view (poll_step refresh check op c) \<noteq> None"
    using Cons.prems never_cold_again [of c "[snd op]"] check_never_cold [of c _ "snd op"]
    by (auto simp: poll_step_def split: prod.splits option.splits)
  then show ?case by (simp add: Cons.IH)
qed simp

end

section \<open>Poll tickers\<close>

text \<open>\<^verbatim>\<open>time.NewTicker\<close> panics (\<open>None\<close>) unless the interval is positive.\<close>

definition new_ticker :: "int \<Rightarrow> int option" where
  "new_ticker interval = (if interval \<le> 0 then None else Some interval)"

text \<open>The two tickers a poll loop starts with: version polls, then refreshes.\<close>

definition poll_tickers :: "int \<Rightarrow> int \<Rightarrow> (int \<times> int) option" where
  "poll_tickers poll_interval refresh_interval =
     Option.bind (new_ticker poll_interval) (\<lambda>p. map_option (Pair p) (new_ticker refresh_interval))"

end
