(* ===== verification/Config.thy ===== *)
theory Config
  imports Prelude Caches
begin

text \<open>
  \<^verbatim>\<open>config.go\<close>: the configuration record, its defaults and \<open>parse_duration\<close>, with
  \<^verbatim>\<open>time.ParseDuration\<close> written out.  The fraction of a decimal such as \<^verbatim>\<open>1.5s\<close> is computed exactly
  where Go multiplies in \<^verbatim>\<open>float64\<close>; the two agree to the nanosecond.
\<close>

section \<open>Configuration\<close>

record keycloak_realm =
  kr_app_id :: string
  kr_issuer :: string
  kr_jwks_url :: string

record config =
  cfg_jwt_header_key :: string
  cfg_keycloak_apps :: "string list"
  cfg_keycloak_jwks_url :: string
  cfg_keycloak_issuer :: string
  cfg_keycloak_realms :: "keycloak_realm list"
  cfg_operator_realm :: keycloak_realm
  cfg_authorization_mode :: string
  cfg_keycloak_user_id_claim :: string
  cfg_keycloak_admin_roles :: "string list"
  cfg_keycloak_clock_skew_seconds :: int
  cfg_jwks_refresh_interval :: string
  cfg_jwks_refetch_cooldown :: string
  cfg_user_uid_header :: string
  cfg_user_email_header :: string
  cfg_session_id_header :: string
  cfg_device_id_header :: string
  cfg_redis_url :: string
  cfg_redis_password :: string
  cfg_redis_db :: int
  cfg_redis_prefix :: string
  cfg_service_service_url :: string
  cfg_snapshot_refresh_interval :: string
  cfg_snapshot_version_poll_interval :: string
  cfg_application_service_url :: string
  cfg_app_snapshot_refresh_interval :: string
  cfg_app_snapshot_version_poll_interval :: string
  cfg_app_id_header :: string
  cfg_app_resolution_mode :: string
  cfg_trust_forwarded_host :: bool
  cfg_usage_service_url :: string
  cfg_default_rate_limit_requests :: int
  cfg_default_rate_limit_duration_seconds :: int
  cfg_default_plan_name :: string
  cfg_admin_access_level :: string
  cfg_free_access_level :: string
  cfg_admin_permission :: string
  cfg_user_id_header :: string
  cfg_user_plan_header :: string
  cfg_is_admin_header :: string
  cfg_user_roles_header :: string
  cfg_http_timeout :: string
  cfg_log_level :: string
  cfg_disable_rate_limit :: bool
  cfg_disable_auth :: bool
  cfg_cors_allowed_origins :: "string list"
  cfg_cors_allowed_methods :: "string list"
  cfg_cors_allowed_headers :: "string list"
  cfg_cors_allow_credentials :: bool
  cfg_cors_max_age :: int

definition create_config :: config where
  "create_config =
     \<lparr>cfg_jwt_header_key = ''Authorization'',
      cfg_keycloak_apps = [],
      cfg_keycloak_jwks_url = [],
      cfg_keycloak_issuer = [],
      cfg_keycloak_realms = [],
      cfg_operator_realm = \<lparr>kr_app_id = [], kr_issuer = [], kr_jwks_url = []\<rparr>,
      cfg_authorization_mode = ''legacy'',
      cfg_keycloak_user_id_claim = ''luid'',
      cfg_keycloak_admin_roles = [''admin'', ''owner''],
      cfg_keycloak_clock_skew_seconds = 30,
      cfg_jwks_refresh_interval = ''10m'',
      cfg_jwks_refetch_cooldown = ''30s'',
      cfg_user_uid_header = ''X-User-Uid'',
      cfg_user_email_header = [],
      cfg_session_id_header = ''X-Session-Id'',
      cfg_device_id_header = ''X-Device-Id'',
      cfg_redis_url = ''redis://127.0.0.1:6379/0'',
      cfg_redis_password = [],
      cfg_redis_db = 0,
      cfg_redis_prefix = ''gw:rl:'',
      cfg_service_service_url = ''http://service-service:8080'',
      cfg_snapshot_refresh_interval = ''30s'',
      cfg_snapshot_version_poll_interval = ''5s'',
      cfg_application_service_url = ''http://application-service:8080'',
      cfg_app_snapshot_refresh_interval = ''30s'',
      cfg_app_snapshot_version_poll_interval = ''5s'',
      cfg_app_id_header = ''X-App-Id'',
      cfg_app_resolution_mode = ''enforce'',
      cfg_trust_forwarded_host = False,
      cfg_usage_service_url = ''http://usage-service:8080'',
      cfg_default_rate_limit_requests = 30,
      cfg_default_rate_limit_duration_seconds = 60,
      cfg_default_plan_name = ''free'',
      cfg_admin_access_level = ''admin'',
      cfg_free_access_level = ''free'',
      cfg_admin_permission = ''platform.admin'',
      cfg_user_id_header = ''X-User-Id'',
      cfg_user_plan_header = ''X-User-Plan'',
      cfg_is_admin_header = ''X-Is-Admin'',
      cfg_user_roles_header = ''X-User-Roles'',
      cfg_http_timeout = ''5s'',
      cfg_log_level = ''info'',
      cfg_disable_rate_limit = False,
      cfg_disable_auth = False,
      cfg_cors_allowed_origins = [],
      cfg_cors_allowed_methods = [''GET'', ''POST'', ''PUT'', ''PATCH'', ''DELETE'', ''OPTIONS''],
      cfg_cors_allowed_headers =
        [''Origin'', ''Content-Type'', ''Accept'', ''Authorization'', ''X-Session-Id'', ''X-Device-Id'', ''X-App-Id''],
      cfg_cors_allow_credentials = True,
      cfg_cors_max_age = 3600\<rparr>"

section \<open>Durations\<close>

text \<open>Nanoseconds of each unit of \<^verbatim>\<open>time.ParseDuration\<close> (both spellings of the micro sign, in UTF-8).\<close>

definition duration_units :: "(string \<times> nat) list" where
  "duration_units =
     [(''ns'', 1), (''us'', 1000), ([CHR 0xC2, CHR 0xB5, CHR ''s''], 1000), ([CHR 0xCE, CHR 0xBC, CHR ''s''], 1000),
      (''ms'', 1000000), (''s'', 1000000000), (''m'', 60000000000), (''h'', 3600000000000)]"

definition two63 :: nat where "two63 = 9223372036854775808"

text \<open>\<^verbatim>\<open>leadingInt\<close>: the leading digits, an overflow above 2^63.\<close>

fun leading_int :: "nat \<Rightarrow> string \<Rightarrow> (nat \<times> string) option" where
  "leading_int x [] = Some (x, [])"
| "leading_int x (c # s) =
     (if \<not> is_digit c then Some (x, c # s)
      else if x > two63 div 10 then None
      else (let y = x * 10 + digit_val c in if y > two63 then None else leading_int y s))"

text \<open>\<^verbatim>\<open>leadingFraction\<close>: value and scale; digits past the overflow are skipped.\<close>

fun leading_fraction :: "nat \<Rightarrow> nat \<Rightarrow> bool \<Rightarrow> string \<Rightarrow> nat \<times> nat \<times> string" where
  "leading_fraction x scale over [] = (x, scale, [])"
| "leading_fraction x scale over (c # s) =
     (if \<not> is_digit c then (x, scale, c # s)
      else if over then leading_fraction x scale True s
      else if x > (two63 - 1) div 10 then leading_fraction x scale True s
      else (let y = x * 10 + digit_val c in
            if y > two63 then leading_fraction x scale True s
            else leading_fraction y (scale * 10) False s))"

definition starts_number :: "char \<Rightarrow> bool" where
  "starts_number c \<longleftrightarrow> c = CHR ''.'' \<or> is_digit c"

text \<open>The optional fraction after the integer part: value, scale, rest and whether it has a digit.\<close>

definition fraction_part :: "string \<Rightarrow> nat \<times> nat \<times> string \<times> bool" where
  "fraction_part s =
     (case s of
        d # t \<Rightarrow>
          if d = CHR ''.'' then
            (case leading_fraction 0 1 False t of (f, scale, u) \<Rightarrow> (f, scale, u, length u \<noteq> length t))
          else (0, 1, s, False)
      | [] \<Rightarrow> (0, 1, s, False))"

text \<open>The unit: everything up to the next number.\<close>

definition duration_unit :: "string \<Rightarrow> (nat \<times> string) option" where
  "duration_unit s =
     (let u = takeWhile (\<lambda>c. \<not> starts_number c) s in
      if u = [] then None
      else map_option (\<lambda>k. (k, dropWhile (\<lambda>c. \<not> starts_number c) s)) (map_of duration_units u))"

text \<open>One \<^verbatim>\<open><number><unit>\<close> term: its nanoseconds and the rest of the text.\<close>

definition duration_term :: "string \<Rightarrow> (nat \<times> string) option" where
  "duration_term s =
     (if s = [] \<or> \<not> starts_number (hd s) then None
      else (case leading_int 0 s of
              None \<Rightarrow> None
            | Some (v, s1) \<Rightarrow>
                (case fraction_part s1 of (f, scale, s2, post) \<Rightarrow>
                   if length s1 = length s \<and> \<not> post then None
                   else (case duration_unit s2 of
                           None \<Rightarrow> None
                         | Some (k, s3) \<Rightarrow>
                             if v > two63 div k then None
                             else (let w = v * k + (f * k) div scale in
                                   if w > two63 then None else Some (w, s3))))))"

lemma leading_int_shorter: "leading_int x s = Some (v, t) \<Longrightarrow> length t \<le> length s"
  by (induction x s arbitrary: v t rule: leading_int.induct)
    (fastforce simp: Let_def split: if_splits)+

lemma leading_fraction_shorter: "leading_fraction x k b s = (f, m, t) \<Longrightarrow> length t \<le> length s"
  by (induction x k b s arbitrary: f m t rule: leading_fraction.induct)
    (fastforce simp: Let_def split: if_splits)+

lemma fraction_part_shorter: "fraction_part s = (f, k, t, post) \<Longrightarrow> length t \<le> length s"
  by (auto simp: fraction_part_def dest!: leading_fraction_shorter split: list.splits if_splits prod.splits)

lemma duration_unit_shorter: "duration_unit s = Some (k, t) \<Longrightarrow> length t < length s"
proof -
  have drop: "takeWhile P u \<noteq> [] \<Longrightarrow> length (dropWhile P u) < length u" for P and u :: string
    by (cases u) (auto intro: le_imp_less_Suc length_dropWhile_le split: if_splits)
  assume "duration_unit s = Some (k, t)"
  then show ?thesis by (auto simp: duration_unit_def Let_def split: if_splits intro: drop)
qed

lemma duration_term_shorter: "duration_term s = Some (d, t) \<Longrightarrow> length t < length s"
  by (auto simp: duration_term_def Let_def split: if_splits option.splits prod.splits
      dest!: leading_int_shorter fraction_part_shorter duration_unit_shorter)

text \<open>The loop over the terms.\<close>

function duration_sum :: "nat \<Rightarrow> string \<Rightarrow> nat option" where
  "duration_sum d s =
     (if s = [] then Some d
      else (case duration_term s of
              None \<Rightarrow> None
            | Some (w, t) \<Rightarrow> if d + w > two63 then None else duration_sum (d + w) t))"
  by pat_completeness auto
termination
  by (relation "measure (\<lambda>(d, s). length s)") (auto dest: duration_term_shorter)

declare duration_sum.simps [simp del]

definition go_parse_duration :: "string \<Rightarrow> int option" where
  "go_parse_duration s =
     (let (neg, t) = (case s of
                        c # r \<Rightarrow> if c = CHR ''-'' \<or> c = CHR ''+'' then (c = CHR ''-'', r) else (False, s)
                      | [] \<Rightarrow> (False, s))
      in if t = ''0'' then Some 0
         else if t = [] then None
         else (case duration_sum 0 t of
                 None \<Rightarrow> None
               | Some d \<Rightarrow> if neg then Some (- int d) else if d > two63 - 1 then None else Some (int d)))"

definition parse_duration :: "string \<Rightarrow> int \<Rightarrow> int" where
  "parse_duration s fallback =
     (if s = [] then fallback else (case go_parse_duration s of None \<Rightarrow> fallback | Some d \<Rightarrow> d))"


section \<open>Properties\<close>

lemma duration_sum_step:
  "duration_sum d s =
     (if s = [] then Some d
      else (case duration_term s of
              None \<Rightarrow> None
            | Some (w, t) \<Rightarrow> if d + w > two63 then None else duration_sum (d + w) t))"
  by (subst duration_sum.simps) simp

lemma leading_int_digits:
  assumes "list_all is_digit ds" and "foldl (\<lambda>v c. v * 10 + digit_val c) x ds \<le> two63"
    and "s = [] \<or> \<not> is_digit (hd s)"
  shows "leading_int x (ds @ s) = Some (foldl (\<lambda>v c. v * 10 + digit_val c) x ds, s)"
  using assms(1,2)
proof (induction ds arbitrary: x)
  case Nil
  then show ?case using assms(3) by (cases s) simp_all
next
  case (Cons c ds)
  have grow: "x \<le> foldl (\<lambda>v c. v * 10 + digit_val c) x es" for x :: nat and es
  proof (induction es arbitrary: x)
    case (Cons e es)
    have "x \<le> x * 10 + digit_val e" by simp
    also note Cons.IH [of "x * 10 + digit_val e"]
    finally show ?case by simp
  qed simp
  let ?y = "x * 10 + digit_val c"
  have y: "?y \<le> two63" using Cons.prems(2) grow [of ?y ds] by simp
  then have "x \<le> two63 div 10" by simp
  with y Cons show ?case by (simp add: Let_def)
qed

lemma duration_seconds:
  assumes "n \<le> 9223372036"
  shows "go_parse_duration (format_nat n @ ''s'') = Some (int n * 1000000000)"
proof -
  have digits: "list_all is_digit (format_nat n)" "format_nat n \<noteq> []" using format_nat_digits [of n] by simp_all
  then obtain c r where c: "format_nat n = c # r" "is_digit c" by (cases "format_nat n") auto
  have "foldl (\<lambda>v c. v * 10 + digit_val c) 0 (format_nat n) = n"
    using digits_val_format_nat [of n] by (simp only: digits_val_def)
  then have li: "leading_int 0 (format_nat n @ ''s'') = Some (n, ''s'')"
    using leading_int_digits [OF digits(1), of 0 "''s''"] assms by (simp add: two63_def is_digit_def)
  have "starts_number c" using c(2) by (simp add: starts_number_def)
  then have "duration_term (format_nat n @ ''s'') = Some (n * 1000000000, [])"
    using li assms digits c 
    by (simp add: duration_term_def fraction_part_def duration_unit_def duration_units_def two63_def
        starts_number_def is_digit_def)
  then have "duration_sum 0 (format_nat n @ ''s'') = Some (n * 1000000000)"
    using assms by (simp add: duration_sum_step two63_def)
  moreover have "c \<noteq> CHR ''-''" and "c \<noteq> CHR ''+''" using c(2) by (auto dest: digit_not_sign)
  ultimately show ?thesis
    using assms c by (simp add: go_parse_duration_def two63_def)
qed

text \<open>
  an interval given in whole seconds is taken as given, up to the largest duration.
\<close>

theorem parse_duration_seconds:
  assumes "n \<le> 9223372036"
  shows "parse_duration (format_nat n @ ''s'') fallback = int n * 1000000000"
  using duration_seconds [OF assms] by (simp add: parse_duration_def)

theorem parse_duration_seconds_witness: "parse_duration (format_nat 45 @ ''s'') 7 = int 45 * 1000000000"
  by (rule parse_duration_seconds) simp

lemma default_durations:
  "go_parse_duration ''30s'' = Some 30000000000" "go_parse_duration ''5s'' = Some 5000000000"
  "go_parse_duration ''10m'' = Some 600000000000"
  by (simp_all add: go_parse_duration_def duration_sum_step duration_term_def fraction_part_def duration_unit_def duration_units_def two63_def
      starts_number_def is_digit_def digit_val_def of_char_le Let_def)

text \<open>
  the default configuration is coherent: each of its interval strings parses to the very fallback the
  constructor passes for it, and the tickers of both pollers start.
\<close>

theorem default_intervals:
  "parse_duration (cfg_http_timeout create_config) 5000000000 = 5000000000 \<and>
   parse_duration (cfg_snapshot_refresh_interval create_config) fb = 30000000000 \<and>
   parse_duration (cfg_snapshot_version_poll_interval create_config) fb = 5000000000 \<and>
   parse_duration (cfg_app_snapshot_refresh_interval create_config) fb = 30000000000 \<and>
   parse_duration (cfg_app_snapshot_version_poll_interval create_config) fb = 5000000000 \<and>
   parse_duration (cfg_jwks_refresh_interval create_config) fb = 600000000000 \<and>
   parse_duration (cfg_jwks_refetch_cooldown create_config) fb = 30000000000"
  by (simp add: parse_duration_def create_config_def default_durations)

text \<open>
  an interval of zero or less is accepted and then kills the poller: \<open>parse_duration\<close> falls back only
  on text that is no duration, so \<^verbatim>\<open>"0"\<close> and negative intervals reach \<^verbatim>\<open>time.NewTicker\<close>, which panics.
\<close>

theorem zero_interval_panics:
  "poll_tickers (parse_duration ''0'' fallback) refresh = None \<and>
   poll_tickers poll (parse_duration ''-5s'' fallback) = None"
proof -
  have "go_parse_duration ''-5s'' = Some (- 5000000000)"
    by (simp add: go_parse_duration_def duration_sum_step duration_term_def fraction_part_def duration_unit_def duration_units_def two63_def
      starts_number_def is_digit_def digit_val_def of_char_le Let_def)
  then show ?thesis
    by (simp add: parse_duration_def go_parse_duration_def poll_tickers_def new_ticker_def bind_eq_None_conv
        split: option.split)
qed

end
