(* ===== verification/Http.thy ===== *)
theory Http
  imports Prelude
begin

text \<open>
  The part of \<^verbatim>\<open>net/http\<close> and \<^verbatim>\<open>net/url\<close> the request path touches: header maps with canonical
  keys, the query string, the inbound request and the response writer.

  \<^verbatim>\<open>http.Header\<close> is a map from canonical field names to value lists; \<open>h_get\<close>, \<open>h_set\<close>, \<open>h_add\<close>
  and \<open>h_del\<close> canonicalise their key first, as the Go methods do, so a configured name such as
  \<^verbatim>\<open>x-app-id\<close> addresses the same entry as \<^verbatim>\<open>X-App-Id\<close>.
\<close>

section \<open>Header maps\<close>

type_synonym header = "string \<rightharpoonup> string list"

text \<open>\<^verbatim>\<open>textproto.validHeaderFieldByte\<close>: the token characters of RFC 7230.\<close>

definition token_byte :: "char \<Rightarrow> bool" where
  "token_byte c \<longleftrightarrow>
     (CHR ''a'' \<le> c \<and> c \<le> CHR ''z'') \<or> (CHR ''A'' \<le> c \<and> c \<le> CHR ''Z'') \<or> is_digit c \<or>
     c \<in> set [CHR 0x21, CHR 0x23, CHR 0x24, CHR 0x25, CHR 0x26, CHR 0x27, CHR 0x2A, CHR 0x2B,
              CHR 0x2D, CHR 0x2E, CHR 0x5E, CHR 0x5F, CHR 0x60, CHR 0x7C, CHR 0x7E]"

fun canon_bytes :: "bool \<Rightarrow> string \<Rightarrow> string" where
  "canon_bytes up [] = []"
| "canon_bytes up (c # s) =
     (let d = (if up then upper_char c else lower_char c) in d # canon_bytes (d = CHR ''-'') s)"

text \<open>\<^verbatim>\<open>textproto.CanonicalMIMEHeaderKey\<close>.\<close>

definition canonical_key :: "string \<Rightarrow> string" where
  "canonical_key s = (if list_all token_byte s then canon_bytes True s else s)"

definition h_get :: "header \<Rightarrow> string \<Rightarrow> string" where
  "h_get h k = (case h (canonical_key k) of Some (v # _) \<Rightarrow> v | _ \<Rightarrow> [])"

definition h_set :: "header \<Rightarrow> string \<Rightarrow> string \<Rightarrow> header" where
  "h_set h k v = h(canonical_key k \<mapsto> [v])"

definition h_add :: "header \<Rightarrow> string \<Rightarrow> string \<Rightarrow> header" where
  "h_add h k v =
     h(canonical_key k \<mapsto> (case h (canonical_key k) of None \<Rightarrow> [v] | Some vs \<Rightarrow> vs @ [v]))"

definition h_del :: "header \<Rightarrow> string \<Rightarrow> header" where
  "h_del h k = h(canonical_key k := None)"

text \<open>Two configured names that address the same header entry.\<close>

definition same_key :: "string \<Rightarrow> string \<Rightarrow> bool" where
  "same_key a b \<longleftrightarrow> canonical_key a = canonical_key b"

declare same_key_def [go_defs] canonical_key_def [go_defs] token_byte_def [go_defs]

lemma h_get_set [simp]: "h_get (h_set h k v) j = (if same_key j k then v else h_get h j)"
  by (simp add: h_get_def h_set_def same_key_def)

lemma h_get_del [simp]: "h_get (h_del h k) j = (if same_key j k then [] else h_get h j)"
  by (simp add: h_get_def h_del_def same_key_def)

lemma h_set_apply: "h_set h k v c = (if c = canonical_key k then Some [v] else h c)"
  by (simp add: h_set_def)

lemma h_del_apply: "h_del h k c = (if c = canonical_key k then None else h c)"
  by (simp add: h_del_def)

lemma same_key_refl [simp]: "same_key k k"
  by (simp add: same_key_def)

lemma same_key_sym: "same_key j k \<Longrightarrow> same_key k j"
  by (simp add: same_key_def)

lemma h_del_set_same: "same_key j k \<Longrightarrow> h_del (h_set h k v) j = h_del h j"
  by (simp add: h_del_def h_set_def same_key_def)

section \<open>Query strings\<close>

definition hex_val :: "char \<Rightarrow> nat option" where
  "hex_val c =
     (if is_digit c then Some (of_char c - 48)
      else if CHR ''a'' \<le> c \<and> c \<le> CHR ''f'' then Some (of_char c - 87)
      else if CHR ''A'' \<le> c \<and> c \<le> CHR ''F'' then Some (of_char c - 55)
      else None)"

text \<open>\<^verbatim>\<open>url.QueryUnescape\<close>: \<open>None\<close> is an \<^verbatim>\<open>EscapeError\<close>.\<close>

fun query_unescape :: "string \<Rightarrow> string option" where
  "query_unescape [] = Some []"
| "query_unescape (c # s) =
     (if c = CHR ''%'' then
        (case s of
           a # b # t \<Rightarrow>
             (case (hex_val a, hex_val b) of
                (Some x, Some y) \<Rightarrow> map_option (\<lambda>r. char_of (16 * x + y) # r) (query_unescape t)
              | _ \<Rightarrow> None)
         | _ \<Rightarrow> None)
      else if c = CHR ''+'' then map_option (\<lambda>r. CHR '' '' # r) (query_unescape s)
      else map_option (\<lambda>r. c # r) (query_unescape s))"

text \<open>One \<open>&\<close>-separated piece of the query; empty, malformed or \<open>;\<close>-bearing pieces are skipped.\<close>

definition query_pair :: "string \<Rightarrow> (string \<times> string) option" where
  "query_pair piece =
     (if CHR '';'' \<in> set piece \<or> piece = [] then None
      else (let (k, v, found) = cut piece (CHR ''='')
            in case (query_unescape k, query_unescape v) of
                 (Some k', Some v') \<Rightarrow> Some (k', v')
               | _ \<Rightarrow> None))"

text \<open>\<^verbatim>\<open>url.ParseQuery\<close>: the pairs in the order in which they are appended.\<close>

definition parse_query :: "string \<Rightarrow> (string \<times> string) list" where
  "parse_query raw = List.map_filter query_pair (split_on (CHR ''&'') raw)"

text \<open>\<^verbatim>\<open>Values.Get\<close>: the first value of the key, \<^verbatim>\<open>""\<close> when there is none.\<close>

definition query_get :: "string \<Rightarrow> string \<Rightarrow> string" where
  "query_get raw name = (case map_of (parse_query raw) name of Some v \<Rightarrow> v | None \<Rightarrow> [])"

section \<open>Requests and responses\<close>

text \<open>\<^verbatim>\<open>*http.Request\<close>, as far as the plugin reads or writes it; the path is already decoded.\<close>

record request =
  req_method :: string
  req_host :: string
  req_path :: string
  req_raw_query :: string
  req_remote_addr :: string
  req_header :: header

text \<open>
  The response writer: its header map, the status of the first \<^verbatim>\<open>WriteHeader\<close> and the JSON
  documents written (\<open>'b\<close> is the type of the documents).
\<close>

record 'b response =
  rsp_header :: header
  rsp_status :: "int option"
  rsp_body :: "'b list"

definition set_req_header :: "string \<Rightarrow> string \<Rightarrow> request \<Rightarrow> request" where
  "set_req_header k v r = r\<lparr>req_header := h_set (req_header r) k v\<rparr>"

definition del_req_header :: "string \<Rightarrow> request \<Rightarrow> request" where
  "del_req_header k r = r\<lparr>req_header := h_del (req_header r) k\<rparr>"

abbreviation get_req_header :: "request \<Rightarrow> string \<Rightarrow> string" where
  "get_req_header r k \<equiv> h_get (req_header r) k"

definition set_rsp_header :: "string \<Rightarrow> string \<Rightarrow> 'b response \<Rightarrow> 'b response" where
  "set_rsp_header k v rw = rw\<lparr>rsp_header := h_set (rsp_header rw) k v\<rparr>"

definition add_rsp_header :: "string \<Rightarrow> string \<Rightarrow> 'b response \<Rightarrow> 'b response" where
  "add_rsp_header k v rw = rw\<lparr>rsp_header := h_add (rsp_header rw) k v\<rparr>"

text \<open>\<^verbatim>\<open>WriteHeader\<close>: only the first call sets the status.\<close>

definition write_header :: "int \<Rightarrow> 'b response \<Rightarrow> 'b response" where
  "write_header code rw =
     (case rsp_status rw of None \<Rightarrow> rw\<lparr>rsp_status := Some code\<rparr> | Some _ \<Rightarrow> rw)"

lemma request_header_simps [simp]:
  "req_method (set_req_header k v r) = req_method r"
  "req_host (set_req_header k v r) = req_host r"
  "req_path (set_req_header k v r) = req_path r"
  "req_raw_query (set_req_header k v r) = req_raw_query r"
  "req_remote_addr (set_req_header k v r) = req_remote_addr r"
  "req_header (set_req_header k v r) = h_set (req_header r) k v"
  "req_method (del_req_header k r) = req_method r"
  "req_host (del_req_header k r) = req_host r"
  "req_path (del_req_header k r) = req_path r"
  "req_raw_query (del_req_header k r) = req_raw_query r"
  "req_remote_addr (del_req_header k r) = req_remote_addr r"
  "req_header (del_req_header k r) = h_del (req_header r) k"
  by (simp_all add: set_req_header_def del_req_header_def)

lemma response_header_simps [simp]:
  "rsp_status (set_rsp_header k v rw) = rsp_status rw"
  "rsp_body (set_rsp_header k v rw) = rsp_body rw"
  "rsp_header (set_rsp_header k v rw) = h_set (rsp_header rw) k v"
  "rsp_status (add_rsp_header k v rw) = rsp_status rw"
  "rsp_body (add_rsp_header k v rw) = rsp_body rw"
  "rsp_header (add_rsp_header k v rw) = h_add (rsp_header rw) k v"
  "rsp_header (write_header c rw) = rsp_header rw"
  "rsp_body (write_header c rw) = rsp_body rw"
  "rsp_status rw = None \<Longrightarrow> rsp_status (write_header c rw) = Some c"
  by (simp_all add: set_rsp_header_def add_rsp_header_def write_header_def split: option.splits)

section \<open>Canonical names\<close>

text \<open>Canonicalisation is idempotent, so a header map never holds two spellings of one name.\<close>

lemma upper_lower_cases:
  "upper_char c = c \<or> (CHR ''a'' \<le> c \<and> c \<le> CHR ''z'')"
  "lower_char c = c \<or> (CHR ''A'' \<le> c \<and> c \<le> CHR ''Z'')"
  by (auto simp: upper_char_def lower_char_def)

lemma upper_char_idem [simp]: "upper_char (upper_char c) = upper_char c"
  by (auto simp: upper_char_def of_char_le)

lemma token_byte_upper: "token_byte c \<Longrightarrow> token_byte (upper_char c)"
  by (auto simp: upper_char_def token_byte_def of_char_le)

lemma token_byte_lower: "token_byte c \<Longrightarrow> token_byte (lower_char c)"
  by (auto simp: lower_char_def token_byte_def of_char_le)

lemma canon_bytes_idem: "canon_bytes up (canon_bytes up s) = canon_bytes up s"
proof (induction up s rule: canon_bytes.induct)
  case (2 up c s)
  then show ?case by (cases up) (simp_all add: Let_def)
qed simp

lemma canon_bytes_token: "list_all token_byte s \<Longrightarrow> list_all token_byte (canon_bytes up s)"
  by (induction up s rule: canon_bytes.induct)
    (auto simp: Let_def token_byte_upper token_byte_lower)

lemma canonical_key_idem [simp]: "canonical_key (canonical_key s) = canonical_key s"
  by (simp add: canonical_key_def canon_bytes_idem canon_bytes_token)

end
