(* ===== verification/Redis_Resp.thy ===== *)
theory Redis_Resp
  imports Prelude
begin

text \<open>
  \<^verbatim>\<open>redis_resp.go\<close>: the RESP2 client.  \<open>write_resp_args\<close> encodes a command, \<open>read_resp_reply\<close> reads a
  reply, \<open>redis_connect\<close>, \<open>redis_do\<close> and the four commands are the operations on the client's state.

  A connection is what the peer does with it: the bytes it will still send (reading past their end is an
  I/O error, which covers a closed connection and a deadline alike), whether each of the next writes
  succeeds, and the bytes written so far.  A Go panic is an outcome of its own.
\<close>

section \<open>Encoding commands\<close>

definition crlf :: string where "crlf = [CHR 0x0D, CHR 0x0A]"

definition write_resp_args :: "string list \<Rightarrow> string" where
  "write_resp_args args =
     ''*'' @ format_int (int (length args)) @ crlf @
     concat (map (\<lambda>a. ''$'' @ format_int (int (length a)) @ crlf @ a @ crlf) args)"

section \<open>Reading replies\<close>

datatype resp_value = RNil | RString string | RInt int

datatype redis_error =
    Unavailable
  | DialFailed
  | TlsFailed
  | WriteFailed
  | ReadFailed
  | Malformed
  | BadInteger
  | UnexpectedReply char
  | ReplyError string
  | UnexpectedValue resp_value

datatype 'v redis_result = Value 'v | Failed redis_error | Panicked

text \<open>\<^verbatim>\<open>ReadBytes('\n')\<close>: up to and including the newline, and what follows.\<close>

definition read_line :: "string \<Rightarrow> (string \<times> string) option" where
  "read_line s =
     (case index_byte s (CHR 0x0A) of None \<Rightarrow> None | Some i \<Rightarrow> Some (take (Suc i) s, drop (Suc i) s))"

text \<open>The body of a line that ends in CR LF.\<close>

definition line_body :: "string \<Rightarrow> string option" where
  "line_body line =
     (if length line < 2 \<or> line ! (length line - 2) \<noteq> CHR 0x0D then None
      else Some (take (length line - 2) line))"

text \<open>
  \<^verbatim>\<open>make([]byte, n+2)\<close> panics for a negative length or one above the largest allocation (2^48 bytes on
  64-bit platforms); the sum wraps like an \<^verbatim>\<open>int\<close>.
\<close>

definition max_alloc :: int where "max_alloc = 281474976710656"

text \<open>The bulk payload: \<open>n + 2\<close> bytes, of which the last two must be CR LF; indexing at \<open>n = -2\<close> panics.\<close>

definition read_bulk :: "int \<Rightarrow> string \<Rightarrow> resp_value redis_result \<times> string" where
  "read_bulk n s =
     (let size = wrap64 (n + 2) in
      if size < 0 \<or> max_alloc < size then (Panicked, s)
      else if int (length s) < size then (Failed ReadFailed, [])
      else (let buf = take (nat size) s; rest = drop (nat size) s in
        if n < 0 then (Panicked, rest)
        else if buf ! nat n \<noteq> CHR 0x0D \<or> buf ! nat (n + 1) \<noteq> CHR 0x0A then (Failed Malformed, rest)
        else (Value (RString (take (nat n) buf)), rest)))"

definition read_resp_reply :: "string \<Rightarrow> resp_value redis_result \<times> string" where
  "read_resp_reply s =
     (case s of
        [] \<Rightarrow> (Failed ReadFailed, [])
      | c # s1 \<Rightarrow>
          if c = CHR ''+'' \<or> c = CHR ''-'' \<or> c = CHR '':'' then
            (case read_line s1 of
               None \<Rightarrow> (Failed ReadFailed, [])
             | Some (line, rest) \<Rightarrow>
                 (case line_body line of
                    None \<Rightarrow> (Failed Malformed, rest)
                  | Some body \<Rightarrow>
                      if c = CHR ''-'' then (Failed (ReplyError body), rest)
                      else if c = CHR '':'' then
                        (case parse_int64 body of None \<Rightarrow> (Failed BadInteger, rest) | Some n \<Rightarrow> (Value (RInt n), rest))
                      else (Value (RString body), rest)))
          else if c = CHR ''$'' then
            (case read_line s1 of
               None \<Rightarrow> (Failed ReadFailed, [])
             | Some (line, rest) \<Rightarrow>
                 (case line_body line of
                    None \<Rightarrow> (Failed Malformed, rest)
                  | Some body \<Rightarrow>
                      (case parse_int64 body of
                         None \<Rightarrow> (Failed BadInteger, rest)
                       | Some n \<Rightarrow> if n = -1 then (Value RNil, rest) else read_bulk n rest)))
          else (Failed (UnexpectedReply c), s1))"

section \<open>The client\<close>

record connection =
  cn_in :: string
  cn_writes :: "bool list"
  cn_out :: string

record redis_client =
  rc_addr :: string
  rc_use_tls :: bool
  rc_pwd :: string
  rc_db :: int
  rc_conn :: "connection option"
  rc_retry_at :: int

definition redial_backoff :: int where "redial_backoff = 2000000000"

datatype dial_outcome = NoRoute | NoTls | Dialed connection

text \<open>The clock when \<^verbatim>\<open>connect\<close> is entered and when it records a failure, and what dialing comes to.\<close>

record dial_event =
  de_now :: int
  de_fail_now :: int
  de_dial :: dial_outcome

text \<open>\<^verbatim>\<open>roundTrip\<close> on the current connection.\<close>

definition round_trip :: "string list \<Rightarrow> connection \<Rightarrow> resp_value redis_result \<times> connection" where
  "round_trip args cn =
     (case cn_writes cn of
        False # ws \<Rightarrow> (Failed WriteFailed, cn\<lparr>cn_writes := ws\<rparr>)
      | ws \<Rightarrow>
          (let cn1 = cn\<lparr>cn_writes := tl ws, cn_out := cn_out cn @ write_resp_args args\<rparr>;
               (v, rest) = read_resp_reply (cn_in cn1)
           in (v, cn1\<lparr>cn_in := rest\<rparr>)))"

text \<open>The commands of the handshake: AUTH with a password, SELECT of another database, PING.\<close>

definition handshake_commands :: "redis_client \<Rightarrow> string list list" where
  "handshake_commands r =
     (if rc_pwd r \<noteq> [] then [[''AUTH'', rc_pwd r]] else []) @
     (if rc_db r \<noteq> 0 then [[''SELECT'', format_int (rc_db r)]] else []) @ [[''PING'']]"

text \<open>Run them in order, stopping at the first failure (\<open>Value RNil\<close> is success).\<close>

fun handshake :: "string list list \<Rightarrow> connection \<Rightarrow> resp_value redis_result \<times> connection" where
  "handshake [] cn = (Value RNil, cn)"
| "handshake (cmd # cmds) cn =
     (case round_trip cmd cn of
        (Value _, cn1) \<Rightarrow> handshake cmds cn1
      | (r, cn1) \<Rightarrow> (r, cn1))"

definition dial_and_handshake :: "dial_event \<Rightarrow> redis_client \<Rightarrow> resp_value redis_result \<times> redis_client" where
  "dial_and_handshake ev r =
     (case de_dial ev of
        NoRoute \<Rightarrow> (Failed DialFailed, r)
      | NoTls \<Rightarrow> (Failed (if rc_use_tls r then TlsFailed else DialFailed), r)
      | Dialed cn \<Rightarrow>
          (let (v, cn1) = handshake (handshake_commands r) cn in (v, r\<lparr>rc_conn := Some cn1\<rparr>)))"

definition drop_conn :: "redis_client \<Rightarrow> redis_client" where
  "drop_conn r = r\<lparr>rc_conn := None\<rparr>"

text \<open>\<^verbatim>\<open>connect\<close>: \<open>Value RNil\<close> is success; a panic skips the clean-up.\<close>

definition redis_connect :: "dial_event \<Rightarrow> redis_client \<Rightarrow> resp_value redis_result \<times> redis_client" where
  "redis_connect ev r =
     (if de_now ev < rc_retry_at r then (Failed Unavailable, r)
      else (case dial_and_handshake ev r of
              (Failed e, r1) \<Rightarrow> (Failed e, (drop_conn r1)\<lparr>rc_retry_at := de_fail_now ev + redial_backoff\<rparr>)
            | (v, r1) \<Rightarrow> (v, r1)))"

definition is_reply_error :: "redis_error \<Rightarrow> bool" where
  "is_reply_error e = (case e of ReplyError _ \<Rightarrow> True | _ \<Rightarrow> False)"

text \<open>The round trip of \<^verbatim>\<open>do\<close>: a failure that is no error reply drops the connection.\<close>

definition redis_exchange :: "string list \<Rightarrow> connection \<Rightarrow> redis_client \<Rightarrow> resp_value redis_result \<times> redis_client" where
  "redis_exchange args cn r =
     (case round_trip args cn of
        (v, cn1) \<Rightarrow>
          (let r1 = r\<lparr>rc_conn := Some cn1\<rparr> in
           case v of Failed e \<Rightarrow> (Failed e, if is_reply_error e then r1 else drop_conn r1) | _ \<Rightarrow> (v, r1)))"

definition redis_do :: "dial_event \<Rightarrow> string list \<Rightarrow> redis_client \<Rightarrow> resp_value redis_result \<times> redis_client" where
  "redis_do ev args r =
     (case rc_conn r of
        Some cn \<Rightarrow> redis_exchange args cn r
      | None \<Rightarrow>
          (case redis_connect ev r of
             (Value _, r1) \<Rightarrow>
               (case rc_conn r1 of Some cn \<Rightarrow> redis_exchange args cn r1 | None \<Rightarrow> (Panicked, r1))
           | (v, r1) \<Rightarrow> (v, r1)))"

section \<open>Commands\<close>

definition redis_incr :: "dial_event \<Rightarrow> string \<Rightarrow> redis_client \<Rightarrow> int redis_result \<times> redis_client" where
  "redis_incr ev key r =
     (case redis_do ev [''INCR'', key] r of
        (Value (RInt n), r1) \<Rightarrow> (Value n, r1)
      | (Value v, r1) \<Rightarrow> (Failed (UnexpectedValue v), r1)
      | (Failed e, r1) \<Rightarrow> (Failed e, r1)
      | (Panicked, r1) \<Rightarrow> (Panicked, r1))"

definition redis_expire :: "dial_event \<Rightarrow> string \<Rightarrow> int \<Rightarrow> redis_client \<Rightarrow> unit redis_result \<times> redis_client" where
  "redis_expire ev key seconds r =
     (case redis_do ev [''EXPIRE'', key, format_int seconds] r of
        (Value (RInt n), r1) \<Rightarrow> (Value (), r1)
      | (Value v, r1) \<Rightarrow> (Failed (UnexpectedValue v), r1)
      | (Failed e, r1) \<Rightarrow> (Failed e, r1)
      | (Panicked, r1) \<Rightarrow> (Panicked, r1))"

text \<open>\<^verbatim>\<open>get\<close>: \<open>Value None\<close> is the cache miss \<^verbatim>\<open>("", false, nil)\<close>.\<close>

definition redis_get :: "dial_event \<Rightarrow> string \<Rightarrow> redis_client \<Rightarrow> string option redis_result \<times> redis_client" where
  "redis_get ev key r =
     (case redis_do ev [''GET'', key] r of
        (Value RNil, r1) \<Rightarrow> (Value None, r1)
      | (Value (RString s), r1) \<Rightarrow> (Value (Some s), r1)
      | (Value v, r1) \<Rightarrow> (Failed (UnexpectedValue v), r1)
      | (Failed e, r1) \<Rightarrow> (Failed e, r1)
      | (Panicked, r1) \<Rightarrow> (Panicked, r1))"

definition redis_set_ex ::
  "dial_event \<Rightarrow> string \<Rightarrow> string \<Rightarrow> int \<Rightarrow> redis_client \<Rightarrow> unit redis_result \<times> redis_client" where
  "redis_set_ex ev key v seconds r =
     (case redis_do ev [''SET'', key, v, ''EX'', format_int seconds] r of
        (Value w, r1) \<Rightarrow> (if w = RString ''OK'' then Value () else Failed (UnexpectedValue w), r1)
      | (Failed e, r1) \<Rightarrow> (Failed e, r1)
      | (Panicked, r1) \<Rightarrow> (Panicked, r1))"

section \<open>Start-up\<close>

text \<open>What the plugin reads of \<^verbatim>\<open>url.Parse\<close>'s result; the parser itself is a parameter.\<close>

record parsed_url =
  pu_scheme :: string
  pu_hostname :: string
  pu_port :: string
  pu_password :: "string option"

datatype url_error = EmptyUrl | BadUrl | MissingHost | UnsupportedScheme string

text \<open>\<^verbatim>\<open>net.JoinHostPort\<close>.\<close>

definition join_host_port :: "string \<Rightarrow> string \<Rightarrow> string" where
  "join_host_port host port =
     (if CHR '':'' \<in> set host then ''['' @ host @ '']:'' @ port else host @ '':'' @ port)"

definition parse_redis_url ::
  "(string \<Rightarrow> parsed_url option) \<Rightarrow> string \<Rightarrow> string \<Rightarrow> url_error + string \<times> bool \<times> string" where
  "parse_redis_url parse_url redis_url password_override =
     (if redis_url = [] then Inl EmptyUrl
      else if \<not> contains redis_url ''://'' then Inr (redis_url, False, password_override)
      else (case parse_url redis_url of
              None \<Rightarrow> Inl BadUrl
            | Some u \<Rightarrow>
                if pu_scheme u = ''redis'' \<or> pu_scheme u = ''rediss'' then
                  (let port = (if pu_port u = [] then ''6379'' else pu_port u);
                       pwd = (if password_override = []
                              then (case pu_password u of None \<Rightarrow> [] | Some p \<Rightarrow> p) else password_override)
                   in if pu_hostname u = [] then Inl MissingHost
                      else Inr (join_host_port (pu_hostname u) port, pu_scheme u = ''rediss'', pwd))
                else Inl (UnsupportedScheme (pu_scheme u))))"

text \<open>Go's zero \<^verbatim>\<open>time.Time\<close>: no back-off has been recorded yet.\<close>

definition never :: int where "never = - 62135596800000000000"

definition dial_redis ::
  "(string \<Rightarrow> parsed_url option) \<Rightarrow> dial_event \<Rightarrow> string \<Rightarrow> string \<Rightarrow> int \<Rightarrow> url_error + redis_client" where
  "dial_redis parse_url ev redis_url password db =
     (case parse_redis_url parse_url redis_url password of
        Inl e \<Rightarrow> Inl e
      | Inr (addr, use_tls, pwd) \<Rightarrow>
          Inr (snd (redis_connect ev \<lparr>rc_addr = addr, rc_use_tls = use_tls, rc_pwd = pwd, rc_db = db,
                                      rc_conn = None, rc_retry_at = never\<rparr>)))"

definition redis_close :: "redis_client \<Rightarrow> redis_client" where
  "redis_close r = drop_conn r"


section \<open>Framing\<close>

lemma read_line_append: "CHR 0x0A \<notin> set l \<Longrightarrow> read_line (l @ CHR 0x0A # rest) = Some (l @ [CHR 0x0A], rest)"
  by (simp add: read_line_def index_byte_append)

lemma line_body_append: "line_body (l @ [CHR 0x0D, CHR 0x0A]) = Some l"
  by (simp add: line_body_def nth_append)

lemma read_line_crlf:
  assumes "CHR 0x0A \<notin> set l"
  shows "read_line (l @ crlf @ rest) = Some (l @ [CHR 0x0D, CHR 0x0A], rest)"
  using read_line_append [of "l @ [CHR 0x0D]" rest] assms by (simp add: crlf_def)

lemma format_int_nat [simp]: "format_int (int n) = format_nat n"
  by (simp add: format_int_def)

lemma format_int_no_newline: "CHR 0x0A \<notin> set (format_int i)"
proof -
  have "CHR 0x0A \<notin> set (format_nat n)" for n
    by (rule format_nat_no_char) (simp add: is_digit_def)
  then show ?thesis by (simp add: format_int_def)
qed

subsection \<open>Commands\<close>

text \<open>A server's reading of a command, as the protocol defines it: a count, then that many bulk strings.\<close>

definition read_header :: "char \<Rightarrow> string \<Rightarrow> (nat \<times> string) option" where
  "read_header c s =
     (case s of
        [] \<Rightarrow> None
      | d # s1 \<Rightarrow>
          if d \<noteq> c then None
          else Option.bind (read_line s1) (\<lambda>(line, rest).
                 Option.bind (line_body line) (\<lambda>body. map_option (\<lambda>n. (n, rest)) (parse_digits body))))"

fun read_bulks :: "nat \<Rightarrow> string \<Rightarrow> (string list \<times> string) option" where
  "read_bulks 0 s = Some ([], s)"
| "read_bulks (Suc k) s =
     (case read_header (CHR ''$'') s of
        None \<Rightarrow> None
      | Some (n, rest) \<Rightarrow>
          if take 2 (drop n rest) \<noteq> crlf then None
          else map_option (\<lambda>(args, r). (take n rest # args, r)) (read_bulks k (drop (n + 2) rest)))"

definition read_command :: "string \<Rightarrow> (string list \<times> string) option" where
  "read_command s = (case read_header (CHR ''*'') s of None \<Rightarrow> None | Some (k, rest) \<Rightarrow> read_bulks k rest)"

lemma read_header_format: "read_header c (c # format_nat n @ crlf @ rest) = Some (n, rest)"
proof -
  have "CHR 0x0A \<notin> set (format_nat n)"
    by (rule format_nat_no_char) (simp add: is_digit_def)
  then show ?thesis
    by (simp add: read_header_def read_line_crlf line_body_append)
qed

lemma read_bulks_format:
  "read_bulks (length args) (concat (map (\<lambda>a. ''$'' @ format_nat (length a) @ crlf @ a @ crlf) args) @ rest) =
     Some (args, rest)"
proof (induction args)
  case (Cons a args)
  then show ?case
    by (simp add: read_header_format) (simp add: crlf_def)
qed simp

text \<open>
  C35: no command injection.  A server reads back exactly the arguments that were sent, whatever bytes
  they hold (CR LF and protocol text included), and what follows the command is untouched.
\<close>

theorem command_roundtrip: "read_command (write_resp_args args @ rest) = Some (args, rest)"
  using read_header_format [of "CHR ''*''" "length args"] read_bulks_format [of args rest]
  by (simp add: read_command_def write_resp_args_def)

subsection \<open>Replies\<close>

text \<open>How a server writes a value (bulk form for strings).\<close>

definition encode_reply :: "resp_value \<Rightarrow> string" where
  "encode_reply v =
     (case v of
        RNil \<Rightarrow> ''$-1'' @ crlf
      | RString s \<Rightarrow> ''$'' @ format_nat (length s) @ crlf @ s @ crlf
      | RInt n \<Rightarrow> '':'' @ format_int n @ crlf)"

definition representable :: "resp_value \<Rightarrow> bool" where
  "representable v =
     (case v of RNil \<Rightarrow> True | RString s \<Rightarrow> int (length s) + 2 \<le> max_alloc
      | RInt n \<Rightarrow> min_int64 \<le> n \<and> n \<le> max_int64)"

lemma parse_int64_format_nat: "int n \<le> max_int64 \<Longrightarrow> parse_int64 (format_nat n) = Some (int n)"
  using parse_int64_format_int [of "int n"] by (simp add: min_int64_def)

lemma read_bulk_format:
  assumes "int (length s) + 2 \<le> max_alloc"
  shows "read_bulk (int (length s)) (s @ crlf @ rest) = (Value (RString s), rest)"
proof -
  have size: "wrap64 (int (length s) + 2) = int (length s) + 2"
    using assms by (intro wrap64_id) (auto simp: min_int64_def max_int64_def max_alloc_def)
  have "nat (int (length s) + 2) = length s + 2" "nat (int (length s) + 1) = length s + 1" by simp_all
  then show ?thesis
    using assms by (simp add: read_bulk_def size Let_def crlf_def nth_append)
qed

text \<open>
  C36: a reply read is the reply sent: every nil, integer and bulk string reply decodes to its value and
  leaves the stream at the next reply.
\<close>

theorem reply_roundtrip:
  assumes "representable v"
  shows "read_resp_reply (encode_reply v @ rest) = (Value v, rest)"
proof (cases v)
  case RNil
  have "CHR 0x0A \<notin> set ''-1''" by simp
  from read_line_crlf [OF this, of rest] have "read_line (''-1'' @ crlf @ rest) = Some (''-1'' @ crlf, rest)"
    by (simp add: crlf_def)
  moreover have "line_body (''-1'' @ crlf) = Some ''-1''"
    using line_body_append [of "''-1''"] by (simp add: crlf_def)
  moreover have "parse_int64 ''-1'' = Some (-1)" by (simp add: go_defs)
  ultimately show ?thesis by (simp add: RNil encode_reply_def read_resp_reply_def)
next
  case (RString s)
  have "CHR 0x0A \<notin> set (format_nat (length s))"
    by (rule format_nat_no_char) (simp add: is_digit_def)
  moreover have "parse_int64 (format_nat (length s)) = Some (int (length s))"
    using assms by (intro parse_int64_format_nat) (simp add: RString representable_def max_alloc_def max_int64_def)
  ultimately show ?thesis
    using assms
    by (simp add: RString encode_reply_def read_resp_reply_def read_line_crlf line_body_append
        read_bulk_format representable_def)
next
  case (RInt n)
  with assms show ?thesis
    by (simp add: encode_reply_def read_resp_reply_def read_line_crlf format_int_no_newline
        line_body_append parse_int64_format_int representable_def)
qed

theorem reply_roundtrip_witness:
  "read_resp_reply (encode_reply (RString ''a'') @ encode_reply (RInt 7)) = (Value (RString ''a''), encode_reply (RInt 7))"
  by (rule reply_roundtrip) (simp add: representable_def max_alloc_def)

text \<open>
  C37: a hostile or desynchronised peer can panic the reader: a bulk header with a length below -1 makes
  it index or allocate with a negative size, for every such length, where an error was meant.
\<close>

theorem negative_bulk_length_panics:
  assumes "n < -1" and "min_int64 \<le> n"
  shows "fst (read_resp_reply (''$'' @ format_int n @ crlf @ rest)) = Panicked"
proof -
  have "parse_int64 (format_int n) = Some n"
    using assms by (intro parse_int64_format_int) (simp_all add: max_int64_def)
  moreover have "wrap64 (n + 2) = n + 2"
    using assms by (intro wrap64_id) (simp_all add: max_int64_def)
  ultimately show ?thesis
    using assms(1)
    by (auto simp: read_resp_reply_def read_line_crlf format_int_no_newline line_body_append read_bulk_def Let_def)
qed

theorem negative_bulk_length_panics_witness:
  "fst (read_resp_reply (''$'' @ format_int (-2) @ crlf @ [])) = Panicked"
  by (rule negative_bulk_length_panics) (simp_all add: min_int64_def)


section \<open>The connection\<close>

lemma redis_connect_cases:
  "redis_connect ev r = (v, r1) \<Longrightarrow>
     (de_now ev < rc_retry_at r \<and> v = Failed Unavailable \<and> r1 = r) \<or>
     (rc_retry_at r \<le> de_now ev \<and>
       (case v of
          Failed e \<Rightarrow> rc_conn r1 = None \<and> rc_retry_at r1 = de_fail_now ev + redial_backoff
        | _ \<Rightarrow> rc_conn r1 \<noteq> None \<and> rc_retry_at r1 = rc_retry_at r))"
  by (auto simp: redis_connect_def dial_and_handshake_def drop_conn_def Let_def
      split: if_splits redis_result.splits dial_outcome.splits prod.splits)

lemma redis_exchange_retry [simp]: "rc_retry_at (snd (redis_exchange args cn r)) = rc_retry_at r"
  by (simp add: redis_exchange_def drop_conn_def Let_def split: prod.split redis_result.split)

lemma redis_exchange_conn:
  "redis_exchange args cn r = (v, r1) \<Longrightarrow>
     (rc_conn r1 = None \<longleftrightarrow> (\<exists>e. v = Failed e \<and> \<not> is_reply_error e))"
  by (auto simp: redis_exchange_def drop_conn_def Let_def split: prod.splits redis_result.splits if_splits)

text \<open>
  a connection is kept only while it is in step.  After a command on an open connection it is closed
  exactly when the outcome is a failure other than an error reply; an error reply, which leaves the
  stream at the next reply, keeps it.
\<close>

theorem connection_dropped_iff_io_error:
  assumes "rc_conn r = Some cn" and "redis_do ev args r = (v, r1)"
  shows "rc_conn r1 = None \<longleftrightarrow> (\<exists>e. v = Failed e \<and> \<not> is_reply_error e)"
  using assms by (intro redis_exchange_conn) (simp add: redis_do_def)

theorem connection_dropped_iff_io_error_witness:
  "let cn = \<lparr>cn_in = ''-ERR x'' @ crlf, cn_writes = [], cn_out = []\<rparr>;
       r = \<lparr>rc_addr = ''h:1'', rc_use_tls = False, rc_pwd = [], rc_db = 0, rc_conn = Some cn, rc_retry_at = never\<rparr>;
       ev = \<lparr>de_now = 0, de_fail_now = 0, de_dial = NoRoute\<rparr>
   in rc_conn (snd (redis_do ev [''PING''] r)) = None \<longleftrightarrow>
      (\<exists>e. fst (redis_do ev [''PING''] r) = Failed e \<and> \<not> is_reply_error e)"
  unfolding Let_def
  by (rule connection_dropped_iff_io_error [OF _ prod.collapse [symmetric]]) simp

text \<open>
  without a connection and within the back-off, a command fails at once: no dial is made (the
  outcome of a dial is irrelevant), nothing is written and the client is unchanged.
\<close>

theorem no_dial_within_backoff:
  assumes "rc_conn r = None" and "de_now ev < rc_retry_at r"
  shows "redis_do ev args r = (Failed Unavailable, r)"
  using assms by (simp add: redis_do_def redis_connect_def)

theorem no_dial_within_backoff_witness:
  "let r = \<lparr>rc_addr = ''h:1'', rc_use_tls = False, rc_pwd = [], rc_db = 0, rc_conn = None, rc_retry_at = 10\<rparr>
   in redis_do \<lparr>de_now = 9, de_fail_now = 9, de_dial = NoRoute\<rparr> [''PING''] r = (Failed Unavailable, r)"
  unfolding Let_def by (rule no_dial_within_backoff) simp_all

text \<open>The dials a sequence of commands makes while Redis is unreachable.\<close>

definition dials :: "dial_event \<Rightarrow> redis_client \<Rightarrow> bool" where
  "dials ev r \<longleftrightarrow> rc_conn r = None \<and> rc_retry_at r \<le> de_now ev"

fun outage_dials :: "(dial_event \<times> string list) list \<Rightarrow> redis_client \<Rightarrow> int list" where
  "outage_dials [] r = []"
| "outage_dials ((ev, args) # cmds) r =
     (if dials ev r then de_now ev # outage_dials cmds (snd (redis_do ev args r))
      else outage_dials cmds (snd (redis_do ev args r)))"

definition unreachable_at :: "dial_event \<times> string list \<Rightarrow> bool" where
  "unreachable_at c \<longleftrightarrow> de_dial (fst c) = NoRoute \<and> de_now (fst c) \<le> de_fail_now (fst c)"

lemma unreachable_do:
  assumes "de_dial ev = NoRoute" and "rc_conn r = None"
  shows "rc_conn (snd (redis_do ev args r)) = None \<and>
    rc_retry_at (snd (redis_do ev args r)) =
      (if dials ev r then de_fail_now ev + redial_backoff else rc_retry_at r)"
  using assms by (auto simp: redis_do_def redis_connect_def dial_and_handshake_def drop_conn_def dials_def)

lemma outage_dials_spaced:
  assumes "rc_conn r = None" and "list_all unreachable_at cmds"
  shows "sorted_wrt (\<lambda>s t. s + redial_backoff \<le> t) (outage_dials cmds r) \<and>
    (\<forall>t \<in> set (outage_dials cmds r). rc_retry_at r \<le> t)"
  using assms
proof (induction cmds arbitrary: r)
  case (Cons c cmds)
  obtain ev args where c: "c = (ev, args)" by (cases c)
  from Cons.prems have ev: "de_dial ev = NoRoute" "de_now ev \<le> de_fail_now ev"
    by (simp_all add: c unreachable_at_def)
  let ?r = "snd (redis_do ev args r)"
  note u = unreachable_do [OF ev(1) Cons.prems(1), of args]
  have ih: "sorted_wrt (\<lambda>s t. s + redial_backoff \<le> t) (outage_dials cmds ?r) \<and>
      (\<forall>t \<in> set (outage_dials cmds ?r). rc_retry_at ?r \<le> t)"
    using Cons.prems u by (intro Cons.IH) simp_all
  show ?case
  proof (cases "dials ev r")
    case True
    with u ev(2) have "de_now ev + redial_backoff \<le> rc_retry_at ?r" by simp
    moreover from True have "rc_retry_at r \<le> de_now ev" by (simp add: dials_def)
    moreover have "0 \<le> redial_backoff" by (simp add: redial_backoff_def)
    ultimately show ?thesis using ih True by (fastforce simp: c)
  next
    case False
    with u ih show ?thesis by (simp add: c)
  qed
qed simp

text \<open>
  C38: a Redis outage costs one dial per back-off period, not one per command: however many commands are
  issued while Redis is unreachable, the dials are at least two seconds apart.
\<close>

theorem outage_dials_are_spaced:
  assumes "rc_conn r = None" and "list_all unreachable_at cmds"
  shows "sorted_wrt (\<lambda>s t. s + 2000000000 \<le> t) (outage_dials cmds r)"
  using outage_dials_spaced [OF assms] by (simp add: redial_backoff_def)

theorem outage_dials_are_spaced_witness:
  "let ev = \<lambda>t. (\<lparr>de_now = t, de_fail_now = t, de_dial = NoRoute\<rparr>, [''PING'']);
       r = \<lparr>rc_addr = ''h:1'', rc_use_tls = False, rc_pwd = [], rc_db = 0, rc_conn = None, rc_retry_at = never\<rparr>
   in sorted_wrt (\<lambda>s t. s + 2000000000 \<le> t) (outage_dials [ev 0, ev 5, ev 2000000000] r)"
  unfolding Let_def by (rule outage_dials_are_spaced) (simp_all add: unreachable_at_def)

text \<open>
  the handshake authenticates before anything else: the first connection of a client with a password
  and a database sends AUTH, then SELECT, then PING, and the caller's command only when Redis has
  accepted all three.
\<close>

theorem handshake_order:
  assumes "rc_conn r = None" and "rc_retry_at r \<le> de_now ev"
    and "de_dial ev = Dialed \<lparr>cn_in = reply, cn_writes = [], cn_out = []\<rparr>"
    and "rc_pwd r \<noteq> []" and "rc_db r \<noteq> 0"
    and "redis_do ev args r = (v, r1)" and "rc_conn r1 = Some cn" and "v \<noteq> Panicked"
  shows "cn_out cn = write_resp_args [''AUTH'', rc_pwd r] @ write_resp_args [''SELECT'', format_int (rc_db r)] @
    write_resp_args [''PING''] @ write_resp_args args"
proof -
  have cmds: "handshake_commands r = [[''AUTH'', rc_pwd r], [''SELECT'', format_int (rc_db r)], [''PING'']]"
    using assms(4,5) by (simp add: handshake_commands_def)
  have rt: "round_trip a \<lparr>cn_in = i, cn_writes = [], cn_out = out\<rparr> =
      (fst (read_resp_reply i), \<lparr>cn_in = snd (read_resp_reply i), cn_writes = [], cn_out = out @ write_resp_args a\<rparr>)"
    for a i out
    by (simp add: round_trip_def Let_def split: prod.split)
  show ?thesis
    using assms(1-3,6-8)
    by (auto simp: redis_do_def redis_connect_def dial_and_handshake_def cmds rt redis_exchange_def drop_conn_def
        Let_def split: redis_result.splits if_splits)
qed

theorem handshake_order_witness:
  "let r = \<lparr>rc_addr = ''h:1'', rc_use_tls = False, rc_pwd = ''s'', rc_db = 2, rc_conn = None, rc_retry_at = 0\<rparr>;
       ok = ''+OK'' @ crlf;
       ev = \<lparr>de_now = 0, de_fail_now = 0, de_dial = Dialed \<lparr>cn_in = ok @ ok @ ok @ ok, cn_writes = [], cn_out = []\<rparr>\<rparr>;
       out = write_resp_args [''AUTH'', rc_pwd r] @ write_resp_args [''SELECT'', format_int (rc_db r)] @
         write_resp_args [''PING''] @ write_resp_args [''INCR'', ''k'']
   in cn_out \<lparr>cn_in = [], cn_writes = [], cn_out = out\<rparr> = out"
  unfolding Let_def
proof (rule handshake_order)
  let ?r = "\<lparr>rc_addr = ''h:1'', rc_use_tls = False, rc_pwd = ''s'', rc_db = 2, rc_conn = None, rc_retry_at = 0\<rparr>"
  let ?ok = "''+OK'' @ crlf"
  let ?ev = "\<lparr>de_now = 0, de_fail_now = 0, de_dial = Dialed \<lparr>cn_in = ?ok @ ?ok @ ?ok @ ?ok, cn_writes = [], cn_out = []\<rparr>\<rparr>"
  let ?out = "write_resp_args [''AUTH'', rc_pwd ?r] @ write_resp_args [''SELECT'', format_int (rc_db ?r)] @
         write_resp_args [''PING''] @ write_resp_args [''INCR'', ''k'']"
  have ok: "read_resp_reply (?ok @ rest) = (Value (RString ''OK''), rest)" for rest
    by (simp add: read_resp_reply_def read_line_def line_body_def crlf_def)
  note ok1 = ok [of "[]", simplified]
  show "redis_do ?ev [''INCR'', ''k''] ?r =
      (Value (RString ''OK''), ?r\<lparr>rc_conn := Some \<lparr>cn_in = [], cn_writes = [], cn_out = ?out\<rparr>\<rparr>)"
    by (simp add: redis_do_def redis_connect_def dial_and_handshake_def handshake_commands_def round_trip_def
        redis_exchange_def ok [unfolded append.simps append_assoc] ok1 [unfolded append.simps])
qed simp_all

end
