(* ===== verification/Logger.thy ===== *)
theory Logger
  imports Http Redis_Resp
begin

text \<open>
  \<^verbatim>\<open>logger.go\<close>: log levels, and the functions that decide what of a request or a Redis command may
  appear in a log line.  The verb \<^verbatim>\<open>%q\<close> is the parameter \<open>quote\<close>.
\<close>

section \<open>Levels\<close>

datatype log_level = LevelNone | LevelError | LevelWarn | LevelInfo | LevelDebug

fun level_num :: "log_level \<Rightarrow> int" where
  "level_num LevelNone = -1"
| "level_num LevelError = 0"
| "level_num LevelWarn = 1"
| "level_num LevelInfo = 2"
| "level_num LevelDebug = 3"

instantiation log_level :: linorder
begin

definition less_eq_log_level :: "log_level \<Rightarrow> log_level \<Rightarrow> bool" where
  "less_eq_log_level a b = (level_num a \<le> level_num b)"

definition less_log_level :: "log_level \<Rightarrow> log_level \<Rightarrow> bool" where
  "less_log_level a b = (level_num a < level_num b)"

instance
proof
  fix x y z :: log_level
  have inj: "level_num a = level_num b \<Longrightarrow> a = b" for a b
    by (cases a; cases b) simp_all
  show "x < y \<longleftrightarrow> x \<le> y \<and> \<not> y \<le> x" by (auto simp: less_eq_log_level_def less_log_level_def)
  show "x \<le> x" by (simp add: less_eq_log_level_def)
  show "x \<le> y \<Longrightarrow> y \<le> z \<Longrightarrow> x \<le> z" by (simp add: less_eq_log_level_def)
  show "x \<le> y \<Longrightarrow> y \<le> x \<Longrightarrow> x = y" by (auto simp: less_eq_log_level_def intro: inj)
  show "x \<le> y \<or> y \<le> x" by (auto simp: less_eq_log_level_def)
qed

end

definition parse_log_level :: "(string \<Rightarrow> string) \<Rightarrow> string \<Rightarrow> log_level" where
  "parse_log_level uni s =
     (let l = to_lower uni (trim_space s) in
      if l = ''error'' then LevelError
      else if l = ''warn'' \<or> l = ''warning'' then LevelWarn
      else if l = [] \<or> l = ''info'' then LevelInfo
      else if l = ''debug'' then LevelDebug
      else if l = ''none'' \<or> l = ''off'' \<or> l = ''silent'' then LevelNone
      else LevelInfo)"

text \<open>\<^verbatim>\<open>enabled\<close>: the logger is its level, \<open>None\<close> the nil logger.\<close>

definition log_enabled :: "log_level option \<Rightarrow> log_level \<Rightarrow> bool" where
  "log_enabled l m = (case l of None \<Rightarrow> False | Some lv \<Rightarrow> if lv = LevelNone then False else m \<le> lv)"

definition log_prefix :: "log_level \<Rightarrow> string" where
  "log_prefix m =
     (case m of LevelError \<Rightarrow> ''[gateway-plugin][ERROR] '' | LevelWarn \<Rightarrow> ''[gateway-plugin][WARN] ''
      | LevelInfo \<Rightarrow> ''[gateway-plugin][INFO] '' | LevelDebug \<Rightarrow> ''[gateway-plugin][DEBUG] '' | LevelNone \<Rightarrow> [])"

text \<open>\<^verbatim>\<open>errorf\<close>, \<^verbatim>\<open>warnf\<close>, \<^verbatim>\<open>infof\<close> and \<^verbatim>\<open>debugf\<close>, on the formatted message.\<close>

definition log_at :: "log_level option \<Rightarrow> log_level \<Rightarrow> string \<Rightarrow> string list \<Rightarrow> string list" where
  "log_at l m msg out = (if log_enabled l m then out @ [log_prefix m @ msg] else out)"

section \<open>Formatting\<close>

definition truncate_for_log :: "string \<Rightarrow> nat \<Rightarrow> string" where
  "truncate_for_log s limit =
     (if length s \<le> limit then s
      else take limit s @ '' ... [truncated, total '' @ format_nat (length s) @ '' bytes]'')"

definition redact_auth_header :: "(string \<Rightarrow> string) \<Rightarrow> string \<Rightarrow> string" where
  "redact_auth_header uni v =
     (if v = [] then []
      else if has_prefix (to_lower uni (trim_space v)) ''bearer '' then ''Bearer ***''
      else ''***'')"

text \<open>One header line: its values, redacted for \<^verbatim>\<open>Authorization\<close>.\<close>

definition format_header ::
  "(string \<Rightarrow> string) \<Rightarrow> (string \<Rightarrow> string) \<Rightarrow> string \<Rightarrow> string list \<Rightarrow> string" where
  "format_header uni quote n vals =
     join '', '' (map (\<lambda>v. n @ '': '' @
       quote (if canonical_key n = ''Authorization'' then redact_auth_header uni v else v)) vals)"

definition format_request_headers ::
  "(string \<Rightarrow> string) \<Rightarrow> (string \<Rightarrow> string) \<Rightarrow> header \<Rightarrow> string" where
  "format_request_headers uni quote h =
     join ''; '' (map (\<lambda>n. format_header uni quote n (case h n of None \<Rightarrow> [] | Some vs \<Rightarrow> vs))
       (sorted_list_of_set (dom h)))"

definition format_redis_cmd :: "string list \<Rightarrow> string" where
  "format_redis_cmd args =
     (case args of
        [] \<Rightarrow> []
      | [c] \<Rightarrow> c
      | c # a # rest \<Rightarrow> join '' '' (if equal_fold c ''AUTH'' then c # ''***'' # rest else args))"

definition format_redis_result :: "resp_value \<Rightarrow> string" where
  "format_redis_result v =
     (case v of RNil \<Rightarrow> ''<nil>'' | RString s \<Rightarrow> truncate_for_log s 256 | RInt n \<Rightarrow> format_int n)"

section \<open>Properties\<close>

lemma log_enabled_iff: "log_enabled (Some lv) m \<longleftrightarrow> lv \<noteq> LevelNone \<and> m \<le> lv"
  by (simp add: log_enabled_def)

text \<open>
  verbosity is monotone: a line that a less verbose logger writes, a more verbose one writes too, and
  a logger set to \<^verbatim>\<open>none\<close>, \<^verbatim>\<open>off\<close> or \<^verbatim>\<open>silent\<close> writes nothing.
\<close>

theorem log_levels_monotone:
  assumes "a \<le> b" and "log_enabled (Some a) m"
  shows "log_enabled (Some b) m"
  using assms
  by (cases a; cases b) (simp_all add: log_enabled_def less_eq_log_level_def)

theorem log_levels_monotone_witness: "log_enabled (Some LevelDebug) LevelWarn"
  by (rule log_levels_monotone [of LevelInfo]) (simp_all add: log_enabled_def less_eq_log_level_def)

text \<open>
  credentials do not reach the log.  The line for a request depends on the values of its
  \<^verbatim>\<open>Authorization\<close> header only through three fixed masks (empty, \<^verbatim>\<open>Bearer ***\<close>, \<^verbatim>\<open>***\<close>): two requests
  whose other headers agree and whose authorization values redact alike are logged alike.
\<close>

theorem authorization_is_masked:
  assumes "\<And>n. n \<noteq> ''Authorization'' \<Longrightarrow> h n = h' n"
    and "\<And>n. n \<in> dom h \<Longrightarrow> canonical_key n = n"
    and "h ''Authorization'' = Some vs" and "h' ''Authorization'' = Some vs'"
    and "map (redact_auth_header uni) vs = map (redact_auth_header uni) vs'"
  shows "format_request_headers uni quote h = format_request_headers uni quote h' \<and>
    set (map (redact_auth_header uni) vs) \<subseteq> {[], ''Bearer ***'', ''***''}"
proof
  have "h n = None \<longleftrightarrow> h' n = None" for n
    using assms(1) [of n] assms(3,4) by (cases "n = ''Authorization''") simp_all
  then have dom: "dom h = dom h'" by (simp add: dom_def)
  have auth: "canonical_key ''Authorization'' = ''Authorization''"
    using assms(2,3) by blast
  have masked: "format_header uni quote ''Authorization'' ws =
      join '', '' (map (\<lambda>r. ''Authorization'' @ '': '' @ quote r) (map (redact_auth_header uni) ws))" for ws
    by (simp add: format_header_def auth comp_def)
  have "format_header uni quote ''Authorization'' vs = format_header uni quote ''Authorization'' vs'"
    unfolding masked assms(5) ..
  then have "format_header uni quote n (case h n of None \<Rightarrow> [] | Some ws \<Rightarrow> ws) =
      format_header uni quote n (case h' n of None \<Rightarrow> [] | Some ws \<Rightarrow> ws)" for n
    using assms(1) [of n] assms(3,4) by (cases "n = ''Authorization''") simp_all
  then show "format_request_headers uni quote h = format_request_headers uni quote h'"
    unfolding format_request_headers_def dom by simp
  show "set (map (redact_auth_header uni) vs) \<subseteq> {[], ''Bearer ***'', ''***''}"
    by (auto simp: redact_auth_header_def)
qed

theorem authorization_is_masked_witness:
  "format_request_headers id id [''Authorization'' \<mapsto> [''Bearer abc'']] =
     format_request_headers id id [''Authorization'' \<mapsto> [''Bearer xyz'']] \<and>
   set (map (redact_auth_header id) [''Bearer abc'']) \<subseteq> {[], ''Bearer ***'', ''***''}"
  by (rule authorization_is_masked [where vs' = "[''Bearer xyz'']"])
    (simp_all add: redact_auth_header_def canonical_key_def token_byte_def is_digit_def upper_char_def
      lower_char_def of_char_le Let_def to_lower_def is_ascii_def of_char_less trim_space_visible strip_words_step
      trim_space_def space_seqs_def has_prefix_def char_eval)

text \<open>
  the Redis password is never logged: the log line of each command of the handshake is the same
  whatever the password is.
\<close>

theorem redis_password_is_masked:
  assumes "rc_pwd r \<noteq> []" and "p \<noteq> []"
  shows "map format_redis_cmd (handshake_commands r) = map format_redis_cmd (handshake_commands (r\<lparr>rc_pwd := p\<rparr>))"
  using assms by (simp add: handshake_commands_def format_redis_cmd_def)

theorem redis_password_is_masked_witness:
  "let r = \<lparr>rc_addr = ''h:1'', rc_use_tls = False, rc_pwd = ''s3cret'', rc_db = 0, rc_conn = None, rc_retry_at = 0\<rparr>
   in map format_redis_cmd (handshake_commands r) = map format_redis_cmd (handshake_commands (r\<lparr>rc_pwd := ''x''\<rparr>))"
  unfolding Let_def by (rule redis_password_is_masked) simp_all

end
