(* ===== verification/Encoding.thy ===== *)
theory Encoding
  imports Prelude Complex_Main
begin

text \<open>
  \<^verbatim>\<open>base64.RawURLEncoding\<close> (decoder and encoder) and decoded JSON values, the two data formats of a
  bearer token.  The JSON text parser of \<^verbatim>\<open>encoding/json\<close> is a parameter of the model
  (\<open>string \<Rightarrow> json option\<close>); what the plugin does with the decoded value is written out.
\<close>

section \<open>Base64url without padding\<close>

definition b64_val :: "char \<Rightarrow> nat option" where
  "b64_val c =
     (let n = of_char c in
      if CHR ''A'' \<le> c \<and> c \<le> CHR ''Z'' then Some (n - 65)
      else if CHR ''a'' \<le> c \<and> c \<le> CHR ''z'' then Some (n - 71)
      else if is_digit c then Some (n + 4)
      else if c = CHR ''-'' then Some 62
      else if c = CHR ''_'' then Some 63
      else None)"

definition b64_char :: "nat \<Rightarrow> char" where
  "b64_char v =
     (if v < 26 then char_of (v + 65)
      else if v < 52 then char_of (v + 71)
      else if v < 62 then char_of (v - 4)
      else if v = 62 then CHR ''-'' else CHR ''_'')"

text \<open>
  Groups of four sextets; a last group of one sextet is corrupt, one of two or three gives one or two
  bytes and its spare bits are ignored (the encoding is not \<^verbatim>\<open>Strict\<close>).
\<close>

fun b64_groups :: "nat list \<Rightarrow> string option" where
  "b64_groups [] = Some []"
| "b64_groups [a] = None"
| "b64_groups [a, b] = Some [char_of (a * 4 + b div 16)]"
| "b64_groups [a, b, c] = Some [char_of (a * 4 + b div 16), char_of ((b mod 16) * 16 + c div 4)]"
| "b64_groups (a # b # c # d # r) =
     map_option (\<lambda>t. char_of (a * 4 + b div 16) # char_of ((b mod 16) * 16 + c div 4) #
                     char_of ((c mod 4) * 64 + d) # t) (b64_groups r)"

text \<open>\<^verbatim>\<open>DecodeString\<close>: carriage returns and newlines are skipped, any other foreign byte is an error.\<close>

definition b64_decode :: "string \<Rightarrow> string option" where
  "b64_decode s =
     Option.bind (those (map b64_val (filter (\<lambda>c. c \<noteq> CHR 0x0A \<and> c \<noteq> CHR 0x0D) s))) b64_groups"

fun b64_sextets :: "string \<Rightarrow> nat list" where
  "b64_sextets [] = []"
| "b64_sextets [x] = (let n = of_char x in [n div 4, (n mod 4) * 16])"
| "b64_sextets [x, y] =
     (let n = of_char x; m = of_char y in [n div 4, (n mod 4) * 16 + m div 16, (m mod 16) * 4])"
| "b64_sextets (x # y # z # r) =
     (let n = of_char x; m = of_char y; k = of_char z
      in n div 4 # ((n mod 4) * 16 + m div 16) # ((m mod 16) * 4 + k div 64) # (k mod 64) # b64_sextets r)"

text \<open>\<^verbatim>\<open>EncodeToString\<close>, which \<^verbatim>\<open>Token.EncodeSegment\<close> of the token library uses.\<close>

definition b64_encode :: "string \<Rightarrow> string" where
  "b64_encode s = map b64_char (b64_sextets s)"

declare b64_val_def [go_defs] b64_char_def [go_defs] b64_decode_def [go_defs] b64_encode_def [go_defs]

subsection \<open>Round trip\<close>

lemma of_char_256: "of_char (x :: char) < (256 :: nat)"
  using nat_of_char_less_256 .

text \<open>Quotients and remainders of a number written with a two-digit base.\<close>

lemma digits16: "b < (16 :: nat) \<Longrightarrow> (a * 16 + b) div 16 = a \<and> (a * 16 + b) mod 16 = b"
  by simp

lemma digits4: "b < (4 :: nat) \<Longrightarrow> (a * 4 + b) div 4 = a \<and> (a * 4 + b) mod 4 = b"
  by simp

lemma byte_div: "n < (256 :: nat) \<Longrightarrow> n div 16 < 16 \<and> n div 64 < 4 \<and> n div 4 < 64"
  by (simp add: less_mult_imp_div_less)

lemma sextet_bounds:
  "b < (16 :: nat) \<Longrightarrow> n mod 4 * 16 + b < 64"
  "b < (4 :: nat) \<Longrightarrow> n mod 16 * 4 + b < 64"
  using mod_less_divisor [of 4 n] mod_less_divisor [of 16 n] by linarith+

lemma b64_sextets_bound: "v \<in> set (b64_sextets s) \<Longrightarrow> v < 64"
proof (induction s rule: b64_sextets.induct)
  case (2 x)
  then show ?case
    using byte_div [OF of_char_256, of x] sextet_bounds(1) [of 0] by (auto simp: Let_def)
next
  case (3 x y)
  then show ?case
    using byte_div [OF of_char_256, of x] byte_div [OF of_char_256, of y] sextet_bounds(2) [of 0]
    by (auto simp: Let_def intro: sextet_bounds)
next
  case (4 x y z r)
  then show ?case
    using byte_div [OF of_char_256, of x] byte_div [OF of_char_256, of y] byte_div [OF of_char_256, of z]
    by (auto simp: Let_def intro: sextet_bounds)
qed simp

lemma b64_val_char: "v < 64 \<Longrightarrow> b64_val (b64_char v) = Some v"
  by (auto simp: b64_val_def b64_char_def Let_def of_char_le is_digit_def)

lemma b64_char_not_newline: "v < 64 \<Longrightarrow> b64_char v \<noteq> CHR 0x0A \<and> b64_char v \<noteq> CHR 0x0D"
  using b64_val_char [of v] by (auto simp: b64_val_def is_digit_def)

lemma those_map_Some: "(\<And>x. x \<in> set xs \<Longrightarrow> f x = Some (g x)) \<Longrightarrow> those (map f xs) = Some (map g xs)"
  by (induction xs) auto

lemma sextet_join:
  fixes n m k :: nat
  shows "m < 256 \<Longrightarrow> n div 4 * 4 + (n mod 4 * 16 + m div 16) div 16 = n"
    and "m < 256 \<Longrightarrow> k < 256 \<Longrightarrow>
         (n mod 4 * 16 + m div 16) mod 16 * 16 + (m mod 16 * 4 + k div 64) div 4 = m"
    and "k < 256 \<Longrightarrow> (m mod 16 * 4 + k div 64) mod 4 * 64 + k mod 64 = k"
    and "n div 4 * 4 + n mod 4 * 16 div 16 = n"
    and "m < 256 \<Longrightarrow> (n mod 4 * 16 + m div 16) mod 16 * 16 + m mod 16 * 4 div 4 = m"
  by (simp_all add: digits16 digits4 byte_div)

lemma b64_groups_sextets: "b64_groups (b64_sextets s) = Some s"
  by (induction s rule: b64_sextets.induct)
    (simp_all only: b64_sextets.simps b64_groups.simps Let_def sextet_join of_char_256
      char_of_char option.map)

lemma b64_decode_encode: "b64_decode (b64_encode s) = Some s"
proof -
  have "filter (\<lambda>c. c \<noteq> CHR 0x0A \<and> c \<noteq> CHR 0x0D) (b64_encode s) = b64_encode s"
    using b64_char_not_newline b64_sextets_bound by (fastforce simp: b64_encode_def intro: filter_True)
  moreover have "those (map b64_val (b64_encode s)) = Some (b64_sextets s)"
    using those_map_Some [of "b64_sextets s" "b64_val \<circ> b64_char" id] b64_val_char b64_sextets_bound
    by (simp add: b64_encode_def)
  ultimately show ?thesis by (simp add: b64_decode_def b64_groups_sextets)
qed

lemma b64_char_no_dot: "v < 64 \<Longrightarrow> b64_char v \<noteq> CHR ''.''"
  using b64_val_char [of v] by (auto simp: b64_val_def is_digit_def)

lemma b64_encode_no_dot: "CHR ''.'' \<notin> set (b64_encode s)"
  using b64_char_no_dot b64_sextets_bound by (force simp: b64_encode_def)

section \<open>JSON values\<close>

text \<open>
  A value decoded into \<^verbatim>\<open>interface{}\<close>.  Numbers are the rational value of the \<^verbatim>\<open>float64\<close>; an object
  keeps its members in document order, duplicates included.
\<close>

datatype json =
    JNull
  | JBool bool
  | JNum rat
  | JStr string
  | JArr "json list"
  | JObj "(string \<times> json) list"

type_synonym json_object = "(string \<times> json) list"

text \<open>Indexing a \<^verbatim>\<open>map[string]interface{}\<close>: the last duplicate wins.\<close>

definition obj_get :: "json_object \<Rightarrow> string \<Rightarrow> json option" where
  "obj_get m k = map_of (rev m) k"

text \<open>\<^verbatim>\<open>v, _ := x.(string)\<close> and \<^verbatim>\<open>v, _ := x.(bool)\<close>: the zero value on a miss.\<close>

fun as_string :: "json option \<Rightarrow> string" where
  "as_string (Some (JStr s)) = s"
| "as_string _ = []"

fun as_bool :: "json option \<Rightarrow> bool" where
  "as_bool (Some (JBool b)) = b"
| "as_bool _ = False"

declare obj_get_def [go_defs]

text \<open>
  \<^verbatim>\<open>json.Unmarshal\<close> of a document into a struct with the single field \<open>name\<close> of type \<^verbatim>\<open>string\<close>:
  members match the field name under case folding, each match assigns, \<^verbatim>\<open>null\<close> leaves the field, a
  value of another type is an error (\<open>None\<close>), and so is a document that is no object.
\<close>

definition unmarshal_string_field :: "string \<Rightarrow> json \<Rightarrow> string option" where
  "unmarshal_string_field name doc =
     (case doc of
        JObj m \<Rightarrow>
          (let hits = filter (\<lambda>(k, v). equal_fold k name) m
           in if list_all (\<lambda>(k, v). case v of JStr s \<Rightarrow> True | JNull \<Rightarrow> True | _ \<Rightarrow> False) hits
              then Some (foldl (\<lambda>acc (k, v). case v of JStr s \<Rightarrow> s | _ \<Rightarrow> acc) [] hits)
              else None)
      | JNull \<Rightarrow> Some []
      | _ \<Rightarrow> None)"

end
