(* ===== verification/Jwks.thy ===== *)
theory Jwks
  imports Caches Encoding
begin

text \<open>
  \<^verbatim>\<open>jwks.go\<close>: the JWKS client.  \<open>parse_rsa_jwk\<close> turns one published key into an RSA public key,
  \<open>jwks_refresh\<close> fetches a key set (following an OIDC discovery document) and swaps it in only on full
  success, \<open>key_for_kid\<close> answers a lookup and refetches at most once, guarded by a cooldown.
  The HTTP answers and clock readings one call makes are its event \<^verbatim>\<open>jwks_event\<close>.
\<close>

section \<open>Keys\<close>

record rsa_key =
  rsa_n :: nat
  rsa_e :: nat

record jwks_key_json =
  k_kid :: string
  k_kty :: string
  k_alg :: string
  k_use :: string
  k_n :: string
  k_e :: string

record jwks_document =
  doc_keys :: "jwks_key_json list"
  doc_jwks_uri :: string

datatype jwk_error =
    MissingNE
  | BadModulus
  | BadExponent
  | ExponentOutOfRange nat
  | InvalidExponent nat
  | ModulusTooSmall nat

text \<open>Big-endian bytes to a number (\<^verbatim>\<open>big.Int.SetBytes\<close> and the loop \<^verbatim>\<open>e = e<<8 | int(b)\<close>).\<close>

definition bytes_val :: "string \<Rightarrow> nat" where
  "bytes_val bs = foldl (\<lambda>v b. v * 256 + of_char b) 0 bs"

text \<open>\<^verbatim>\<open>big.Int.BitLen\<close>.\<close>

fun bit_len :: "nat \<Rightarrow> nat" where
  "bit_len n = (if n = 0 then 0 else Suc (bit_len (n div 2)))"

declare bit_len.simps [simp del]

definition parse_rsa_jwk :: "jwks_key_json \<Rightarrow> jwk_error + rsa_key" where
  "parse_rsa_jwk k =
     (if k_n k = [] \<or> k_e k = [] then Inl MissingNE
      else case b64_decode (k_n k) of
        None \<Rightarrow> Inl BadModulus
      | Some nb \<Rightarrow> (case b64_decode (k_e k) of
        None \<Rightarrow> Inl BadExponent
      | Some eb \<Rightarrow>
          if length eb = 0 \<or> length eb > 4 then Inl (ExponentOutOfRange (length eb))
          else (let e = bytes_val eb in
            if e < 3 \<or> e mod 2 = 0 then Inl (InvalidExponent e)
            else (let n = bytes_val nb in
              if n = 0 \<or> bit_len n < 1024 then Inl (ModulusTooSmall (bit_len n))
              else Inr \<lparr>rsa_n = n, rsa_e = e\<rparr>))))"

text \<open>The filters of the parse loop: a named RSA signature key for RS256.\<close>

definition usable_key :: "jwks_key_json \<Rightarrow> bool" where
  "usable_key k \<longleftrightarrow>
     \<not> (k_kid k = [] \<or> k_kty k \<noteq> ''RSA'') \<and> \<not> (k_use k \<noteq> [] \<and> k_use k \<noteq> ''sig'') \<and>
     \<not> (k_alg k \<noteq> [] \<and> k_alg k \<noteq> ''RS256'')"

definition add_key :: "jwks_key_json \<Rightarrow> (string \<rightharpoonup> rsa_key) \<Rightarrow> (string \<rightharpoonup> rsa_key)" where
  "add_key k m =
     (if usable_key k then (case parse_rsa_jwk k of Inl _ \<Rightarrow> m | Inr pub \<Rightarrow> m(k_kid k \<mapsto> pub)) else m)"

definition parse_keys :: "jwks_key_json list \<Rightarrow> (string \<rightharpoonup> rsa_key)" where
  "parse_keys ks = fold add_key ks Map.empty"

section \<open>The cache\<close>

record jwks_cache =
  jc_url :: string
  jc_refetch_cooldown :: int
  jc_keys :: "string \<rightharpoonup> rsa_key"
  jc_last_attempt :: int

text \<open>Go's zero \<^verbatim>\<open>time.Time\<close>, in nanoseconds since the Unix epoch.\<close>

definition zero_time :: int where "zero_time = - 62135596800000000000"

definition new_jwks_cache :: "string \<Rightarrow> int \<Rightarrow> jwks_cache" where
  "new_jwks_cache url cooldown =
     \<lparr>jc_url = url, jc_refetch_cooldown = cooldown, jc_keys = Map.empty, jc_last_attempt = zero_time\<rparr>"

text \<open>
  What one call reads from outside: the clock at \<^verbatim>\<open>time.Since(last)\<close>, the clock at the start of
  \<^verbatim>\<open>refresh\<close>, and the answer each URL gives (status 200 and a decodable body of at most 1 MiB, or not).
\<close>

record jwks_event =
  je_now :: int
  je_refresh_now :: int
  je_fetch :: "string \<Rightarrow> jwks_document http_outcome"

datatype jwks_error =
    FetchFailed string
  | JwksUriFetchFailed string
  | NoUsableKeys string

definition fetch_document :: "jwks_event \<Rightarrow> string \<Rightarrow> jwks_error + jwks_document" where
  "fetch_document ev url =
     (case je_fetch ev url of
        Response status body \<Rightarrow>
          if status \<noteq> 200 then Inl (FetchFailed url)
          else (case body of None \<Rightarrow> Inl (FetchFailed url) | Some doc \<Rightarrow> Inr doc)
      | _ \<Rightarrow> Inl (FetchFailed url))"

text \<open>The document that supplies the keys: the configured URL's, or the one its \<^verbatim>\<open>jwks_uri\<close> names.\<close>

definition key_document :: "jwks_event \<Rightarrow> string \<Rightarrow> jwks_error + jwks_document" where
  "key_document ev url =
     (case fetch_document ev url of
        Inl e \<Rightarrow> Inl e
      | Inr doc \<Rightarrow>
          if doc_keys doc = [] \<and> doc_jwks_uri doc \<noteq> [] then
            (case fetch_document ev (doc_jwks_uri doc) of
               Inl e \<Rightarrow> Inl (JwksUriFetchFailed (doc_jwks_uri doc))
             | Inr doc2 \<Rightarrow> Inr doc2)
          else Inr doc)"

text \<open>\<^verbatim>\<open>refresh\<close>: the attempt is recorded first; the key set is replaced only by a non-empty one.\<close>

definition jwks_refresh :: "jwks_event \<Rightarrow> jwks_cache \<Rightarrow> jwks_error option \<times> jwks_cache" where
  "jwks_refresh ev jc =
     (let jc1 = jc\<lparr>jc_last_attempt := je_refresh_now ev\<rparr> in
      case key_document ev (jc_url jc) of
        Inl e \<Rightarrow> (Some e, jc1)
      | Inr doc \<Rightarrow>
          (let parsed = parse_keys (doc_keys doc) in
           if parsed = Map.empty then (Some (NoUsableKeys (jc_url jc)), jc1)
           else (None, jc1\<lparr>jc_keys := parsed\<rparr>)))"

text \<open>The test for an empty key set, computed on the document (maps have no executable equality).\<close>

definition yields_key :: "jwks_key_json \<Rightarrow> bool" where
  "yields_key k \<longleftrightarrow> usable_key k \<and> (case parse_rsa_jwk k of Inl _ \<Rightarrow> False | Inr _ \<Rightarrow> True)"

lemma fold_add_key_empty: "fold add_key ks m = Map.empty \<longleftrightarrow> m = Map.empty \<and> \<not> list_ex yields_key ks"
  by (induction ks arbitrary: m) (auto simp: add_key_def yields_key_def split: sum.splits)

lemma parse_keys_empty: "parse_keys ks = Map.empty \<longleftrightarrow> \<not> list_ex yields_key ks"
  by (simp add: parse_keys_def fold_add_key_empty)

lemma jwks_refresh_code [code]:
  "jwks_refresh ev jc =
     (let jc1 = jc\<lparr>jc_last_attempt := je_refresh_now ev\<rparr> in
      case key_document ev (jc_url jc) of
        Inl e \<Rightarrow> (Some e, jc1)
      | Inr doc \<Rightarrow>
          if list_ex yields_key (doc_keys doc) then (None, jc1\<lparr>jc_keys := parse_keys (doc_keys doc)\<rparr>)
          else (Some (NoUsableKeys (jc_url jc)), jc1))"
  by (simp add: jwks_refresh_def Let_def parse_keys_empty split: sum.split)

text \<open>\<^verbatim>\<open>keyForKid\<close>: \<open>Inl kid\<close> is the error "no JWKS key for kid"; \<open>Inr (Some key)\<close> the key.\<close>

definition key_for_kid :: "jwks_event \<Rightarrow> string \<Rightarrow> jwks_cache \<Rightarrow> (string + rsa_key option) \<times> jwks_cache" where
  "key_for_kid ev kid jc =
     (case jc_keys jc kid of
        Some key \<Rightarrow> (Inr (Some key), jc)
      | None \<Rightarrow>
          if jc_refetch_cooldown jc \<le> je_now ev - jc_last_attempt jc then
            (let jc1 = snd (jwks_refresh ev jc) in
             case jc_keys jc1 kid of
               Some key \<Rightarrow> (Inr (Some key), jc1)
             | None \<Rightarrow> (Inl kid, jc1))
          else (Inl kid, jc))"

text \<open>\<^verbatim>\<open>getSharedJWKSCache\<close>: one cache per URL for the life of the process, warmed on first use.\<close>

definition get_shared_jwks_cache ::
  "string \<Rightarrow> int \<Rightarrow> jwks_event \<Rightarrow> (string \<rightharpoonup> jwks_cache) \<Rightarrow> (string \<rightharpoonup> jwks_cache)" where
  "get_shared_jwks_cache url cooldown ev shared =
     (case shared url of
        Some _ \<Rightarrow> shared
      | None \<Rightarrow> shared(url \<mapsto> snd (jwks_refresh ev (new_jwks_cache url cooldown))))"

text \<open>The ticker period of the background loop, with its guard against a non-positive interval.\<close>

definition jwks_loop_interval :: "int \<Rightarrow> int" where
  "jwks_loop_interval interval = (if interval \<le> 0 then 600000000000 else interval)"

section \<open>Lemmas on keys\<close>

lemma bit_len_le: "bit_len n \<le> k \<longleftrightarrow> n < 2 ^ k"
proof (induction n arbitrary: k rule: bit_len.induct)
  case (1 n)
  show ?case
  proof (cases "n = 0")
    case True
    then show ?thesis by (simp add: bit_len.simps [of 0])
  next
    case False
    show ?thesis
    proof (cases k)
      case 0
      with False show ?thesis by (simp add: bit_len.simps [of n])
    next
      case (Suc j)
      have "n div 2 < 2 ^ j \<longleftrightarrow> n < 2 ^ Suc j" by auto
      with False Suc 1 [OF False, of j] show ?thesis by (simp add: bit_len.simps [of n])
    qed
  qed
qed

lemma bytes_val_bound: "bytes_val bs < 256 ^ length bs"
proof (induction bs rule: rev_induct)
  case (snoc b bs)
  have "bytes_val (bs @ [b]) = bytes_val bs * 256 + of_char b"
    by (simp add: bytes_val_def)
  also have "\<dots> < 256 ^ length bs * 256"
    using snoc of_char_256 [of b] by linarith
  finally show ?case by simp
qed (simp add: bytes_val_def)

text \<open>A key the plugin will verify with: odd exponent from 3 to 2^32 - 1, modulus of at least 1024 bits.\<close>

definition sound_key :: "rsa_key \<Rightarrow> bool" where
  "sound_key key \<longleftrightarrow> odd (rsa_e key) \<and> 3 \<le> rsa_e key \<and> rsa_e key < 2 ^ 32 \<and> 2 ^ 1023 \<le> rsa_n key"

lemma parse_rsa_jwk_Inr:
  assumes "parse_rsa_jwk k = Inr key"
  shows "\<exists>nb eb. b64_decode (k_n k) = Some nb \<and> b64_decode (k_e k) = Some eb \<and> length eb \<le> 4 \<and>
    \<not> bytes_val eb < 3 \<and> odd (bytes_val eb) \<and> \<not> bit_len (bytes_val nb) < 1024 \<and>
    key = \<lparr>rsa_n = bytes_val nb, rsa_e = bytes_val eb\<rparr>"
  using assms by (auto simp: parse_rsa_jwk_def Let_def odd_iff_mod_2_eq_one split: if_splits option.splits)

lemma parse_rsa_jwk_sound:
  assumes "parse_rsa_jwk k = Inr key"
  shows "sound_key key"
proof -
  obtain nb eb where len: "length eb \<le> 4" and e: "\<not> bytes_val eb < 3" "odd (bytes_val eb)"
    and n: "\<not> bit_len (bytes_val nb) < 1024" and key: "key = \<lparr>rsa_n = bytes_val nb, rsa_e = bytes_val eb\<rparr>"
    using parse_rsa_jwk_Inr [OF assms] by blast
  have "bytes_val eb < 256 ^ length eb" by (rule bytes_val_bound)
  also have "\<dots> \<le> 256 ^ 4" using len by (intro power_increasing) auto
  finally have "bytes_val eb < 2 ^ 32" by simp
  moreover have "\<not> bytes_val nb < 2 ^ 1023"
    unfolding bit_len_le [symmetric] using n by linarith
  ultimately show ?thesis using e key by (simp add: sound_key_def not_less)
qed

lemma parse_keys_fold:
  "fold add_key ks m kid = Some key \<Longrightarrow>
     m kid = Some key \<or> (\<exists>k \<in> set ks. usable_key k \<and> k_kid k = kid \<and> parse_rsa_jwk k = Inr key)"
proof (induction ks arbitrary: m)
  case (Cons k ks)
  from Cons.IH [of "add_key k m"] Cons.prems show ?case
    by (auto simp: add_key_def split: if_splits sum.splits)
qed simp

lemma parse_keys_Some:
  "parse_keys ks kid = Some key \<Longrightarrow> \<exists>k \<in> set ks. usable_key k \<and> k_kid k = kid \<and> parse_rsa_jwk k = Inr key"
  using parse_keys_fold [of ks Map.empty kid key] by (simp add: parse_keys_def)

section \<open>The cache is last-known-good\<close>

definition jwks_view :: "jwks_cache \<Rightarrow> (string \<rightharpoonup> rsa_key) option" where
  "jwks_view jc = (if jc_keys jc = Map.empty then None else Some (jc_keys jc))"

text \<open>The key set an attempt on \<open>url\<close> publishes, if any.\<close>

definition published_keys :: "string \<Rightarrow> jwks_event \<Rightarrow> (string \<rightharpoonup> rsa_key) option" where
  "published_keys url ev =
     (case key_document ev url of
        Inl _ \<Rightarrow> None
      | Inr doc \<Rightarrow> if parse_keys (doc_keys doc) = Map.empty then None else Some (parse_keys (doc_keys doc)))"

lemma jwks_refresh_fields [simp]:
  "jc_url (snd (jwks_refresh ev jc)) = jc_url jc"
  "jc_refetch_cooldown (snd (jwks_refresh ev jc)) = jc_refetch_cooldown jc"
  "jc_last_attempt (snd (jwks_refresh ev jc)) = je_refresh_now ev"
  by (simp_all add: jwks_refresh_def Let_def split: sum.splits)

lemma jwks_refresh_keys:
  "jc_keys (snd (jwks_refresh ev jc)) =
     (case published_keys (jc_url jc) ev of None \<Rightarrow> jc_keys jc | Some m \<Rightarrow> m)"
  by (simp add: jwks_refresh_def published_keys_def Let_def split: sum.splits)

lemma published_not_empty: "published_keys url ev = Some m \<Longrightarrow> m \<noteq> Map.empty"
  by (auto simp: published_keys_def split: sum.splits if_splits)

text \<open>Refreshes of the cache of one URL; a cache of another URL is left alone.\<close>

definition refresh_at :: "string \<Rightarrow> jwks_event \<Rightarrow> jwks_cache \<Rightarrow> jwks_cache" where
  "refresh_at url ev jc = snd (jwks_refresh ev (jc\<lparr>jc_url := url\<rparr>))"

interpretation jwks: last_good_cache "refresh_at url" "published_keys url" jwks_view for url
  by unfold_locales
    (auto simp: refresh_at_def jwks_view_def jwks_refresh_keys dest: published_not_empty)

lemma refresh_at_own: "jc_url jc = url \<Longrightarrow> refresh_at url ev jc = snd (jwks_refresh ev jc)"
  by (cases jc) (simp add: refresh_at_def)


section \<open>Lookups\<close>

text \<open>Every cached key is one the plugin will verify with.\<close>

definition sound_cache :: "jwks_cache \<Rightarrow> bool" where
  "sound_cache jc \<longleftrightarrow> (\<forall>kid key. jc_keys jc kid = Some key \<longrightarrow> sound_key key)"

lemma published_sound: "published_keys url ev = Some m \<Longrightarrow> m kid = Some key \<Longrightarrow> sound_key key"
  by (auto simp: published_keys_def split: sum.splits if_splits dest!: parse_keys_Some intro: parse_rsa_jwk_sound)

lemma new_jwks_cache_sound: "sound_cache (new_jwks_cache url cooldown)"
  by (simp add: sound_cache_def new_jwks_cache_def)

lemma jwks_refresh_sound: "sound_cache jc \<Longrightarrow> sound_cache (snd (jwks_refresh ev jc))"
  by (auto simp: sound_cache_def jwks_refresh_keys split: option.splits intro: published_sound)

text \<open>What a lookup can answer: a key of the cache it leaves behind under that very \<^verbatim>\<open>kid\<close>, or the error.\<close>

lemma key_for_kid_cases:
  "key_for_kid ev kid jc =
     (let jc1 = (if jc_keys jc kid = None \<and> jc_refetch_cooldown jc \<le> je_now ev - jc_last_attempt jc
                 then snd (jwks_refresh ev jc) else jc)
      in (case jc_keys jc1 kid of Some key \<Rightarrow> Inr (Some key) | None \<Rightarrow> Inl kid, jc1))"
  by (auto simp: key_for_kid_def Let_def split: option.splits)

lemma key_for_kid_sound: "sound_cache jc \<Longrightarrow> sound_cache (snd (key_for_kid ev kid jc))"
  by (simp add: key_for_kid_cases Let_def jwks_refresh_sound)

lemma key_for_kid_answer:
  "key_for_kid ev kid jc = (r, jc1) \<Longrightarrow>
     r = (case jc_keys jc1 kid of Some key \<Rightarrow> Inr (Some key) | None \<Rightarrow> Inl kid)"
  by (auto simp: key_for_kid_cases Let_def)

text \<open>
  a lookup never hands back a missing key as success, and what it hands back is held by the cache
  under the requested \<^verbatim>\<open>kid\<close>: either it was there before, or the document fetched by this very lookup
  publishes it.
\<close>

theorem key_for_kid_provenance:
  assumes "key_for_kid ev kid jc = (Inr found, jc1)"
  shows "\<exists>key. found = Some key \<and> jc_keys jc1 kid = Some key \<and>
    (jc_keys jc kid = Some key \<or> (\<exists>m. published_keys (jc_url jc) ev = Some m \<and> m kid = Some key))"
proof -
  obtain key where "found = Some key" and "jc_keys jc1 kid = Some key"
    using key_for_kid_answer [OF assms] by (auto split: option.splits)
  moreover from assms have "jc1 = jc \<or> jc1 = snd (jwks_refresh ev jc)"
    by (auto simp: key_for_kid_cases Let_def split: if_splits)
  ultimately show ?thesis by (auto simp: jwks_refresh_keys split: option.splits)
qed

theorem key_for_kid_provenance_witness:
  "let key = \<lparr>rsa_n = 2 ^ 1024, rsa_e = 65537\<rparr>;
       jc = (new_jwks_cache ''u'' 0)\<lparr>jc_keys := [''k'' \<mapsto> key]\<rparr>;
       ev = \<lparr>je_now = 0, je_refresh_now = 0, je_fetch = \<lambda>_. TransportFailed\<rparr>
   in \<exists>found. Some key = Some found \<and> jc_keys jc ''k'' = Some found \<and>
       (jc_keys jc ''k'' = Some found \<or> (\<exists>m. published_keys (jc_url jc) ev = Some m \<and> m ''k'' = Some found))"
  unfolding Let_def
  by (rule key_for_kid_provenance) (simp add: key_for_kid_def)

section \<open>The key provider interface\<close>

text \<open>
  \<^verbatim>\<open>rsaKeyProvider\<close>: what the token validator knows of a key source.  A success without a key is
  possible in the interface (and guarded against by the validator); the law is that a key handed
  out is one the provider trusts for that \<^verbatim>\<open>kid\<close>.
\<close>

locale rsa_key_provider =
  fixes key_for :: "'ev \<Rightarrow> string \<Rightarrow> 's \<Rightarrow> (string + 'k option) \<times> 's"
    and trusted :: "'s \<Rightarrow> 'ev \<Rightarrow> string \<Rightarrow> 'k \<Rightarrow> bool"
  assumes key_trusted: "key_for ev kid st = (Inr (Some key), st1) \<Longrightarrow> trusted st ev kid key"

text \<open>Trusted for a \<^verbatim>\<open>kid\<close>: cached before the lookup, or published by the document it fetched.\<close>

definition jwks_trusted :: "jwks_cache \<Rightarrow> jwks_event \<Rightarrow> string \<Rightarrow> rsa_key \<Rightarrow> bool" where
  "jwks_trusted jc ev kid key \<longleftrightarrow>
     jc_keys jc kid = Some key \<or> (\<exists>m. published_keys (jc_url jc) ev = Some m \<and> m kid = Some key)"

interpretation jwks_keys: rsa_key_provider key_for_kid jwks_trusted
proof
  fix ev kid jc key jc1
  assume "key_for_kid ev kid jc = (Inr (Some key), jc1)"
  then show "jwks_trusted jc ev kid key"
    by (auto simp: jwks_trusted_def key_for_kid_cases Let_def jwks_refresh_keys split: option.splits if_splits)
qed

lemma jwks_trusted_sound: "sound_cache jc \<Longrightarrow> jwks_trusted jc ev kid key \<Longrightarrow> sound_key key"
  by (auto simp: jwks_trusted_def sound_cache_def published_sound)

section \<open>The refetch cooldown\<close>

text \<open>A sequence of lookups, one after the other; the attempts it makes, by the clock of \<^verbatim>\<open>refresh\<close>.\<close>

fun lookups :: "(string \<times> jwks_event) list \<Rightarrow> jwks_cache \<Rightarrow> int list \<times> jwks_cache" where
  "lookups [] jc = ([], jc)"
| "lookups ((kid, ev) # ls) jc =
     (let jc1 = snd (key_for_kid ev kid jc);
          (ts, jc2) = lookups ls jc1
      in (if jc_keys jc kid = None \<and> jc_refetch_cooldown jc \<le> je_now ev - jc_last_attempt jc
          then je_refresh_now ev # ts else ts, jc2))"

lemma lookups_spaced:
  assumes "list_all (\<lambda>(_, ev). je_now ev \<le> je_refresh_now ev) ls"
    and "0 \<le> jc_refetch_cooldown jc"
  shows "sorted_wrt (\<lambda>s t. jc_refetch_cooldown jc \<le> t - s) (jc_last_attempt jc # fst (lookups ls jc))"
  using assms
proof (induction ls arbitrary: jc)
  case Nil
  then show ?case by simp
next
  case (Cons l ls)
  obtain kid ev where l: "l = (kid, ev)" by (cases l)
  let ?fetch = "jc_keys jc kid = None \<and> jc_refetch_cooldown jc \<le> je_now ev - jc_last_attempt jc"
  let ?jc = "snd (key_for_kid ev kid jc)"
  have jc: "?jc = (if ?fetch then snd (jwks_refresh ev jc) else jc)"
    by (simp add: key_for_kid_cases Let_def)
  have ih: "sorted_wrt (\<lambda>s t. jc_refetch_cooldown ?jc \<le> t - s) (jc_last_attempt ?jc # fst (lookups ls ?jc))"
    using Cons.prems by (intro Cons.IH) (auto simp: jc)
  have run: "fst (lookups (l # ls) jc) =
      (if ?fetch then je_refresh_now ev # fst (lookups ls ?jc) else fst (lookups ls ?jc))"
    by (simp add: l Let_def split: prod.splits)
  show ?case
  proof (cases ?fetch)
    case True
    moreover from True Cons.prems(1)
    have "jc_refetch_cooldown jc \<le> je_refresh_now ev - jc_last_attempt jc" by (simp add: l)
    ultimately show ?thesis
      using ih Cons.prems(2) unfolding run jc by fastforce
  next
    case False
    then have "?jc = jc" by (subst jc) (rule if_not_P)
    with ih run False show ?thesis by (simp only: if_False) 
  qed
qed

text \<open>
  C27: one lookup after the other, the on-demand fetches that unknown \<^verbatim>\<open>kid\<close>s provoke are at least the
  cooldown apart, from each other and from the last attempt before them, however many unknown
  \<^verbatim>\<open>kid\<close>s are presented and whatever the endpoint answers.
\<close>

theorem sequential_lookups_respect_cooldown:
  assumes "list_all (\<lambda>(_, ev). je_now ev \<le> je_refresh_now ev) ls"
    and "0 \<le> jc_refetch_cooldown jc"
  shows "sorted_wrt (\<lambda>s t. jc_refetch_cooldown jc \<le> t - s) (jc_last_attempt jc # fst (lookups ls jc))"
  using assms by (rule lookups_spaced)

theorem sequential_lookups_respect_cooldown_witness:
  "let ev = \<lambda>t. \<lparr>je_now = t, je_refresh_now = t, je_fetch = \<lambda>_. TransportFailed\<rparr>;
       jc = (new_jwks_cache ''u'' 10)\<lparr>jc_last_attempt := 0\<rparr>
   in sorted_wrt (\<lambda>s t. 10 \<le> t - s) (0 # fst (lookups [(''a'', ev 4), (''b'', ev 10), (''a'', ev 12)] jc))"
  using sequential_lookups_respect_cooldown
    [of "[(''a'', \<lparr>je_now = 4, je_refresh_now = 4, je_fetch = \<lambda>_. TransportFailed\<rparr>),
          (''b'', \<lparr>je_now = 10, je_refresh_now = 10, je_fetch = \<lambda>_. TransportFailed\<rparr>),
          (''a'', \<lparr>je_now = 12, je_refresh_now = 12, je_fetch = \<lambda>_. TransportFailed\<rparr>)]"
        "(new_jwks_cache ''u'' 10)\<lparr>jc_last_attempt := 0\<rparr>"]
  unfolding Let_def by (simp add: new_jwks_cache_def del: lookups.simps)

section \<open>Concurrent lookups\<close>

text \<open>
  Requests run in parallel and share one cache, which a background loop refreshes.  \<^verbatim>\<open>keyForKid\<close> holds the lock of the cache only to read
  \<^verbatim>\<open>keys\<close> and \<^verbatim>\<open>lastAttempt\<close>, to record an attempt, to swap the key set in and to read again, so those are
  the atomic steps of a lookup (that the lock makes them so, and lets every lookup come to an end, is shown in
  \<open>Jwks_Locks\<close>, where a goroutine may block on it):
  \<open>Ready\<close> (not started), \<open>Stale\<close> (has read a miss past the cooldown), \<open>Fetching\<close> (attempt recorded),
  \<open>Fetched\<close> (fetch over), \<open>Done\<close> with its answer.
\<close>

datatype lookup = Ready string | Stale string | Fetching string | Fetched string | Done string "string + rsa_key option"

record jwks_system =
  sys_cache :: jwks_cache
  sys_lookups :: "lookup list"
  sys_fetches :: nat
  sys_polling :: bool

definition answer :: "jwks_cache \<Rightarrow> string \<Rightarrow> string + rsa_key option" where
  "answer jc kid = (case jc_keys jc kid of Some key \<Rightarrow> Inr (Some key) | None \<Rightarrow> Inl kid)"

text \<open>One atomic step of one lookup, at clock reading \<open>ev\<close>; \<open>None\<close> when it is done.\<close>

fun lookup_step :: "jwks_event \<Rightarrow> jwks_cache \<Rightarrow> lookup \<Rightarrow> (jwks_cache \<times> lookup \<times> nat) option" where
  "lookup_step ev jc (Ready kid) =
     Some (jc, if jc_keys jc kid = None \<and> jc_refetch_cooldown jc \<le> je_now ev - jc_last_attempt jc
               then Stale kid else Done kid (answer jc kid), 0)"
| "lookup_step ev jc (Stale kid) = Some (jc\<lparr>jc_last_attempt := je_refresh_now ev\<rparr>, Fetching kid, 1)"
| "lookup_step ev jc (Fetching kid) =
     Some (case published_keys (jc_url jc) ev of None \<Rightarrow> jc | Some m \<Rightarrow> jc\<lparr>jc_keys := m\<rparr>, Fetched kid, 0)"
| "lookup_step ev jc (Fetched kid) = Some (jc, Done kid (answer jc kid), 0)"
| "lookup_step ev jc (Done kid r) = None"

text \<open>
  One atomic step of the background loop, which refreshes the same cache on every tick: between ticks it
  records an attempt and starts to fetch (\<open>True\<close>), then it swaps the key set in.
\<close>

definition jwks_loop_step :: "jwks_event \<Rightarrow> jwks_cache \<Rightarrow> bool \<Rightarrow> jwks_cache \<times> bool" where
  "jwks_loop_step ev jc polling =
     (if \<not> polling then (jc\<lparr>jc_last_attempt := je_refresh_now ev\<rparr>, True)
      else (case published_keys (jc_url jc) ev of None \<Rightarrow> jc | Some m \<Rightarrow> jc\<lparr>jc_keys := m\<rparr>, False))"

inductive system_step :: "jwks_system \<Rightarrow> jwks_system \<Rightarrow> bool" where
  lookup: "i < length (sys_lookups s) \<Longrightarrow>
   lookup_step ev (sys_cache s) (sys_lookups s ! i) = Some (jc, l, n) \<Longrightarrow>
   system_step s (s\<lparr>sys_cache := jc, sys_lookups := (sys_lookups s)[i := l], sys_fetches := sys_fetches s + n\<rparr>)"
| loop: "jwks_loop_step ev (sys_cache s) (sys_polling s) = (jc, polling) \<Longrightarrow>
   system_step s (s\<lparr>sys_cache := jc, sys_polling := polling\<rparr>)"

inductive_cases system_stepE: "system_step s t"

lemma system_stepI:
  "i < length ls \<Longrightarrow> lookup_step ev jc (ls ! i) = Some (jc1, l, n) \<Longrightarrow>
   system_step \<lparr>sys_cache = jc, sys_lookups = ls, sys_fetches = k, sys_polling = p\<rparr>
     \<lparr>sys_cache = jc1, sys_lookups = ls[i := l], sys_fetches = k + n, sys_polling = p\<rparr>"
  using system_step.lookup [of i "\<lparr>sys_cache = jc, sys_lookups = ls, sys_fetches = k, sys_polling = p\<rparr>"] by simp

definition start :: "jwks_cache \<Rightarrow> string list \<Rightarrow> jwks_system" where
  "start jc kids = \<lparr>sys_cache = jc, sys_lookups = map Ready kids, sys_fetches = 0, sys_polling = False\<rparr>"

text \<open>A lookup that runs alone is \<open>key_for_kid\<close>.\<close>

fun run_lookup :: "nat \<Rightarrow> jwks_event \<Rightarrow> jwks_cache \<Rightarrow> lookup \<Rightarrow> jwks_cache \<times> lookup" where
  "run_lookup 0 ev jc l = (jc, l)"
| "run_lookup (Suc n) ev jc l =
     (case lookup_step ev jc l of None \<Rightarrow> (jc, l) | Some (jc1, l1, _) \<Rightarrow> run_lookup n ev jc1 l1)"

text \<open>
  the atomic steps refine the sequential lookup: run to the end without interference (four steps
  are enough), they leave the cache and give the answer of \<open>keyForKid\<close>.
\<close>

theorem lookup_steps_refine_key_for_kid:
  "run_lookup 4 ev jc (Ready kid) = (snd (key_for_kid ev kid jc), Done kid (fst (key_for_kid ev kid jc)))"
proof -
  have refresh: "snd (jwks_refresh ev jc) =
      (case published_keys (jc_url jc) ev of None \<Rightarrow> jc\<lparr>jc_last_attempt := je_refresh_now ev\<rparr>
       | Some m \<Rightarrow> jc\<lparr>jc_last_attempt := je_refresh_now ev, jc_keys := m\<rparr>)"
    by (auto simp: jwks_refresh_def published_keys_def Let_def split: sum.splits)
  show ?thesis
    by (auto simp: eval_nat_numeral key_for_kid_cases Let_def answer_def refresh split: option.splits)
qed

subsection \<open>Invariants\<close>

definition weight :: "lookup \<Rightarrow> nat" where
  "weight l = (case l of Ready _ \<Rightarrow> 1 | Stale _ \<Rightarrow> 1 | _ \<Rightarrow> 0)"

definition answered_soundly :: "lookup \<Rightarrow> bool" where
  "answered_soundly l =
     (case l of Done kid (Inr None) \<Rightarrow> False | Done kid (Inr (Some key)) \<Rightarrow> sound_key key | _ \<Rightarrow> True)"

definition system_inv :: "nat \<Rightarrow> jwks_system \<Rightarrow> bool" where
  "system_inv n s \<longleftrightarrow> sound_cache (sys_cache s) \<and> list_all answered_soundly (sys_lookups s) \<and>
     sys_fetches s + sum_list (map weight (sys_lookups s)) \<le> n"

lemma answer_sound: "sound_cache jc \<Longrightarrow> answered_soundly (Done kid (answer jc kid))"
  by (auto simp: answered_soundly_def answer_def sound_cache_def split: option.splits)

lemma lookup_step_sound:
  "lookup_step ev jc l = Some (jc1, l1, n) \<Longrightarrow> sound_cache jc \<Longrightarrow>
     sound_cache jc1 \<and> answered_soundly l1 \<and> n + weight l1 \<le> weight l"
  by (cases "(ev, jc, l)" rule: lookup_step.cases)
    (auto simp: weight_def answer_sound answered_soundly_def [of "Stale _"] answered_soundly_def [of "Fetching _"]
      answered_soundly_def [of "Fetched _"] sound_cache_def published_sound split: if_splits option.splits)

lemma sum_list_list_update:
  fixes f :: "'a \<Rightarrow> nat"
  shows "i < length xs \<Longrightarrow> sum_list (map f (xs[i := x])) + f (xs ! i) = sum_list (map f xs) + f x"
  by (induction xs arbitrary: i) (auto split: nat.splits)

lemma list_all_update: "list_all P xs \<Longrightarrow> P x \<Longrightarrow> list_all P (xs[i := x])"
  by (auto simp: list_all_iff dest!: set_update_subset_insert [THEN subsetD])

lemma jwks_loop_step_sound:
  "jwks_loop_step ev jc p = (jc1, p1) \<Longrightarrow> sound_cache jc \<Longrightarrow> sound_cache jc1"
  by (auto simp: jwks_loop_step_def sound_cache_def published_sound split: if_splits option.splits)

lemma system_inv_step: "system_step s t \<Longrightarrow> system_inv n s \<Longrightarrow> system_inv n t"
proof (elim system_stepE)
  fix i ev jc l k
  assume inv: "system_inv n s" and i: "i < length (sys_lookups s)"
    and st: "lookup_step ev (sys_cache s) (sys_lookups s ! i) = Some (jc, l, k)"
    and t: "t = s\<lparr>sys_cache := jc, sys_lookups := (sys_lookups s)[i := l], sys_fetches := sys_fetches s + k\<rparr>"
  note * = lookup_step_sound [OF st]
  from sum_list_list_update [OF i, of weight l] inv * show "system_inv n t"
    by (auto simp: t system_inv_def list_all_update)
next
  fix ev jc polling
  assume "system_inv n s" and "jwks_loop_step ev (sys_cache s) (sys_polling s) = (jc, polling)"
    and "t = s\<lparr>sys_cache := jc, sys_polling := polling\<rparr>"
  then show "system_inv n t" by (auto simp: system_inv_def dest: jwks_loop_step_sound)
qed

lemma system_inv_reachable: "system_step\<^sup>*\<^sup>* s t \<Longrightarrow> system_inv n s \<Longrightarrow> system_inv n t"
  by (induction rule: rtranclp_induct) (auto intro: system_inv_step)

lemma system_inv_start: "sound_cache jc \<Longrightarrow> system_inv (length kids) (start jc kids)"
  by (induction kids) (auto simp: system_inv_def start_def answered_soundly_def weight_def)

text \<open>
  C20: under every interleaving of any number of concurrent lookups and the background refreshes, a
  lookup that is done has either failed or returned a sound RSA key; none returns a missing key, and none is retried: the lookups
  together make at most one fetch each.
\<close>

theorem concurrent_lookups_sound:
  assumes "sound_cache jc" and "system_step\<^sup>*\<^sup>* (start jc kids) s"
  shows "sound_cache (sys_cache s) \<and> list_all answered_soundly (sys_lookups s) \<and> sys_fetches s \<le> length kids"
  using system_inv_reachable [OF assms(2) system_inv_start [OF assms(1)]] by (simp add: system_inv_def)

theorem concurrent_lookups_sound_witness:
  "let s = \<lparr>sys_cache = new_jwks_cache ''u'' 10, sys_lookups = [Ready ''b'', Stale ''a''], sys_fetches = 0 + 0, sys_polling = False\<rparr>
   in sound_cache (sys_cache s) \<and> list_all answered_soundly (sys_lookups s) \<and>
      sys_fetches s \<le> length [''b'', ''a'']"
proof -
  let ?ev = "\<lparr>je_now = 10, je_refresh_now = 10, je_fetch = \<lambda>_. TransportFailed\<rparr>"
  have "system_step (start (new_jwks_cache ''u'' 10) [''b'', ''a''])
      \<lparr>sys_cache = new_jwks_cache ''u'' 10, sys_lookups = [Ready ''b'', Stale ''a''], sys_fetches = 0 + 0, sys_polling = False\<rparr>"
    using system_stepI [of 1 "map Ready [''b'', ''a'']" ?ev "new_jwks_cache ''u'' 10" _ _ 0 0 False]
    by (simp add: start_def new_jwks_cache_def zero_time_def)
  then show ?thesis
    unfolding Let_def
    by (intro concurrent_lookups_sound [OF new_jwks_cache_sound, of "''u''" 10] r_into_rtranclp)
qed

subsection \<open>The cooldown does not hold under concurrency\<close>

lemma all_check:
  assumes "\<And>kid. kid \<in> set kids \<Longrightarrow> jc_keys jc kid = None"
    and "jc_refetch_cooldown jc \<le> now - jc_last_attempt jc"
  shows "system_step\<^sup>*\<^sup>* \<lparr>sys_cache = jc, sys_lookups = pre @ map Ready kids, sys_fetches = k, sys_polling = False\<rparr>
     \<lparr>sys_cache = jc, sys_lookups = pre @ map Stale kids, sys_fetches = k, sys_polling = False\<rparr>"
  using assms(1)
proof (induction kids arbitrary: pre)
  case (Cons kid kids)
  let ?ev = "\<lparr>je_now = now, je_refresh_now = now, je_fetch = \<lambda>_. TransportFailed\<rparr>"
  have "system_step \<lparr>sys_cache = jc, sys_lookups = pre @ map Ready (kid # kids), sys_fetches = k, sys_polling = False\<rparr>
      \<lparr>sys_cache = jc, sys_lookups = (pre @ [Stale kid]) @ map Ready kids, sys_fetches = k, sys_polling = False\<rparr>"
    using system_stepI [of "length pre" "pre @ map Ready (kid # kids)" ?ev jc jc "Stale kid" 0 k False]
      Cons.prems assms(2) by simp
  also have "system_step\<^sup>*\<^sup>* \<dots> \<lparr>sys_cache = jc, sys_lookups = (pre @ [Stale kid]) @ map Stale kids, sys_fetches = k, sys_polling = False\<rparr>"
    using Cons.prems by (intro Cons.IH) simp
  finally show ?case by simp
qed simp

lemma all_fetch:
  "\<exists>jc1. system_step\<^sup>*\<^sup>* \<lparr>sys_cache = jc, sys_lookups = pre @ map Stale kids, sys_fetches = k, sys_polling = False\<rparr>
     \<lparr>sys_cache = jc1, sys_lookups = pre @ map Fetching kids, sys_fetches = k + length kids, sys_polling = False\<rparr> \<and>
     jc1 \<in> {jc, jc\<lparr>jc_last_attempt := now\<rparr>}"
proof (induction kids arbitrary: pre jc k)
  case (Cons kid kids)
  let ?ev = "\<lparr>je_now = now, je_refresh_now = now, je_fetch = \<lambda>_. TransportFailed\<rparr>"
  let ?jc = "jc\<lparr>jc_last_attempt := now\<rparr>"
  have "system_step \<lparr>sys_cache = jc, sys_lookups = pre @ map Stale (kid # kids), sys_fetches = k, sys_polling = False\<rparr>
      \<lparr>sys_cache = ?jc, sys_lookups = (pre @ [Fetching kid]) @ map Stale kids, sys_fetches = k + 1, sys_polling = False\<rparr>"
    using system_stepI [of "length pre" "pre @ map Stale (kid # kids)" ?ev jc ?jc "Fetching kid" 1 k False]
    by simp
  moreover obtain jc1 where "system_step\<^sup>*\<^sup>*
      \<lparr>sys_cache = ?jc, sys_lookups = (pre @ [Fetching kid]) @ map Stale kids, sys_fetches = k + 1, sys_polling = False\<rparr>
      \<lparr>sys_cache = jc1, sys_lookups = (pre @ [Fetching kid]) @ map Fetching kids, sys_fetches = k + 1 + length kids, sys_polling = False\<rparr>"
    and "jc1 \<in> {?jc, ?jc\<lparr>jc_last_attempt := now\<rparr>}"
    using Cons.IH by blast
  ultimately show ?case
    by (intro exI [of _ jc1]) (auto intro: converse_rtranclp_into_rtranclp)
qed auto

text \<open>
  C28: \<^verbatim>\<open>keyForKid\<close> decides to refetch on a copy of \<^verbatim>\<open>lastAttempt\<close> taken before any of its competitors
  records an attempt.  Once the cooldown has passed, any number of concurrent lookups of unknown
  \<^verbatim>\<open>kid\<close>s can therefore all be fetching at one and the same instant: the cooldown bounds the fetches of
  consecutive lookups, not those of concurrent ones.
\<close>

theorem cooldown_stampede:
  assumes "\<And>kid. kid \<in> set kids \<Longrightarrow> jc_keys jc kid = None"
    and "jc_refetch_cooldown jc \<le> now - jc_last_attempt jc"
  shows "\<exists>s. system_step\<^sup>*\<^sup>* (start jc kids) s \<and> sys_lookups s = map Fetching kids \<and>
    sys_fetches s = length kids \<and> jc_last_attempt (sys_cache s) \<in> {now, jc_last_attempt jc}"
proof -
  have "system_step\<^sup>*\<^sup>* (start jc kids) \<lparr>sys_cache = jc, sys_lookups = [] @ map Stale kids, sys_fetches = 0, sys_polling = False\<rparr>"
    using all_check [OF assms(1,2), of kids "[]" 0] by (simp add: start_def)
  moreover obtain jc1 where "system_step\<^sup>*\<^sup>* \<lparr>sys_cache = jc, sys_lookups = [] @ map Stale kids, sys_fetches = 0, sys_polling = False\<rparr>
      \<lparr>sys_cache = jc1, sys_lookups = [] @ map Fetching kids, sys_fetches = 0 + length kids, sys_polling = False\<rparr>"
    and "jc1 \<in> {jc, jc\<lparr>jc_last_attempt := now\<rparr>}"
    using all_fetch by blast
  ultimately show ?thesis by (auto intro: rtranclp_trans)
qed

theorem cooldown_stampede_witness:
  "let jc = (new_jwks_cache ''u'' 10)\<lparr>jc_last_attempt := 0\<rparr>
   in \<exists>s. system_step\<^sup>*\<^sup>* (start jc [''a'', ''b'', ''c'']) s \<and>
       sys_lookups s = map Fetching [''a'', ''b'', ''c''] \<and> sys_fetches s = length [''a'', ''b'', ''c''] \<and>
       jc_last_attempt (sys_cache s) \<in> {10, jc_last_attempt jc}"
  unfolding Let_def
  by (rule cooldown_stampede) (simp_all add: new_jwks_cache_def)

end
