(* ===== verification/Token.thy ===== *)
theory Token
  imports Encoding
begin

text \<open>
  The token library vendored under \<^verbatim>\<open>vendor/github.com/golang-jwt/jwt/v5\<close>: map claims
  (\<^verbatim>\<open>map_claims.go\<close>, \<^verbatim>\<open>types.go\<close>), the claims validator (\<^verbatim>\<open>validator.go\<close>), the registry of signing
  methods and the parser (\<^verbatim>\<open>parser.go\<close>).  Parameters of the model: the JSON parser \<open>unmarshal\<close> and the
  signature check \<open>verify\<close> of package \<^verbatim>\<open>crypto\<close>.  Instants are nanoseconds since the Unix epoch.

  Out of the model: \<^verbatim>\<open>VerificationKeySet\<close> (the plugin's key function returns a single key) and the
  parser's JSON-number, strict and padded decoding options, which the plugin leaves off.
\<close>

section \<open>Map claims\<close>

datatype claim_error =
    InvalidType string
  | TokenExpired
  | TokenUsedBeforeIssued
  | TokenNotValidYet
  | RequiredClaimMissing string
  | InvalidAudience
  | InvalidIssuer
  | InvalidSubject

text \<open>Truncation of a \<^verbatim>\<open>float64\<close> towards zero, and its conversion to \<^verbatim>\<open>int64\<close> (as on amd64 when out of range).\<close>

definition rat_trunc :: "rat \<Rightarrow> int" where
  "rat_trunc x = (if x < 0 then \<lceil>x\<rceil> else \<lfloor>x\<rfloor>)"

definition float_to_int64 :: "rat \<Rightarrow> int" where
  "float_to_int64 x =
     (let t = rat_trunc x in if min_int64 \<le> t \<and> t \<le> max_int64 then t else min_int64)"

text \<open>Seconds between the zero time (year 1) and the Unix epoch.\<close>

definition unix_to_internal :: int where "unix_to_internal = 62135596800"

text \<open>
  \<^verbatim>\<open>newNumericDateFromSeconds\<close>: whole seconds since the epoch.  \<^verbatim>\<open>time.Unix\<close> keeps seconds since
  year 1 in 64 bits, hence the wrap; \<^verbatim>\<open>Truncate(time.Second)\<close> drops the fraction downwards.
\<close>

definition numeric_date_from_seconds :: "rat \<Rightarrow> int" where
  "numeric_date_from_seconds f =
     (let whole = rat_trunc f; nsec = rat_trunc ((f - of_int whole) * 1000000000)
      in wrap64 (float_to_int64 f + nsec div 1000000000 + unix_to_internal) - unix_to_internal)"

definition parse_numeric_date :: "json_object \<Rightarrow> string \<Rightarrow> claim_error + int option" where
  "parse_numeric_date m key =
     (case obj_get m key of
        None \<Rightarrow> Inr None
      | Some (JNum f) \<Rightarrow> if f = 0 then Inr None else Inr (Some (numeric_date_from_seconds f))
      | Some _ \<Rightarrow> Inl (InvalidType key))"

fun all_strings :: "json list \<Rightarrow> string list option" where
  "all_strings [] = Some []"
| "all_strings (JStr s # js) = map_option (\<lambda>r. s # r) (all_strings js)"
| "all_strings (_ # js) = None"

definition parse_claims_string :: "json_object \<Rightarrow> string \<Rightarrow> claim_error + string list" where
  "parse_claims_string m key =
     (case obj_get m key of
        Some (JStr s) \<Rightarrow> Inr [s]
      | Some (JArr js) \<Rightarrow> (case all_strings js of None \<Rightarrow> Inl (InvalidType key) | Some ss \<Rightarrow> Inr ss)
      | _ \<Rightarrow> Inr [])"

definition parse_string :: "json_object \<Rightarrow> string \<Rightarrow> claim_error + string" where
  "parse_string m key =
     (case obj_get m key of
        None \<Rightarrow> Inr []
      | Some (JStr s) \<Rightarrow> Inr s
      | Some _ \<Rightarrow> Inl (InvalidType key))"

section \<open>The claims validator\<close>

record validator =
  v_leeway :: int
  v_require_exp :: bool
  v_verify_iat :: bool
  v_expected_aud :: string
  v_expected_iss :: string
  v_expected_sub :: string

definition default_validator :: validator where
  "default_validator = \<lparr>v_leeway = 0, v_require_exp = False, v_verify_iat = False,
     v_expected_aud = [], v_expected_iss = [], v_expected_sub = []\<rparr>"

definition error_if_false :: "bool \<Rightarrow> claim_error \<Rightarrow> claim_error option" where
  "error_if_false v e = (if v then None else Some e)"

definition error_if_required :: "bool \<Rightarrow> string \<Rightarrow> claim_error option" where
  "error_if_required required claim = (if required then Some (RequiredClaimMissing claim) else None)"

text \<open>A numeric date as an instant in nanoseconds.\<close>

abbreviation instant :: "int \<Rightarrow> int" where
  "instant d \<equiv> d * 1000000000"

definition verify_expires_at :: "validator \<Rightarrow> json_object \<Rightarrow> int \<Rightarrow> bool \<Rightarrow> claim_error option" where
  "verify_expires_at v m now required =
     (case parse_numeric_date m ''exp'' of
        Inl e \<Rightarrow> Some e
      | Inr None \<Rightarrow> error_if_required required ''exp''
      | Inr (Some t) \<Rightarrow> error_if_false (now < instant t + v_leeway v) TokenExpired)"

definition verify_issued_at :: "validator \<Rightarrow> json_object \<Rightarrow> int \<Rightarrow> bool \<Rightarrow> claim_error option" where
  "verify_issued_at v m now required =
     (case parse_numeric_date m ''iat'' of
        Inl e \<Rightarrow> Some e
      | Inr None \<Rightarrow> error_if_required required ''iat''
      | Inr (Some t) \<Rightarrow> error_if_false (\<not> now < instant t - v_leeway v) TokenUsedBeforeIssued)"

definition verify_not_before :: "validator \<Rightarrow> json_object \<Rightarrow> int \<Rightarrow> bool \<Rightarrow> claim_error option" where
  "verify_not_before v m now required =
     (case parse_numeric_date m ''nbf'' of
        Inl e \<Rightarrow> Some e
      | Inr None \<Rightarrow> error_if_required required ''nbf''
      | Inr (Some t) \<Rightarrow> error_if_false (\<not> now < instant t - v_leeway v) TokenNotValidYet)"

definition verify_audience :: "json_object \<Rightarrow> string \<Rightarrow> bool \<Rightarrow> claim_error option" where
  "verify_audience m cmp required =
     (case parse_claims_string m ''aud'' of
        Inl e \<Rightarrow> Some e
      | Inr aud \<Rightarrow>
          if aud = [] then error_if_required required ''aud''
          else if concat aud = [] then error_if_required required ''aud''
          else error_if_false (list_ex (\<lambda>a. a = cmp) aud) InvalidAudience)"

definition verify_issuer :: "json_object \<Rightarrow> string \<Rightarrow> bool \<Rightarrow> claim_error option" where
  "verify_issuer m cmp required =
     (case parse_string m ''iss'' of
        Inl e \<Rightarrow> Some e
      | Inr iss \<Rightarrow> if iss = [] then error_if_required required ''iss''
                   else error_if_false (iss = cmp) InvalidIssuer)"

definition verify_subject :: "json_object \<Rightarrow> string \<Rightarrow> bool \<Rightarrow> claim_error option" where
  "verify_subject m cmp required =
     (case parse_string m ''sub'' of
        Inl e \<Rightarrow> Some e
      | Inr sub \<Rightarrow> if sub = [] then error_if_required required ''sub''
                   else error_if_false (sub = cmp) InvalidSubject)"

text \<open>\<^verbatim>\<open>Validator.Validate\<close>: every check that fails, in the code's order; \<open>[]\<close> is success.\<close>

definition validate :: "validator \<Rightarrow> json_object \<Rightarrow> int \<Rightarrow> claim_error list" where
  "validate v m now =
     List.map_filter id
       [verify_expires_at v m now (v_require_exp v),
        verify_not_before v m now False,
        if v_verify_iat v then verify_issued_at v m now False else None,
        if v_expected_aud v \<noteq> [] then verify_audience m (v_expected_aud v) True else None,
        if v_expected_iss v \<noteq> [] then verify_issuer m (v_expected_iss v) True else None,
        if v_expected_sub v \<noteq> [] then verify_subject m (v_expected_sub v) True else None]"

section \<open>Signing methods\<close>

text \<open>The Go type behind a registered method; \<^verbatim>\<open>*SigningMethodRSAPSS\<close> is not a \<^verbatim>\<open>*SigningMethodRSA\<close>.\<close>

datatype method_kind = MethodHMAC | MethodRSA | MethodRSAPSS | MethodECDSA | MethodEd25519 | MethodNone

definition signing_methods :: "(string \<times> method_kind) list" where
  "signing_methods =
     [(''HS256'', MethodHMAC), (''HS384'', MethodHMAC), (''HS512'', MethodHMAC),
      (''RS256'', MethodRSA), (''RS384'', MethodRSA), (''RS512'', MethodRSA),
      (''PS256'', MethodRSAPSS), (''PS384'', MethodRSAPSS), (''PS512'', MethodRSAPSS),
      (''ES256'', MethodECDSA), (''ES384'', MethodECDSA), (''ES512'', MethodECDSA),
      (''EdDSA'', MethodEd25519), (''none'', MethodNone)]"

definition get_signing_method :: "string \<Rightarrow> method_kind option" where
  "get_signing_method alg = map_of signing_methods alg"

section \<open>The parser\<close>

text \<open>\<^verbatim>\<open>Token\<close>; \<open>tok_alg\<close> and \<open>tok_kind\<close> stand for \<^verbatim>\<open>Method\<close>.\<close>

record token =
  tok_header :: json_object
  tok_claims :: json_object
  tok_alg :: string
  tok_kind :: method_kind
  tok_signature :: string

datatype 'e jwt_error =
    MalformedSegments
  | MalformedHeaderBase64
  | MalformedHeaderJson
  | MalformedClaimsBase64
  | MalformedClaimsJson
  | MalformedSignatureBase64
  | AlgUnavailable
  | AlgUnspecified
  | SigningMethodInvalid string
  | KeyfuncError 'e
  | SignatureInvalid
  | InvalidClaims "claim_error list"

record parser =
  p_valid_methods :: "string list option"
  p_skip_claims_validation :: bool
  p_validator :: validator

text \<open>\<^verbatim>\<open>json.Unmarshal\<close> of a document into a map: an object, or \<^verbatim>\<open>null\<close> (the empty map).\<close>

fun as_map :: "json \<Rightarrow> json_object option" where
  "as_map (JObj m) = Some m"
| "as_map JNull = Some []"
| "as_map _ = None"

definition parse_unverified ::
  "(string \<Rightarrow> json option) \<Rightarrow> string \<Rightarrow> 'e jwt_error + token \<times> string list" where
  "parse_unverified unmarshal token_string =
     (let parts = split_on (CHR ''.'') token_string in
      if length parts \<noteq> 3 then Inl MalformedSegments
      else (case b64_decode (parts ! 0) of
        None \<Rightarrow> Inl MalformedHeaderBase64
      | Some hb \<Rightarrow> (case Option.bind (unmarshal hb) as_map of
        None \<Rightarrow> Inl MalformedHeaderJson
      | Some hdr \<Rightarrow> (case b64_decode (parts ! 1) of
        None \<Rightarrow> Inl MalformedClaimsBase64
      | Some cb \<Rightarrow> (case Option.bind (unmarshal cb) as_map of
        None \<Rightarrow> Inl MalformedClaimsJson
      | Some claims \<Rightarrow> (case obj_get hdr ''alg'' of
        Some (JStr alg) \<Rightarrow>
          (case get_signing_method alg of
             None \<Rightarrow> Inl AlgUnavailable
           | Some kind \<Rightarrow>
               Inr (\<lparr>tok_header = hdr, tok_claims = claims, tok_alg = alg, tok_kind = kind,
                     tok_signature = []\<rparr>, parts))
      | _ \<Rightarrow> Inl AlgUnspecified))))))"

text \<open>
  \<^verbatim>\<open>ParseWithClaims\<close>.  The key function may change the state \<open>'s\<close> of a key cache; \<open>verify alg text
  signature key\<close> is the signature check of the token's method.
\<close>

definition parse_with_claims ::
  "parser \<Rightarrow> (string \<Rightarrow> json option) \<Rightarrow> (string \<Rightarrow> string \<Rightarrow> string \<Rightarrow> 'k \<Rightarrow> bool) \<Rightarrow>
   (token \<Rightarrow> 's \<Rightarrow> ('e + 'k) \<times> 's) \<Rightarrow> int \<Rightarrow> string \<Rightarrow> 's \<Rightarrow> ('e jwt_error + token) \<times> 's" where
  "parse_with_claims p unmarshal verify keyfunc now token_string st =
     (case parse_unverified unmarshal token_string of
        Inl e \<Rightarrow> (Inl e, st)
      | Inr (tok, parts) \<Rightarrow>
          if (case p_valid_methods p of None \<Rightarrow> False | Some ms \<Rightarrow> \<not> list_ex (\<lambda>m. m = tok_alg tok) ms)
          then (Inl (SigningMethodInvalid (tok_alg tok)), st)
          else (case b64_decode (parts ! 2) of
            None \<Rightarrow> (Inl MalformedSignatureBase64, st)
          | Some sig \<Rightarrow>
              (let tok1 = tok\<lparr>tok_signature := sig\<rparr>; text = join ''.'' (take 2 parts) in
               case keyfunc tok1 st of
                 (Inl e, st1) \<Rightarrow> (Inl (KeyfuncError e), st1)
               | (Inr key, st1) \<Rightarrow>
                   if \<not> verify (tok_alg tok1) text sig key then (Inl SignatureInvalid, st1)
                   else if p_skip_claims_validation p then (Inr tok1, st1)
                   else (let errs = validate (p_validator p) (tok_claims tok1) now in
                         if errs \<noteq> [] then (Inl (InvalidClaims errs), st1) else (Inr tok1, st1)))))"

section \<open>Lemmas\<close>

text \<open>A successful parse has passed every check, on the segments of the token itself.\<close>

lemma parse_unverified_Inr:
  "parse_unverified unmarshal s = Inr (tok, parts) \<Longrightarrow>
     \<exists>h c g hb cb hdr claims.
       parts = [h, c, g] \<and> s = h @ ''.'' @ c @ ''.'' @ g \<and>
       b64_decode h = Some hb \<and> Option.bind (unmarshal hb) as_map = Some hdr \<and>
       b64_decode c = Some cb \<and> Option.bind (unmarshal cb) as_map = Some claims \<and>
       tok_header tok = hdr \<and> tok_claims tok = claims \<and>
       obj_get hdr ''alg'' = Some (JStr (tok_alg tok)) \<and> get_signing_method (tok_alg tok) = Some (tok_kind tok)"
proof -
  assume *: "parse_unverified unmarshal s = Inr (tok, parts)"
  then have "length (split_on (CHR ''.'') s) = 3"
    by (auto simp: parse_unverified_def Let_def split: if_splits)
  then obtain h c g where parts: "split_on (CHR ''.'') s = [h, c, g]"
    by (auto simp: length_Suc_conv numeral_3_eq_3)
  from * have "parts = [h, c, g] \<and> (\<exists>hb cb.
      b64_decode h = Some hb \<and> Option.bind (unmarshal hb) as_map = Some (tok_header tok) \<and>
      b64_decode c = Some cb \<and> Option.bind (unmarshal cb) as_map = Some (tok_claims tok)) \<and>
      obj_get (tok_header tok) ''alg'' = Some (JStr (tok_alg tok)) \<and>
      get_signing_method (tok_alg tok) = Some (tok_kind tok)"
    by (auto simp: parse_unverified_def Let_def parts split: option.splits json.splits)
  moreover have "s = h @ ''.'' @ c @ ''.'' @ g"
    using join_split_on [of "CHR ''.''" s] by (simp add: parts)
  ultimately show ?thesis by blast
qed

text \<open>What a verified token has been checked for.\<close>

definition token_verified ::
  "parser \<Rightarrow> (string \<Rightarrow> json option) \<Rightarrow> (string \<Rightarrow> string \<Rightarrow> string \<Rightarrow> 'k \<Rightarrow> bool) \<Rightarrow> 'k \<Rightarrow> int \<Rightarrow>
   string \<Rightarrow> token \<Rightarrow> bool" where
  "token_verified p unmarshal verify key now s tok \<longleftrightarrow>
     (\<exists>h c g hb cb.
        s = h @ ''.'' @ c @ ''.'' @ g \<and>
        b64_decode h = Some hb \<and> Option.bind (unmarshal hb) as_map = Some (tok_header tok) \<and>
        b64_decode c = Some cb \<and> Option.bind (unmarshal cb) as_map = Some (tok_claims tok) \<and>
        b64_decode g = Some (tok_signature tok) \<and>
        obj_get (tok_header tok) ''alg'' = Some (JStr (tok_alg tok)) \<and>
        get_signing_method (tok_alg tok) = Some (tok_kind tok) \<and>
        (\<forall>ms. p_valid_methods p = Some ms \<longrightarrow> tok_alg tok \<in> set ms) \<and>
        verify (tok_alg tok) (h @ ''.'' @ c) (tok_signature tok) key \<and>
        (p_skip_claims_validation p \<or> validate (p_validator p) (tok_claims tok) now = []))"

lemma parse_with_claims_Inr:
  fixes keyfunc :: "token \<Rightarrow> 's \<Rightarrow> ('e + 'k) \<times> 's"
  assumes "parse_with_claims p unmarshal verify keyfunc now s st = (Inr tok, st')"
  shows "\<exists>key. keyfunc tok st = (Inr key, st') \<and> token_verified p unmarshal verify key now s tok"
proof -
  obtain tok0 parts where u: "(parse_unverified unmarshal s :: 'e jwt_error + _) = Inr (tok0, parts)"
    using assms by (auto simp: parse_with_claims_def split: sum.splits prod.splits)
  obtain h c g hb cb hdr claims where *:
    "parts = [h, c, g]" "s = h @ ''.'' @ c @ ''.'' @ g"
    "b64_decode h = Some hb" "Option.bind (unmarshal hb) as_map = Some hdr"
    "b64_decode c = Some cb" "Option.bind (unmarshal cb) as_map = Some claims"
    "tok_header tok0 = hdr" "tok_claims tok0 = claims"
    "obj_get hdr ''alg'' = Some (JStr (tok_alg tok0))"
    "get_signing_method (tok_alg tok0) = Some (tok_kind tok0)"
    using parse_unverified_Inr [OF u] by blast
  from assms u have tok: "\<exists>sig key. b64_decode g = Some sig \<and> tok = tok0\<lparr>tok_signature := sig\<rparr> \<and>
      keyfunc tok st = (Inr key, st') \<and> verify (tok_alg tok0) (h @ ''.'' @ c) sig key \<and>
      (p_skip_claims_validation p \<or> validate (p_validator p) claims now = []) \<and>
      (\<forall>ms. p_valid_methods p = Some ms \<longrightarrow> tok_alg tok0 \<in> set ms)"
    by (auto simp: parse_with_claims_def Let_def * list_ex_iff
        split: sum.splits prod.splits option.splits if_splits)
  then show ?thesis
    unfolding token_verified_def using * by fastforce
qed

text \<open>A state the key function does not touch is returned as it was.\<close>

lemma parse_with_claims_state:
  "(\<And>tok st. snd (keyfunc tok st) = st) \<Longrightarrow> snd (parse_with_claims p unmarshal verify keyfunc now s st) = st"
  by (auto simp: parse_with_claims_def Let_def split: sum.splits prod.splits option.splits)
    (metis snd_conv)+

lemma validate_Nil:
  "validate v m now = [] \<Longrightarrow>
     verify_expires_at v m now (v_require_exp v) = None \<and> verify_not_before v m now False = None"
  by (simp add: validate_def List.map_filter_def split: if_splits)

lemma verify_expires_at_None:
  "verify_expires_at v m now required = None \<Longrightarrow>
     (case obj_get m ''exp'' of
        None \<Rightarrow> \<not> required
      | Some (JNum f) \<Rightarrow> (f = 0 \<and> \<not> required) \<or> (f \<noteq> 0 \<and> now < instant (numeric_date_from_seconds f) + v_leeway v)
      | Some _ \<Rightarrow> False)"
  by (auto simp: verify_expires_at_def parse_numeric_date_def error_if_false_def error_if_required_def
      split: option.splits json.splits if_splits)

lemma verify_not_before_None:
  "verify_not_before v m now False = None \<Longrightarrow>
     (case obj_get m ''nbf'' of
        None \<Rightarrow> True
      | Some (JNum f) \<Rightarrow> f = 0 \<or> instant (numeric_date_from_seconds f) - v_leeway v \<le> now
      | Some _ \<Rightarrow> False)"
  by (auto simp: verify_not_before_def parse_numeric_date_def error_if_false_def error_if_required_def
      split: option.splits json.splits if_splits)

text \<open>For the integral dates of real tokens the conversion is exact.\<close>

lemma numeric_date_integral:
  assumes "0 \<le> t" and "t < 9000000000000000000"
  shows "numeric_date_from_seconds (of_int t) = t"
proof -
  have "rat_trunc (of_int t) = t" using assms by (simp add: rat_trunc_def)
  moreover have "float_to_int64 (of_int t) = t"
    using assms calculation by (simp add: float_to_int64_def min_int64_def max_int64_def)
  ultimately show ?thesis
    using assms by (simp add: numeric_date_from_seconds_def rat_trunc_def unix_to_internal_def
        wrap64_id min_int64_def max_int64_def)
qed

end
