(* ===== verification/Authz.thy ===== *)
theory Authz
  imports Encoding
begin

text \<open>
  \<^verbatim>\<open>authz.go\<close>: access-policy evaluation.  A registry snapshot publishes policies (named lists of
  allow statements) and bindings (role to policy); \<open>new_policy_index\<close> compiles them,
  \<open>resolve_statements\<close> attaches the statements of a principal's bound roles, \<open>granted\<close> and
  \<open>is_wildcard\<close> decide.  The lemmas compare the compiled evaluator with the documented registry, the union of
  the statements of every policy bound to a role of the caller: it never grants more, and it grants all of it when
  no role is bound to two policies; of two bindings of one role only the last counts.
\<close>

section \<open>Data\<close>

definition perm_authenticated :: string where "perm_authenticated = ''authenticated''"
definition app_wildcard :: string where "app_wildcard = ''*''"
definition app_home :: string where "app_home = ''@home''"

record statement =
  st_actions :: "string list"
  st_apps :: "string list"

record policy =
  pol_name :: string
  pol_statements :: "statement list"

record binding =
  bnd_role :: string
  bnd_policy :: string

record principal =
  pr_subject :: string
  pr_user_id :: string
  pr_home_app :: string
  pr_email :: string
  pr_roles :: "string list"
  pr_statements :: "statement list"
  pr_bound_roles :: "string list"
  pr_policies :: "string list"

text \<open>\<^verbatim>\<open>policyIndex\<close>: policy name to statements, qualified role to policy name.\<close>

record policy_index =
  idx_policies :: "string \<rightharpoonup> statement list"
  idx_role_policy :: "string \<rightharpoonup> string"

section \<open>Matching\<close>

definition match_action :: "string \<Rightarrow> string \<Rightarrow> bool" where
  "match_action pattern perm =
     (if pattern = ''*'' \<or> pattern = perm then True
      else if perm = perm_authenticated then False
      else if has_suffix pattern ''.*'' then has_prefix perm (take (length pattern - 1) pattern)
      else False)"

definition match_app :: "string \<Rightarrow> string \<Rightarrow> string \<Rightarrow> bool" where
  "match_app entry target home =
     (if entry = app_wildcard then True
      else if entry = app_home then home \<noteq> [] \<and> target = home
      else entry = target)"

definition covers_app :: "statement \<Rightarrow> string \<Rightarrow> string \<Rightarrow> bool" where
  "covers_app s target home = list_ex (\<lambda>e. match_app e target home) (st_apps s)"

text \<open>The methods of \<^verbatim>\<open>*principal\<close> take \<open>None\<close> for the nil receiver.\<close>

definition granted :: "principal option \<Rightarrow> string \<Rightarrow> string \<Rightarrow> bool" where
  "granted p perm app =
     (case p of
        None \<Rightarrow> perm = []
      | Some pr \<Rightarrow>
          if perm = [] then True
          else list_ex (\<lambda>s. covers_app s app (pr_home_app pr) \<and>
                            list_ex (\<lambda>a. match_action a perm) (st_actions s)) (pr_statements pr))"

definition is_wildcard :: "principal option \<Rightarrow> string \<Rightarrow> bool" where
  "is_wildcard p app =
     (case p of
        None \<Rightarrow> False
      | Some pr \<Rightarrow>
          list_ex (\<lambda>s. covers_app s app (pr_home_app pr) \<and> list_ex (\<lambda>a. a = ''*'') (st_actions s))
            (pr_statements pr))"

text \<open>The distinct actions granted on one application, sorted (\<^verbatim>\<open>seen\<close> and \<^verbatim>\<open>sort.Strings\<close>).\<close>

definition actions_on :: "principal \<Rightarrow> string \<Rightarrow> string list" where
  "actions_on pr app =
     sort (remdups (concat (map st_actions
       (filter (\<lambda>s. covers_app s app (pr_home_app pr)) (pr_statements pr)))))"

definition permissions_by_app :: "principal option \<Rightarrow> string list \<Rightarrow> (string \<rightharpoonup> string list)" where
  "permissions_by_app p active =
     (case p of
        None \<Rightarrow> Map.empty
      | Some pr \<Rightarrow>
          fold (\<lambda>app out. if actions_on pr app = [] then out else out(app \<mapsto> actions_on pr app))
            active Map.empty)"

section \<open>Compiled policies\<close>

definition new_policy_index :: "policy list \<Rightarrow> binding list \<Rightarrow> policy_index" where
  "new_policy_index policies bindings =
     (let pols = fold (\<lambda>p m. m(pol_name p \<mapsto> pol_statements p)) policies Map.empty;
          roles = fold (\<lambda>b m. if pols (bnd_policy b) = None then m
                              else m(bnd_role b \<mapsto> bnd_policy b)) bindings Map.empty
      in \<lparr>idx_policies = pols, idx_role_policy = roles\<rparr>)"

text \<open>The loop of \<^verbatim>\<open>resolveStatements\<close>: bound roles, distinct policies and statements, in role order.\<close>

fun resolve_roles ::
  "policy_index \<Rightarrow> string list \<Rightarrow> string set \<Rightarrow> string list \<times> string list \<times> statement list" where
  "resolve_roles idx [] seen = ([], [], [])"
| "resolve_roles idx (r # rs) seen =
     (case idx_role_policy idx r of
        None \<Rightarrow> resolve_roles idx rs seen
      | Some name \<Rightarrow>
          if name \<in> seen then
            (let (bs, ps, ss) = resolve_roles idx rs seen in (r # bs, ps, ss))
          else
            (let (bs, ps, ss) = resolve_roles idx rs (insert name seen);
                 here = (case idx_policies idx name of None \<Rightarrow> [] | Some st \<Rightarrow> st)
             in (r # bs, name # ps, here @ ss)))"

definition resolve_statements :: "principal \<Rightarrow> policy_index option \<Rightarrow> principal" where
  "resolve_statements p idx =
     (let p0 = p\<lparr>pr_statements := [], pr_bound_roles := [], pr_policies := []\<rparr>
      in case idx of
           None \<Rightarrow> p0
         | Some i \<Rightarrow>
             (let (bs, ps, ss) = resolve_roles i (pr_roles p) {}
              in p0\<lparr>pr_bound_roles := bs, pr_policies := ps, pr_statements := ss\<rparr>))"

text \<open>The closure \<^verbatim>\<open>add\<close> of \<^verbatim>\<open>qualifyRoles\<close>: non-empty roles, first occurrence only.\<close>

definition add_role :: "string \<Rightarrow> string list \<Rightarrow> string list" where
  "add_role r out = (if r \<noteq> [] \<and> r \<notin> set out then out @ [r] else out)"

definition qualify_roles :: "string \<Rightarrow> string list \<Rightarrow> string list \<Rightarrow> string list" where
  "qualify_roles azp client_roles realm_roles =
     (let out = (if azp \<noteq> [] then fold (\<lambda>r. add_role (azp @ '':'' @ r)) client_roles [] else [])
      in fold add_role realm_roles out)"

text \<open>
  \<^verbatim>\<open>tokenIssuer\<close>: the unverified \<^verbatim>\<open>iss\<close> of a bearer token.  \<open>unmarshal\<close> is the JSON parser.
\<close>

definition token_issuer :: "(string \<Rightarrow> json option) \<Rightarrow> string \<Rightarrow> string" where
  "token_issuer unmarshal auth_header =
     (let parts = split_on (CHR ''.'') (trim_prefix auth_header ''Bearer '')
      in if length parts < 2 then []
         else (case b64_decode (parts ! 1) of
                 None \<Rightarrow> []
               | Some raw \<Rightarrow>
                   (case Option.bind (unmarshal raw) (unmarshal_string_field ''iss'') of
                      None \<Rightarrow> []
                    | Some iss \<Rightarrow> iss)))"

section \<open>Lemmas on matching\<close>

lemma match_action_authenticated:
  "match_action a perm_authenticated \<longleftrightarrow> a = ''*'' \<or> a = perm_authenticated"
  by (auto simp: match_action_def)

lemma match_action_prefix:
  "perm \<noteq> perm_authenticated \<Longrightarrow> match_action (res @ ''.*'') perm \<longleftrightarrow> perm = res @ ''.*'' \<or> prefix (res @ ''.'') perm"
  by (cases res) (auto simp: match_action_def has_suffix_def has_prefix_def suffix_def)

lemma match_action_iff:
  "match_action a perm \<longleftrightarrow>
     a = ''*'' \<or> a = perm \<or>
     (perm \<noteq> perm_authenticated \<and> (\<exists>res. a = res @ ''.*'' \<and> prefix (res @ ''.'') perm))"
proof (cases "perm = perm_authenticated \<or> a = ''*'' \<or> a = perm")
  case True
  then show ?thesis by (auto simp: match_action_authenticated) (auto simp: match_action_def)
next
  case False
  then show ?thesis
    by (auto simp: match_action_def has_suffix_def has_prefix_def suffix_def)
qed

lemma match_app_iff:
  "match_app e target home \<longleftrightarrow>
     e = app_wildcard \<or> (e = app_home \<and> home \<noteq> [] \<and> target = home) \<or> (e \<noteq> app_home \<and> e = target)"
  by (auto simp: match_app_def app_wildcard_def app_home_def)

lemma granted_Some:
  "perm \<noteq> [] \<Longrightarrow> granted (Some pr) perm app \<longleftrightarrow>
     (\<exists>s \<in> set (pr_statements pr). covers_app s app (pr_home_app pr) \<and>
        (\<exists>a \<in> set (st_actions s). match_action a perm))"
  by (auto simp: granted_def list_ex_iff)

lemma is_wildcard_Some:
  "is_wildcard (Some pr) app \<longleftrightarrow>
     (\<exists>s \<in> set (pr_statements pr). covers_app s app (pr_home_app pr) \<and> ''*'' \<in> set (st_actions s))"
  by (auto simp: is_wildcard_def list_ex_iff)

lemma is_wildcard_granted: "is_wildcard p app \<Longrightarrow> granted p perm app"
  by (cases p; cases "perm = []")
    (auto simp: is_wildcard_Some granted_Some match_action_iff,
     auto simp: is_wildcard_def granted_def)

lemma granted_nil [simp]: "granted None perm app \<longleftrightarrow> perm = []" "\<not> is_wildcard None app"
  by (simp_all add: granted_def is_wildcard_def)

section \<open>Lemmas on the compiled index\<close>

abbreviation index_statements :: "policy_index \<Rightarrow> string \<Rightarrow> statement list" where
  "index_statements idx name \<equiv> (case idx_policies idx name of None \<Rightarrow> [] | Some st \<Rightarrow> st)"

text \<open>What the loops make of the policies and bindings of a snapshot: the last of two entries of one name wins.\<close>

definition policy_of :: "policy list \<Rightarrow> string \<rightharpoonup> statement list" where
  "policy_of pols = map_of (rev (map (\<lambda>p. (pol_name p, pol_statements p)) pols))"

definition binding_of :: "policy list \<Rightarrow> binding list \<Rightarrow> string \<rightharpoonup> string" where
  "binding_of pols binds =
     map_of (rev (map (\<lambda>b. (bnd_role b, bnd_policy b))
       (filter (\<lambda>b. bnd_policy b \<in> pol_name ` set pols) binds)))"

lemma policy_of_None: "policy_of pols n = None \<longleftrightarrow> n \<notin> pol_name ` set pols"
  by (simp add: policy_of_def map_of_rev_None image_image)

lemma new_policy_index_eq:
  "idx_policies (new_policy_index pols binds) = policy_of pols"
  "idx_role_policy (new_policy_index pols binds) = binding_of pols binds"
proof -
  have p: "fold (\<lambda>p m. m(pol_name p \<mapsto> pol_statements p)) pols Map.empty = policy_of pols"
    by (simp add: fold_map_upd policy_of_def)
  then show "idx_policies (new_policy_index pols binds) = policy_of pols"
    by (simp add: new_policy_index_def Let_def)
  have "policy_of pols n \<noteq> None \<longleftrightarrow> n \<in> pol_name ` set pols" for n
    by (simp add: policy_of_None)
  then show "idx_role_policy (new_policy_index pols binds) = binding_of pols binds"
    unfolding new_policy_index_def Let_def p fold_skip binding_of_def
    by (simp add: fold_map_upd)
qed

text \<open>No binding of the index dangles.\<close>

lemma binding_of_known: "binding_of pols binds r = Some n \<Longrightarrow> policy_of pols n \<noteq> None"
  by (auto simp: binding_of_def policy_of_None dest!: map_of_rev_Some)

lemma resolve_roles_spec:
  "resolve_roles idx rs seen = (bs, ps, ss) \<Longrightarrow>
     bs = filter (\<lambda>r. idx_role_policy idx r \<noteq> None) rs \<and> distinct ps \<and>
     set ps = {n. \<exists>r \<in> set rs. idx_role_policy idx r = Some n} - seen \<and>
     ss = concat (map (index_statements idx) ps)"
proof (induction idx rs seen arbitrary: bs ps ss rule: resolve_roles.induct)
  case (1 idx seen)
  then show ?case by simp
next
  case (2 idx r rs seen)
  show ?case
  proof (cases "idx_role_policy idx r")
    case None
    with "2.IH"(1) [OF None] "2.prems" show ?thesis by auto
  next
    case (Some name)
    show ?thesis
    proof (cases "name \<in> seen")
      case True
      obtain bs' ps' ss' where r: "resolve_roles idx rs seen = (bs', ps', ss')"
        by (cases "resolve_roles idx rs seen") auto
      from "2.IH"(2) [OF Some True r] "2.prems" Some True r show ?thesis by auto
    next
      case False
      obtain bs' ps' ss' where r: "resolve_roles idx rs (insert name seen) = (bs', ps', ss')"
        by (cases "resolve_roles idx rs (insert name seen)") auto
      from "2.IH"(3) [OF Some False r] "2.prems" Some False r show ?thesis by auto
    qed
  qed
qed

lemma resolve_statements_fields [simp]:
  "pr_roles (resolve_statements p idx) = pr_roles p"
  "pr_home_app (resolve_statements p idx) = pr_home_app p"
  "pr_user_id (resolve_statements p idx) = pr_user_id p"
  "pr_subject (resolve_statements p idx) = pr_subject p"
  by (simp_all add: resolve_statements_def Let_def split: option.splits prod.splits)

lemma resolve_statements_None [simp]:
  "pr_statements (resolve_statements p None) = []"
  "pr_bound_roles (resolve_statements p None) = []"
  by (simp_all add: resolve_statements_def)

lemma resolve_statements_Some:
  "pr_bound_roles (resolve_statements p (Some idx)) =
     filter (\<lambda>r. idx_role_policy idx r \<noteq> None) (pr_roles p)"
  "distinct (pr_policies (resolve_statements p (Some idx)))"
  "set (pr_policies (resolve_statements p (Some idx))) =
     {n. \<exists>r \<in> set (pr_roles p). idx_role_policy idx r = Some n}"
  "pr_statements (resolve_statements p (Some idx)) =
     concat (map (index_statements idx) (pr_policies (resolve_statements p (Some idx))))"
  using resolve_roles_spec [of idx "pr_roles p" "{}"]
  by (simp_all add: resolve_statements_def Let_def split: prod.splits)

lemma resolved_statement_iff:
  "s \<in> set (pr_statements (resolve_statements p (Some idx))) \<longleftrightarrow>
     (\<exists>r \<in> set (pr_roles p). \<exists>n st. idx_role_policy idx r = Some n \<and> idx_policies idx n = Some st \<and> s \<in> set st)"
  by (auto simp: resolve_statements_Some split: option.splits) (metis option.distinct(1) option.sel)+

section \<open>Properties of the evaluator\<close>

text \<open>
  What the compiled index decides, in terms of the maps it is made of: some role of the caller has an (effective)
  binding to a policy whose (effective) statements cover the application with an action granting the permission.
\<close>

definition policy_grants ::
  "policy list \<Rightarrow> binding list \<Rightarrow> string set \<Rightarrow> string \<Rightarrow> string \<Rightarrow> string \<Rightarrow> bool" where
  "policy_grants pols binds roles home perm app \<longleftrightarrow>
     (\<exists>r \<in> roles. \<exists>n st. binding_of pols binds r = Some n \<and> policy_of pols n = Some st \<and>
        (\<exists>s \<in> set st. covers_app s app home \<and> (\<exists>a \<in> set (st_actions s). match_action a perm)))"

lemma granted_declarative:
  assumes "perm \<noteq> []"
  shows "granted (Some (resolve_statements p (Some (new_policy_index pols binds)))) perm app \<longleftrightarrow>
    policy_grants pols binds (set (pr_roles p)) (pr_home_app p) perm app"
  unfolding granted_Some [OF assms] policy_grants_def Bex_def resolved_statement_iff
    new_policy_index_eq resolve_statements_fields
  by blast

text \<open>
  The documented registry, independent of the compiled one: a statement allows a permission on an application when
  one of its \<^verbatim>\<open>apps\<close> is \<^verbatim>\<open>"*"\<close>, \<^verbatim>\<open>"@home"\<close> (the caller's home application) or the application itself, and one of its
  actions is \<^verbatim>\<open>"*"\<close>, the permission itself, or \<^verbatim>\<open>"<res>.*"\<close> for a permission \<^verbatim>\<open>"<res>.<act>"\<close>; a caller has the
  union of the statements of every policy bound to one of its roles.
\<close>

definition statement_allows :: "statement \<Rightarrow> string \<Rightarrow> string \<Rightarrow> string \<Rightarrow> bool" where
  "statement_allows s home perm app \<longleftrightarrow>
     (\<exists>e \<in> set (st_apps s). e = ''*'' \<or> e = ''@home'' \<and> home \<noteq> [] \<and> app = home \<or> e \<noteq> ''@home'' \<and> e = app) \<and>
     (\<exists>a \<in> set (st_actions s). a = ''*'' \<or> a = perm \<or>
        perm \<noteq> ''authenticated'' \<and> (\<exists>res. a = res @ ''.*'' \<and> prefix (res @ ''.'') perm))"

definition union_grants ::
  "policy list \<Rightarrow> binding list \<Rightarrow> string set \<Rightarrow> string \<Rightarrow> string \<Rightarrow> string \<Rightarrow> bool" where
  "union_grants pols binds roles home perm app \<longleftrightarrow>
     (\<exists>b \<in> set binds. bnd_role b \<in> roles \<and>
        (\<exists>p \<in> set pols. pol_name p = bnd_policy b \<and> (\<exists>s \<in> set (pol_statements p). statement_allows s home perm app)))"

lemma statement_allows_code:
  "statement_allows s home perm app \<longleftrightarrow>
     covers_app s app home \<and> (\<exists>a \<in> set (st_actions s). match_action a perm)"
  by (auto simp: statement_allows_def covers_app_def list_ex_iff match_app_iff match_action_iff app_wildcard_def
      app_home_def perm_authenticated_def)

text \<open>No role is bound to two policies, and no name is given to two.\<close>

definition unambiguous :: "policy list \<Rightarrow> binding list \<Rightarrow> bool" where
  "unambiguous pols binds \<longleftrightarrow>
     (\<forall>b \<in> set binds. \<forall>c \<in> set binds. bnd_role b = bnd_role c \<longrightarrow> bnd_policy b = bnd_policy c) \<and>
     (\<forall>p \<in> set pols. \<forall>q \<in> set pols. pol_name p = pol_name q \<longrightarrow> pol_statements p = pol_statements q)"

lemma policy_of_Some: "policy_of pols n = Some st \<Longrightarrow> \<exists>p \<in> set pols. pol_name p = n \<and> pol_statements p = st"
  by (auto simp: policy_of_def dest!: map_of_rev_Some)

lemma binding_of_Some: "binding_of pols binds r = Some n \<Longrightarrow> \<exists>b \<in> set binds. bnd_role b = r \<and> bnd_policy b = n"
  by (auto simp: binding_of_def dest!: map_of_rev_Some)

lemma policy_grants_union:
  assumes "policy_grants pols binds roles home perm app"
  shows "union_grants pols binds roles home perm app"
proof -
  obtain r n st s where r: "r \<in> roles" "binding_of pols binds r = Some n" and st: "policy_of pols n = Some st"
    and s: "s \<in> set st" "statement_allows s home perm app"
    using assms unfolding policy_grants_def statement_allows_code by blast
  obtain b where "b \<in> set binds" "bnd_role b = r" "bnd_policy b = n" using binding_of_Some [OF r(2)] by blast
  moreover obtain p where "p \<in> set pols" "pol_name p = n" "pol_statements p = st" using policy_of_Some [OF st] by blast
  ultimately show ?thesis using r s unfolding union_grants_def by blast
qed

lemma unambiguous_policy_of:
  "unambiguous pols binds \<Longrightarrow> p \<in> set pols \<Longrightarrow> policy_of pols (pol_name p) = Some (pol_statements p)"
  using policy_of_None [of pols "pol_name p"] policy_of_Some [of pols "pol_name p"]
  unfolding unambiguous_def by (metis image_eqI not_Some_eq)

lemma unambiguous_binding_of:
  assumes "unambiguous pols binds" and "b \<in> set binds" and "bnd_policy b \<in> pol_name ` set pols"
  shows "binding_of pols binds (bnd_role b) = Some (bnd_policy b)"
proof -
  have "binding_of pols binds (bnd_role b) \<noteq> None"
    using assms(2,3) by (auto simp: binding_of_def map_of_rev_None image_image intro!: imageI)
  then obtain n where n: "binding_of pols binds (bnd_role b) = Some n" by blast
  from binding_of_Some [OF n] assms(1,2) n show ?thesis unfolding unambiguous_def by metis
qed

lemma union_grants_policy:
  assumes "unambiguous pols binds" and "union_grants pols binds roles home perm app"
  shows "policy_grants pols binds roles home perm app"
proof -
  obtain b p s where b: "b \<in> set binds" "bnd_role b \<in> roles" and p: "p \<in> set pols" "pol_name p = bnd_policy b"
    and s: "s \<in> set (pol_statements p)" "statement_allows s home perm app"
    using assms(2) unfolding union_grants_def by blast
  have "bnd_policy b \<in> pol_name ` set pols" using p by (metis imageI)
  with unambiguous_binding_of [OF assms(1) b(1)] have "binding_of pols binds (bnd_role b) = Some (bnd_policy b)" by blast
  moreover have "policy_of pols (bnd_policy b) = Some (pol_statements p)"
    using unambiguous_policy_of [OF assms(1) p(1)] p(2) by simp
  ultimately show ?thesis
    using b(2) s unfolding policy_grants_def statement_allows_code by blast
qed

text \<open>
  Of the bindings of one role only the last to a known policy counts: a caller with that role alone is judged as if
  the earlier ones were not there.
\<close>

lemma last_binding_wins:
  assumes "bnd_policy b \<in> pol_name ` set pols" and "pr_roles p = [bnd_role b]" and "perm \<noteq> []"
  shows "granted (Some (resolve_statements p (Some (new_policy_index pols (binds @ [b]))))) perm app \<longleftrightarrow>
    granted (Some (resolve_statements p (Some (new_policy_index pols [b])))) perm app"
proof -
  have "binding_of pols (bs @ [b]) (bnd_role b) = Some (bnd_policy b)" for bs
    using assms(1) by (simp add: binding_of_def)
  from this [of binds] this [of "[]"] show ?thesis
    unfolding granted_declarative [OF assms(3)] policy_grants_def assms(2) by simp
qed

text \<open>
  C10: the compiled evaluator (\<open>newPolicyIndex\<close>, \<open>resolveStatements\<close>, \<open>granted\<close>) against the documented registry, the
  union of the statements of every policy bound to a role of the caller (\<open>union_grants\<close>).  It never grants more.  It
  grants all of that when no role is bound to two policies and no policy name is used twice, whatever the
  order of roles, bindings, policies and statements.  Otherwise it may grant less, and order matters: a caller with one
  role is judged by the last of its bindings alone.
\<close>

theorem granted_iff_union_grants:
  assumes "perm \<noteq> []"
  shows "(granted (Some (resolve_statements p (Some (new_policy_index pols binds)))) perm app \<longrightarrow>
      union_grants pols binds (set (pr_roles p)) (pr_home_app p) perm app) \<and>
    (unambiguous pols binds \<longrightarrow>
      (granted (Some (resolve_statements p (Some (new_policy_index pols binds)))) perm app \<longleftrightarrow>
       union_grants pols binds (set (pr_roles p)) (pr_home_app p) perm app)) \<and>
    (\<forall>earlier b. binds = earlier @ [b] \<and> bnd_policy b \<in> pol_name ` set pols \<and> pr_roles p = [bnd_role b] \<longrightarrow>
      granted (Some (resolve_statements p (Some (new_policy_index pols binds)))) perm app =
      granted (Some (resolve_statements p (Some (new_policy_index pols [b])))) perm app)"
proof (intro conjI allI impI)
  show "granted (Some (resolve_statements p (Some (new_policy_index pols binds)))) perm app \<Longrightarrow>
      union_grants pols binds (set (pr_roles p)) (pr_home_app p) perm app"
    unfolding granted_declarative [OF assms] by (rule policy_grants_union)
  show "granted (Some (resolve_statements p (Some (new_policy_index pols binds)))) perm app \<longleftrightarrow>
       union_grants pols binds (set (pr_roles p)) (pr_home_app p) perm app" if "unambiguous pols binds"
    unfolding granted_declarative [OF assms] using policy_grants_union union_grants_policy [OF that] by blast
qed (use last_binding_wins [OF _ _ assms] in blast)

text \<open>
  A policy for the home application; and a role bound first to a reader's and then to an editor's policy, whose
  holder the union lets read and the evaluator does not.
\<close>

theorem granted_iff_union_grants_witness:
  "let home = \<lparr>pol_name = ''home'', pol_statements = [\<lparr>st_actions = [''doc.*''], st_apps = [''@home'']\<rparr>]\<rparr>;
       read = \<lparr>pol_name = ''read'', pol_statements = [\<lparr>st_actions = [''doc.read''], st_apps = [''*'']\<rparr>]\<rparr>;
       edit = \<lparr>pol_name = ''edit'', pol_statements = [\<lparr>st_actions = [''doc.edit''], st_apps = [''*'']\<rparr>]\<rparr>;
       pr = \<lparr>pr_subject = [], pr_user_id = [], pr_home_app = ''a'', pr_email = [], pr_roles = [''r''],
             pr_statements = [], pr_bound_roles = [], pr_policies = []\<rparr>;
       once = new_policy_index [home] [\<lparr>bnd_role = ''r'', bnd_policy = ''home''\<rparr>];
       binds = [\<lparr>bnd_role = ''r'', bnd_policy = ''read''\<rparr>, \<lparr>bnd_role = ''r'', bnd_policy = ''edit''\<rparr>]
   in granted (Some (resolve_statements pr (Some once))) ''doc.read'' ''a'' \<and>
      \<not> granted (Some (resolve_statements pr (Some once))) ''doc.read'' ''b'' \<and>
      union_grants [read, edit] binds (set (pr_roles pr)) (pr_home_app pr) ''doc.read'' ''a'' \<and>
      \<not> granted (Some (resolve_statements pr (Some (new_policy_index [read, edit] binds)))) ''doc.read'' ''a''"
proof -
  let ?home = "\<lparr>pol_name = ''home'', pol_statements = [\<lparr>st_actions = [''doc.*''], st_apps = [''@home'']\<rparr>]\<rparr>"
    and ?read = "\<lparr>pol_name = ''read'', pol_statements = [\<lparr>st_actions = [''doc.read''], st_apps = [''*'']\<rparr>]\<rparr>"
    and ?edit = "\<lparr>pol_name = ''edit'', pol_statements = [\<lparr>st_actions = [''doc.edit''], st_apps = [''*'']\<rparr>]\<rparr>"
    and ?pr = "\<lparr>pr_subject = [], pr_user_id = [], pr_home_app = ''a'', pr_email = [], pr_roles = [''r''],
       pr_statements = [], pr_bound_roles = [], pr_policies = []\<rparr>"
    and ?last = "\<lparr>bnd_role = ''r'', bnd_policy = ''edit''\<rparr>"
  have u: "unambiguous [?home] [\<lparr>bnd_role = ''r'', bnd_policy = ''home''\<rparr>]"
    and v: "unambiguous [?read, ?edit] [?last]" by (simp_all add: unambiguous_def)
  have "granted (Some (resolve_statements ?pr (Some (new_policy_index [?read, ?edit] [\<lparr>bnd_role = ''r'', bnd_policy = ''read''\<rparr>, ?last])))) ''doc.read'' ''a'' =
      granted (Some (resolve_statements ?pr (Some (new_policy_index [?read, ?edit] [?last])))) ''doc.read'' ''a''"
    using granted_iff_union_grants [of "''doc.read''" ?pr "[?read, ?edit]" "[\<lparr>bnd_role = ''r'', bnd_policy = ''read''\<rparr>, ?last]" "''a''"]
    by simp
  moreover have "\<not> granted (Some (resolve_statements ?pr (Some (new_policy_index [?read, ?edit] [?last])))) ''doc.read'' ''a''"
    using granted_iff_union_grants [of "''doc.read''" ?pr "[?read, ?edit]" "[?last]" "''a''"] v
    by (simp add: union_grants_def statement_allows_def)
  moreover have "union_grants [?read, ?edit] [\<lparr>bnd_role = ''r'', bnd_policy = ''read''\<rparr>, ?last] (set (pr_roles ?pr)) (pr_home_app ?pr) ''doc.read'' ''a''"
    by (simp add: union_grants_def statement_allows_def)
  moreover note granted_iff_union_grants [of "''doc.read''" ?pr "[?home]" "[\<lparr>bnd_role = ''r'', bnd_policy = ''home''\<rparr>]"]
  ultimately show ?thesis
    using u unfolding Let_def by (auto simp: union_grants_def statement_allows_def)
qed

text \<open>
  \<^verbatim>\<open>"authenticated"\<close> is granted only by a literal \<^verbatim>\<open>"*"\<close> or the literal \<^verbatim>\<open>"authenticated"\<close> on a
  covering statement; a \<^verbatim>\<open>"<res>.*"\<close> prefix never implies it.
\<close>

theorem authenticated_only_by_literal:
  "granted (Some pr) perm_authenticated app \<longleftrightarrow>
     (\<exists>s \<in> set (pr_statements pr). covers_app s app (pr_home_app pr) \<and>
        (''*'' \<in> set (st_actions s) \<or> perm_authenticated \<in> set (st_actions s)))"
proof -
  have "perm_authenticated \<noteq> []" by (simp add: perm_authenticated_def)
  then show ?thesis by (auto simp: granted_Some match_action_authenticated)
qed

text \<open>
  authority only grows with roles.  A caller that holds every role of another and has the same home
  application is granted everything the other is, whatever else it holds: no role, policy or statement
  ever takes a permission away.
\<close>

theorem granted_monotone_in_roles:
  assumes "set (pr_roles p) \<subseteq> set (pr_roles q)" and "pr_home_app p = pr_home_app q"
    and "granted (Some (resolve_statements p idx)) perm app"
  shows "granted (Some (resolve_statements q idx)) perm app"
proof (cases "perm = [] \<or> idx = None")
  case True
  with assms(3) show ?thesis by (auto simp: granted_def)
next
  case False
  then obtain i where perm: "perm \<noteq> []" and i: "idx = Some i" by auto
  from assms show ?thesis
    unfolding i granted_Some [OF perm] Bex_def resolved_statement_iff resolve_statements_fields
    by (simp only: subset_eq) metis
qed

theorem granted_monotone_in_roles_witness:
  "let idx = Some (new_policy_index [\<lparr>pol_name = ''p'', pol_statements = [\<lparr>st_actions = [''*''], st_apps = [''*'']\<rparr>]\<rparr>]
                     [\<lparr>bnd_role = ''a'', bnd_policy = ''p''\<rparr>]);
       p = \<lparr>pr_subject = [], pr_user_id = [], pr_home_app = ''h'', pr_email = [], pr_roles = [''a''],
            pr_statements = [], pr_bound_roles = [], pr_policies = []\<rparr>
   in granted (Some (resolve_statements (p\<lparr>pr_roles := [''b'', ''a'']\<rparr>) idx)) ''x.y'' ''h''"
  unfolding Let_def
  by (rule granted_monotone_in_roles [where p = "\<lparr>pr_subject = [], pr_user_id = [], pr_home_app = ''h'',
        pr_email = [], pr_roles = [''a''], pr_statements = [], pr_bound_roles = [], pr_policies = []\<rparr>"])
    (simp_all add: resolve_statements_def new_policy_index_def granted_def covers_app_def match_app_def
      app_wildcard_def match_action_def)

section \<open>Introspection\<close>

lemma set_actions_on:
  "a \<in> set (actions_on pr app) \<longleftrightarrow>
     (\<exists>s \<in> set (pr_statements pr). covers_app s app (pr_home_app pr) \<and> a \<in> set (st_actions s))"
  by (auto simp: actions_on_def)

lemma permissions_by_app_fold:
  "fold (\<lambda>app out. if f app = [] then out else out(app \<mapsto> f app)) apps m app =
     (if app \<in> set apps \<and> f app \<noteq> [] then Some (f app) else m app)"
  by (induction apps arbitrary: m) auto

lemma permissions_by_app_Some:
  "permissions_by_app (Some pr) active app =
     (if app \<in> set active \<and> actions_on pr app \<noteq> [] then Some (actions_on pr app) else None)"
  by (simp add: permissions_by_app_def permissions_by_app_fold)

text \<open>
  introspection agrees with enforcement.  On an active application the evaluator grants a gated
  permission exactly when \<open>permissionsByApp\<close> publishes a list for it, sorted and free of duplicates, that
  holds a pattern matching the permission.
\<close>

theorem permissions_by_app_agrees:
  assumes "app \<in> set active" and "perm \<noteq> []"
  shows "granted (Some pr) perm app \<longleftrightarrow>
      (\<exists>pats. permissions_by_app (Some pr) active app = Some pats \<and> sorted pats \<and> distinct pats \<and>
         (\<exists>a \<in> set pats. match_action a perm))"
proof -
  have "granted (Some pr) perm app \<longleftrightarrow> (\<exists>a \<in> set (actions_on pr app). match_action a perm)"
    unfolding granted_Some [OF assms(2)] Bex_def set_actions_on by blast
  moreover have "sorted (actions_on pr app) \<and> distinct (actions_on pr app)"
    by (simp add: actions_on_def)
  ultimately show ?thesis
    using assms(1) by (auto simp: permissions_by_app_Some)
qed

theorem permissions_by_app_agrees_witness:
  "let pr = \<lparr>pr_subject = ''u'', pr_user_id = ''7'', pr_home_app = ''scantinel'', pr_email = [],
             pr_roles = [], pr_statements = [\<lparr>st_actions = [''content.*''], st_apps = [''@home'']\<rparr>],
             pr_bound_roles = [], pr_policies = []\<rparr>
   in (granted (Some pr) ''content.publish'' ''scantinel'' \<longleftrightarrow>
        (\<exists>pats. permissions_by_app (Some pr) [''scantinel''] ''scantinel'' = Some pats \<and>
           sorted pats \<and> distinct pats \<and> (\<exists>a \<in> set pats. match_action a ''content.publish''))) \<and>
      granted (Some pr) ''content.publish'' ''scantinel''"
  using permissions_by_app_agrees [of "''scantinel''" "[''scantinel'']" "''content.publish''"
      "\<lparr>pr_subject = ''u'', pr_user_id = ''7'', pr_home_app = ''scantinel'', pr_email = [],
        pr_roles = [], pr_statements = [\<lparr>st_actions = [''content.*''], st_apps = [''@home'']\<rparr>],
        pr_bound_roles = [], pr_policies = []\<rparr>"]
  by (simp add: granted_def covers_app_def match_app_def app_wildcard_def app_home_def
      match_action_def perm_authenticated_def has_suffix_def has_prefix_def suffix_def)

section \<open>Qualified roles\<close>

lemma add_role_fold:
  "distinct out \<Longrightarrow> [] \<notin> set out \<Longrightarrow>
     distinct (fold (\<lambda>r. add_role (f r)) rs out) \<and> [] \<notin> set (fold (\<lambda>r. add_role (f r)) rs out) \<and>
     set (fold (\<lambda>r. add_role (f r)) rs out) = set out \<union> (f ` set rs - {[]})"
  by (induction rs arbitrary: out) (auto simp: add_role_def)

text \<open>
  \<open>qualifyRoles\<close> yields the distinct, non-empty binding names of a token: the client roles of a
  named authorized party as \<^verbatim>\<open><azp>:<role>\<close>, the non-empty realm roles bare, and no client role at all
  when the token names no party.
\<close>

theorem qualify_roles_spec:
  "distinct (qualify_roles azp crs rrs) \<and> [] \<notin> set (qualify_roles azp crs rrs) \<and>
   set (qualify_roles azp crs rrs) =
     (if azp = [] then {} else (\<lambda>r. azp @ '':'' @ r) ` set crs) \<union> (set rrs - {[]})"
proof (cases "azp = []")
  case True
  then show ?thesis
    using add_role_fold [of "[]" "\<lambda>r. r" rrs] by (simp add: qualify_roles_def)
next
  case False
  then have "distinct (fold (\<lambda>r. add_role (azp @ '':'' @ r)) crs []) \<and>
      [] \<notin> set (fold (\<lambda>r. add_role (azp @ '':'' @ r)) crs []) \<and>
      set (fold (\<lambda>r. add_role (azp @ '':'' @ r)) crs []) = (\<lambda>r. azp @ '':'' @ r) ` set crs"
    using add_role_fold [of "[]" "\<lambda>r. azp @ '':'' @ r" crs] by auto
  with False show ?thesis
    using add_role_fold [of "fold (\<lambda>r. add_role (azp @ '':'' @ r)) crs []" "\<lambda>r. r" rrs]
    by (simp add: qualify_roles_def image_iff)
qed

section \<open>Unverified issuer\<close>

lemma trim_prefix_append [simp]: "trim_prefix (p @ s) p = s"
  by (simp add: trim_prefix_def has_prefix_def)

text \<open>
  for a bearer token whose second segment is the encoding of a JSON object with one \<^verbatim>\<open>iss\<close> string,
  \<open>tokenIssuer\<close> returns that string, whatever the header segment and signature are.
\<close>

theorem token_issuer_reads_payload:
  assumes "CHR ''.'' \<notin> set hdr" and "unmarshal payload = Some (JObj [(''iss'', JStr iss)])"
  shows "token_issuer unmarshal (''Bearer '' @ hdr @ ''.'' @ b64_encode payload @ ''.'' @ sig) = iss"
proof -
  have "split_on (CHR ''.'') (hdr @ ''.'' @ b64_encode payload @ ''.'' @ sig) =
      hdr # b64_encode payload # split_on (CHR ''.'') sig"
    using split_on_append_sep [OF assms(1)] split_on_append_sep [OF b64_encode_no_dot] by simp
  moreover have "trim_prefix (''Bearer '' @ hdr @ ''.'' @ b64_encode payload @ ''.'' @ sig) ''Bearer '' =
      hdr @ ''.'' @ b64_encode payload @ ''.'' @ sig"
    by (rule trim_prefix_append)
  ultimately show ?thesis
    using assms(2)
    by (simp only: token_issuer_def Let_def)
      (simp add: b64_decode_encode unmarshal_string_field_def)
qed

theorem token_issuer_reads_payload_witness:
  "token_issuer (\<lambda>s. Some (JObj [(''iss'', JStr s)])) (''Bearer '' @ ''h'' @ ''.'' @ b64_encode ''infra'' @ ''.'' @ ''s'') =
     ''infra''"
  by (rule token_issuer_reads_payload) simp_all

end
