(* ===== verification/Jwt.thy ===== *)
theory Jwt
  imports Jwks Token Authz "HOL-Library.Word"
begin

text \<open>
  \<^verbatim>\<open>jwt.go\<close>: Keycloak access tokens.  \<open>parse_keycloak_jwt\<close> runs the token library with the plugin's
  options and key function, then checks issuer, subject and \<^verbatim>\<open>app_id\<close> and collects the roles and the
  numeric user id.  The key source is any \<^verbatim>\<open>rsaKeyProvider\<close>, the JSON parser \<open>unmarshal\<close> and the
  signature check \<open>verify\<close> are parameters.
\<close>

unbundle bit_operations_syntax

section \<open>Claims\<close>

record token_claims =
  tc_user_id :: string
  tc_issuer :: string
  tc_app_id :: string
  tc_expires_at :: "int option"
  tc_keycloak :: bool
  tc_is_admin :: bool
  tc_roles :: "string list"
  tc_qualified_roles :: "string list"
  tc_subject :: string
  tc_email :: string

datatype keyfunc_error = UnexpectedSigningMethod | MissingKid | LookupFailed string | NilKey string

datatype keycloak_error =
    MalformedAuthorization
  | InvalidToken "keyfunc_error jwt_error"
  | IssuerMismatch string
  | MissingSubject
  | MissingAppId

section \<open>Numeric user ids\<close>

text \<open>\<^verbatim>\<open>isPositiveInt\<close>; its \<^verbatim>\<open>ParseInt\<close> decides the range.\<close>

definition is_positive_int :: "string \<Rightarrow> bool" where
  "is_positive_int s =
     (if s = [] \<or> length s > 19 then False
      else if \<not> list_all is_digit s then False
      else (case parse_int64 s of None \<Rightarrow> False | Some v \<Rightarrow> v > 0))"

text \<open>\<^verbatim>\<open>deriveUserID\<close>: FNV-1a over the bytes of the subject, top bit cleared, 0 mapped to 1.\<close>

definition fnv_offset :: "64 word" where "fnv_offset = 14695981039346656037"
definition fnv_prime :: "64 word" where "fnv_prime = 1099511628211"

definition fnv_step :: "64 word \<Rightarrow> char \<Rightarrow> 64 word" where
  "fnv_step h c = (h XOR word_of_nat (of_char c)) * fnv_prime"

definition derive_user_id :: "string \<Rightarrow> 64 word" where
  "derive_user_id sub =
     (let h = foldl fnv_step fnv_offset sub AND 0x7fffffffffffffff in if h = 0 then 1 else h)"

definition numeric_user_id :: "string \<Rightarrow> string \<Rightarrow> string" where
  "numeric_user_id claim_value sub =
     (if is_positive_int claim_value then claim_value else format_nat (unat (derive_user_id sub)))"

section \<open>Roles\<close>

text \<open>The closure \<^verbatim>\<open>collect\<close>: the non-empty strings of a JSON array.\<close>

fun nonempty_strings :: "json list \<Rightarrow> string list" where
  "nonempty_strings [] = []"
| "nonempty_strings (JStr s # js) = (if s = [] then nonempty_strings js else s # nonempty_strings js)"
| "nonempty_strings (_ # js) = nonempty_strings js"

definition collect :: "json option \<Rightarrow> string list" where
  "collect v = (case v of Some (JArr js) \<Rightarrow> nonempty_strings js | _ \<Rightarrow> [])"

text \<open>\<^verbatim>\<open>v, ok := m[k].(map[string]interface{})\<close>\<close>

definition get_object :: "json_object \<Rightarrow> string \<Rightarrow> json_object option" where
  "get_object m k = (case obj_get m k of Some (JObj o1) \<Rightarrow> Some o1 | _ \<Rightarrow> None)"

text \<open>\<^verbatim>\<open>keycloakRoleSets\<close>: the roles of the authorized party's client, and the realm roles.\<close>

definition keycloak_role_sets :: "json_object \<Rightarrow> string list \<times> string list" where
  "keycloak_role_sets claims =
     (let azp = as_string (obj_get claims ''azp'');
          client = (if azp = [] then []
                    else (case get_object claims ''resource_access'' of
                            None \<Rightarrow> []
                          | Some ra \<Rightarrow> (case get_object ra azp of
                                          None \<Rightarrow> [] | Some c \<Rightarrow> collect (obj_get c ''roles''))));
          realm = (case get_object claims ''realm_access'' of
                     None \<Rightarrow> [] | Some r \<Rightarrow> collect (obj_get r ''roles''))
      in (client, realm))"

text \<open>The closure \<^verbatim>\<open>appendRoles\<close> of \<^verbatim>\<open>keycloakRoles\<close>: it also drops roles already \<^verbatim>\<open>seen\<close>.\<close>

fun append_roles :: "json list \<Rightarrow> string list \<Rightarrow> string list" where
  "append_roles [] out = out"
| "append_roles (JStr s # js) out =
     append_roles js (if s \<noteq> [] \<and> s \<notin> set out then out @ [s] else out)"
| "append_roles (_ # js) out = append_roles js out"

definition append_role_value :: "json option \<Rightarrow> string list \<Rightarrow> string list" where
  "append_role_value v out = (case v of Some (JArr js) \<Rightarrow> append_roles js out | _ \<Rightarrow> out)"

definition keycloak_roles :: "json_object \<Rightarrow> string list" where
  "keycloak_roles claims =
     (let azp = as_string (obj_get claims ''azp'');
          roles = (if azp = [] then []
                   else (case get_object claims ''resource_access'' of
                           None \<Rightarrow> []
                         | Some ra \<Rightarrow> (case get_object ra azp of
                                         None \<Rightarrow> [] | Some c \<Rightarrow> append_role_value (obj_get c ''roles'') [])))
      in (case get_object claims ''realm_access'' of
            None \<Rightarrow> roles | Some r \<Rightarrow> append_role_value (obj_get r ''roles'') roles))"

section \<open>Validation\<close>

text \<open>The options \<^verbatim>\<open>WithValidMethods([]string{"RS256"})\<close> and \<^verbatim>\<open>WithLeeway(leeway)\<close>.\<close>

definition keycloak_parser :: "int \<Rightarrow> parser" where
  "keycloak_parser leeway =
     \<lparr>p_valid_methods = Some [''RS256''], p_skip_claims_validation = False,
      p_validator = default_validator\<lparr>v_leeway := leeway\<rparr>\<rparr>"

text \<open>The key function handed to the library.\<close>

definition keycloak_keyfunc ::
  "(string \<Rightarrow> 's \<Rightarrow> (string + 'k option) \<times> 's) \<Rightarrow> token \<Rightarrow> 's \<Rightarrow> (keyfunc_error + 'k) \<times> 's" where
  "keycloak_keyfunc key_for t st =
     (if tok_kind t \<noteq> MethodRSA then (Inl UnexpectedSigningMethod, st)
      else (let kid = as_string (obj_get (tok_header t) ''kid'') in
        if kid = [] then (Inl MissingKid, st)
        else (case key_for kid st of
                (Inl e, st1) \<Rightarrow> (Inl (LookupFailed e), st1)
              | (Inr None, st1) \<Rightarrow> (Inl (NilKey kid), st1)
              | (Inr (Some key), st1) \<Rightarrow> (Inr key, st1))))"

text \<open>\<^verbatim>\<open>claims[userIDClaim].(string)\<close> when it is there and not empty, else the subject.\<close>

definition claimed_user_id :: "json_object \<Rightarrow> string \<Rightarrow> string \<Rightarrow> string" where
  "claimed_user_id claims user_id_claim sub =
     (if user_id_claim \<noteq> [] \<and> as_string (obj_get claims user_id_claim) \<noteq> []
      then as_string (obj_get claims user_id_claim) else sub)"

text \<open>The checks after the library accepted the token, and the resulting claims.\<close>

definition claims_of_token ::
  "string \<Rightarrow> string \<Rightarrow> string list \<Rightarrow> json_object \<Rightarrow> keycloak_error + token_claims" where
  "claims_of_token expected_issuer user_id_claim admin_roles m =
     (let iss = (case parse_string m ''iss'' of Inl _ \<Rightarrow> [] | Inr s \<Rightarrow> s);
          sub = (case parse_string m ''sub'' of Inl _ \<Rightarrow> [] | Inr s \<Rightarrow> s);
          app = as_string (obj_get m ''app_id'')
      in if iss \<noteq> expected_issuer then Inl (IssuerMismatch iss)
         else if sub = [] then Inl MissingSubject
         else if app = [] then Inl MissingAppId
         else (let user_id = numeric_user_id (claimed_user_id m user_id_claim sub) sub;
                   exp_at = (case parse_numeric_date m ''exp'' of Inr (Some d) \<Rightarrow> Some d | _ \<Rightarrow> None);
                   roles = keycloak_roles m;
                   (client_roles, realm_roles) = keycloak_role_sets m;
                   azp = as_string (obj_get m ''azp'');
                   is_admin = list_ex (\<lambda>r. list_ex (\<lambda>a. r = a) admin_roles) roles;
                   email = (if as_bool (obj_get m ''email_verified'')
                            then as_string (obj_get m ''email'') else [])
               in Inr \<lparr>tc_user_id = user_id, tc_issuer = iss, tc_app_id = app, tc_expires_at = exp_at,
                       tc_keycloak = True, tc_is_admin = is_admin, tc_roles = roles,
                       tc_qualified_roles = qualify_roles azp client_roles realm_roles,
                       tc_subject = sub, tc_email = email\<rparr>))"

text \<open>\<open>Inr None\<close> is the anonymous caller (nil claims, no error).\<close>

definition parse_keycloak_jwt ::
  "(string \<Rightarrow> json option) \<Rightarrow> (string \<Rightarrow> string \<Rightarrow> string \<Rightarrow> 'k \<Rightarrow> bool) \<Rightarrow>
   (string \<Rightarrow> 's \<Rightarrow> (string + 'k option) \<times> 's) \<Rightarrow> string \<Rightarrow> string \<Rightarrow> int \<Rightarrow> string list \<Rightarrow> int \<Rightarrow>
   string \<Rightarrow> 's \<Rightarrow> (keycloak_error + token_claims option) \<times> 's" where
  "parse_keycloak_jwt unmarshal verify key_for expected_issuer user_id_claim leeway admin_roles now auth st =
     (if auth = [] then (Inr None, st)
      else (let token_str = trim_prefix auth ''Bearer '' in
        if token_str = auth then (Inl MalformedAuthorization, st)
        else (case parse_with_claims (keycloak_parser leeway) unmarshal verify (keycloak_keyfunc key_for)
                     now token_str st of
                (Inl e, st1) \<Rightarrow> (Inl (InvalidToken e), st1)
              | (Inr tok, st1) \<Rightarrow>
                  (map_sum id Some (claims_of_token expected_issuer user_id_claim admin_roles (tok_claims tok)),
                   st1))))"

section \<open>Lemmas on numeric user ids\<close>

lemma digits_parse_int64:
  assumes "s \<noteq> []" and "list_all is_digit s"
  shows "parse_int64 s = (if int (digits_val s) \<le> max_int64 then Some (int (digits_val s)) else None)"
proof -
  obtain c cs where s: "s = c # cs" using assms(1) by (cases s) auto
  with assms(2) have "c \<noteq> CHR ''-''" and "c \<noteq> CHR ''+''" by (auto dest: digit_not_sign)
  with assms s show ?thesis
    by (simp add: parse_int64_def parse_digits_def min_int64_def)
qed

lemma digits_val_bound: "list_all is_digit s \<Longrightarrow> digits_val s < 10 ^ length s"
proof (induction s rule: rev_induct)
  case (snoc c s)
  then have "digit_val c \<le> 9"
    by (auto simp: is_digit_def digit_val_def of_char_le)
  with snoc show ?case by (simp add: digits_val_snoc)
qed (simp add: digits_val_def)

text \<open>A decimal numeral of a positive \<^verbatim>\<open>int64\<close>, leading zeros and all.\<close>

definition positive_numeral :: "string \<Rightarrow> bool" where
  "positive_numeral s \<longleftrightarrow> s \<noteq> [] \<and> list_all is_digit s \<and> 0 < digits_val s \<and> int (digits_val s) \<le> max_int64"

lemma is_positive_int_numeral: "is_positive_int s \<longleftrightarrow> length s \<le> 19 \<and> positive_numeral s"
  by (auto simp: is_positive_int_def positive_numeral_def digits_parse_int64)

lemma derive_user_id_range: "0 < unat (derive_user_id sub) \<and> unat (derive_user_id sub) < 2 ^ 63"
proof -
  let ?h = "foldl fnv_step fnv_offset sub AND (0x7fffffffffffffff :: 64 word)"
  have "unat ?h \<le> unat (0x7fffffffffffffff :: 64 word)"
    unfolding word_le_nat_alt [symmetric] by (rule word_and_le1)
  then have "unat ?h < 2 ^ 63" by simp
  moreover have "?h \<noteq> 0 \<Longrightarrow> 0 < unat ?h" by (simp add: unat_gt_0)
  ultimately show ?thesis by (simp add: derive_user_id_def Let_def)
qed


lemma format_nat_positive: "0 < n \<Longrightarrow> n < 2 ^ 63 \<Longrightarrow> positive_numeral (format_nat n)"
  using format_nat_digits [of n] by (simp add: positive_numeral_def max_int64_def)

lemma numeric_user_id_numeral: "positive_numeral (numeric_user_id claim_value sub)"
proof (cases "is_positive_int claim_value")
  case True
  then show ?thesis by (simp add: numeric_user_id_def is_positive_int_numeral)
next
  case False
  with derive_user_id_range [of sub] show ?thesis
    by (simp only: numeric_user_id_def if_False) (intro format_nat_positive, auto)
qed

text \<open>
  C26: whatever the token carries, the \<^verbatim>\<open>X-User-Id\<close> value made of it is the decimal numeral of a positive
  \<^verbatim>\<open>int64\<close>, and a claim that already is one of at most 19 digits is kept verbatim.
\<close>

theorem numeric_user_id_positive:
  "positive_numeral (numeric_user_id claim_value sub) \<and>
   numeric_user_id claim_value sub =
     (if length claim_value \<le> 19 \<and> positive_numeral claim_value then claim_value
      else format_nat (unat (derive_user_id sub)))"
  by (simp add: numeric_user_id_numeral) (simp add: numeric_user_id_def is_positive_int_numeral)

text \<open>
  the derived id of the shared test vector is the one the contract with the website names.
\<close>

theorem derive_user_id_test_vector:
  "derive_user_id ''00000000-0000-0000-0000-000000000000'' = 8950988243607919089"
  by (simp add: derive_user_id_def fnv_step_def fnv_offset_def fnv_prime_def)

section \<open>Lemmas on roles\<close>

lemma append_roles_fold: "append_roles js out = fold add_role (nonempty_strings js) out"
  by (induction js out rule: append_roles.induct) (auto simp: add_role_def)

lemma append_role_value_fold: "append_role_value v out = fold add_role (collect v) out"
  by (auto simp: append_role_value_def collect_def append_roles_fold split: option.splits json.splits)

lemma keycloak_roles_fold:
  "keycloak_roles m = fold add_role (fst (keycloak_role_sets m) @ snd (keycloak_role_sets m)) []"
  by (auto simp: keycloak_roles_def keycloak_role_sets_def append_role_value_fold Let_def split: option.splits)

lemma nonempty_strings_set: "[] \<notin> set (nonempty_strings js)"
  by (induction js rule: nonempty_strings.induct) auto

lemma collect_no_empty: "[] \<notin> set (collect v)"
  by (auto simp: collect_def nonempty_strings_set split: option.splits json.splits)

lemma role_sets_no_empty: "[] \<notin> set (fst (keycloak_role_sets m)) \<union> set (snd (keycloak_role_sets m))"
  by (auto simp: keycloak_role_sets_def Let_def collect_no_empty split: option.splits)

text \<open>
  the two traversals of the role claims agree.  The flat role list that decides \<^verbatim>\<open>IsAdmin\<close> is the
  deduplicated concatenation of the client and realm roles that \<open>qualifyRoles\<close> is fed.
\<close>

theorem keycloak_roles_agree:
  "distinct (keycloak_roles m) \<and>
   set (keycloak_roles m) = set (fst (keycloak_role_sets m)) \<union> set (snd (keycloak_role_sets m))"
  using add_role_fold [of "[]" "\<lambda>r. r" "fst (keycloak_role_sets m) @ snd (keycloak_role_sets m)"]
    role_sets_no_empty [of m]
  by (auto simp: keycloak_roles_fold)


section \<open>Lemmas on validation\<close>

lemma trim_bearer: "trim_prefix auth ''Bearer '' \<noteq> auth \<Longrightarrow> auth = ''Bearer '' @ trim_prefix auth ''Bearer ''"
  by (auto simp: trim_prefix_def has_prefix_def prefix_def split: if_splits)

lemma keycloak_keyfunc_Inr:
  "keycloak_keyfunc key_for t st = (Inr key, st1) \<Longrightarrow>
     tok_kind t = MethodRSA \<and> as_string (obj_get (tok_header t) ''kid'') \<noteq> [] \<and>
     key_for (as_string (obj_get (tok_header t) ''kid'')) st = (Inr (Some key), st1)"
  by (auto simp: keycloak_keyfunc_def Let_def split: if_splits prod.splits sum.splits option.splits)

lemma as_string_nonempty: "as_string v \<noteq> [] \<Longrightarrow> v = Some (JStr (as_string v))"
  by (cases v rule: as_string.cases) auto

lemma as_bool_True: "as_bool v \<Longrightarrow> v = Some (JBool True)"
  by (cases v rule: as_bool.cases) auto

abbreviation string_claim :: "json_object \<Rightarrow> string \<Rightarrow> string" where
  "string_claim m k \<equiv> (case parse_string m k of Inl _ \<Rightarrow> [] | Inr s \<Rightarrow> s)"

lemma string_claim_nonempty: "string_claim m k \<noteq> [] \<Longrightarrow> obj_get m k = Some (JStr (string_claim m k))"
  by (auto simp: parse_string_def split: option.splits json.splits)

lemma claims_of_token_Inr:
  "claims_of_token iss uic adm m = Inr tc \<longleftrightarrow>
     string_claim m ''iss'' = iss \<and> string_claim m ''sub'' \<noteq> [] \<and> as_string (obj_get m ''app_id'') \<noteq> [] \<and>
     tc = \<lparr>tc_user_id = numeric_user_id (claimed_user_id m uic (string_claim m ''sub'')) (string_claim m ''sub''),
           tc_issuer = iss, tc_app_id = as_string (obj_get m ''app_id''),
           tc_expires_at = (case parse_numeric_date m ''exp'' of Inr (Some d) \<Rightarrow> Some d | _ \<Rightarrow> None),
           tc_keycloak = True,
           tc_is_admin = list_ex (\<lambda>r. list_ex (\<lambda>a. r = a) adm) (keycloak_roles m),
           tc_roles = keycloak_roles m,
           tc_qualified_roles = qualify_roles (as_string (obj_get m ''azp''))
             (fst (keycloak_role_sets m)) (snd (keycloak_role_sets m)),
           tc_subject = string_claim m ''sub'',
           tc_email = (if as_bool (obj_get m ''email_verified'') then as_string (obj_get m ''email'') else [])\<rparr>"
  unfolding claims_of_token_def Let_def case_prod_beta
  by (cases "string_claim m ''iss'' = iss"; cases "string_claim m ''sub'' = []";
      cases "as_string (obj_get m ''app_id'') = []") (simp_all add: eq_commute [of _ tc])

lemma claims_of_token_fields:
  assumes "claims_of_token iss uic adm m = Inr tc"
  shows "tc_issuer tc = iss" "tc_subject tc \<noteq> []" "obj_get m ''sub'' = Some (JStr (tc_subject tc))"
    "tc_app_id tc \<noteq> []" "obj_get m ''app_id'' = Some (JStr (tc_app_id tc))"
    "tc_user_id tc = numeric_user_id (claimed_user_id m uic (tc_subject tc)) (tc_subject tc)"
    "tc_roles tc = keycloak_roles m"
    "tc_is_admin tc \<longleftrightarrow> set (tc_roles tc) \<inter> set adm \<noteq> {}"
    "tc_email tc \<noteq> [] \<Longrightarrow> obj_get m ''email_verified'' = Some (JBool True)"
    "tc_keycloak tc"
proof -
  note c = claims_of_token_Inr [THEN iffD1, OF assms]
  note tc = c [THEN conjunct2, THEN conjunct2, THEN conjunct2]
  show "tc_issuer tc = iss" "tc_roles tc = keycloak_roles m" "tc_keycloak tc"
    "tc_user_id tc = numeric_user_id (claimed_user_id m uic (tc_subject tc)) (tc_subject tc)"
    by (subst tc, simp add: tc)+
  have sub: "tc_subject tc = string_claim m ''sub''" and app: "tc_app_id tc = as_string (obj_get m ''app_id'')"
    and adm: "tc_is_admin tc = list_ex (\<lambda>r. list_ex (\<lambda>a. r = a) adm) (tc_roles tc)"
    and email: "tc_email tc = (if as_bool (obj_get m ''email_verified'') then as_string (obj_get m ''email'') else [])"
    by (subst tc, simp add: tc)+
  show "tc_subject tc \<noteq> []" "obj_get m ''sub'' = Some (JStr (tc_subject tc))"
    using c string_claim_nonempty [of m "''sub''"] by (simp_all add: sub)
  show "tc_app_id tc \<noteq> []" "obj_get m ''app_id'' = Some (JStr (tc_app_id tc))"
    using c as_string_nonempty [of "obj_get m ''app_id''"] by (simp_all add: app)
  show "tc_is_admin tc \<longleftrightarrow> set (tc_roles tc) \<inter> set adm \<noteq> {}"
    unfolding adm list_ex_iff by blast
  show "obj_get m ''email_verified'' = Some (JBool True)" if "tc_email tc \<noteq> []"
    using that unfolding email by (intro as_bool_True) (simp split: if_splits)
qed

text \<open>A bearer token that the key source, the signature check and the clock all vouch for.\<close>

definition vouched ::
  "(string \<Rightarrow> json option) \<Rightarrow> (string \<Rightarrow> string \<Rightarrow> string \<Rightarrow> 'k \<Rightarrow> bool) \<Rightarrow> (string \<Rightarrow> 'k \<Rightarrow> bool) \<Rightarrow>
   int \<Rightarrow> int \<Rightarrow> string \<Rightarrow> json_object \<Rightarrow> bool" where
  "vouched unmarshal verify trust leeway now auth m \<longleftrightarrow>
     (\<exists>h c g hb hdr cb sig kid key.
        auth = ''Bearer '' @ h @ ''.'' @ c @ ''.'' @ g \<and>
        b64_decode h = Some hb \<and> Option.bind (unmarshal hb) as_map = Some hdr \<and>
        b64_decode c = Some cb \<and> Option.bind (unmarshal cb) as_map = Some m \<and> b64_decode g = Some sig \<and>
        obj_get hdr ''alg'' = Some (JStr ''RS256'') \<and> obj_get hdr ''kid'' = Some (JStr kid) \<and> kid \<noteq> [] \<and>
        trust kid key \<and> verify ''RS256'' (h @ ''.'' @ c) sig key \<and>
        validate (p_validator (keycloak_parser leeway)) m now = [])"

lemma keycloak_parser_simps [simp]:
  "p_valid_methods (keycloak_parser leeway) = Some [''RS256'']"
  "\<not> p_skip_claims_validation (keycloak_parser leeway)"
  "v_leeway (p_validator (keycloak_parser leeway)) = leeway"
  "\<not> v_require_exp (p_validator (keycloak_parser leeway))"
  "\<not> v_verify_iat (p_validator (keycloak_parser leeway))"
  "v_expected_aud (p_validator (keycloak_parser leeway)) = []"
  "v_expected_iss (p_validator (keycloak_parser leeway)) = []"
  "v_expected_sub (p_validator (keycloak_parser leeway)) = []"
  by (simp_all add: keycloak_parser_def default_validator_def)

text \<open>Acceptance, with the key source's answer still as a call.\<close>

lemma parse_keycloak_jwt_Inr:
  assumes "parse_keycloak_jwt unmarshal verify key_for iss uic leeway adm now auth st = (Inr (Some tc), st1)"
  shows "\<exists>m. vouched unmarshal verify (\<lambda>kid key. key_for kid st = (Inr (Some key), st1)) leeway now auth m \<and>
    claims_of_token iss uic adm m = Inr tc"
proof -
  from assms have auth: "auth = ''Bearer '' @ trim_prefix auth ''Bearer ''"
    by (intro trim_bearer) (auto simp: parse_keycloak_jwt_def Let_def split: if_splits)
  from assms obtain tok where
    p: "parse_with_claims (keycloak_parser leeway) unmarshal verify (keycloak_keyfunc key_for) now
          (trim_prefix auth ''Bearer '') st = (Inr tok, st1)"
    and c: "claims_of_token iss uic adm (tok_claims tok) = Inr tc"
    by (auto simp: parse_keycloak_jwt_def Let_def map_sum_def split: if_splits prod.splits sum.splits)
  obtain key where k: "keycloak_keyfunc key_for tok st = (Inr key, st1)"
    and v: "token_verified (keycloak_parser leeway) unmarshal verify key now (trim_prefix auth ''Bearer '') tok"
    using parse_with_claims_Inr [OF p] by blast
  note kf = keycloak_keyfunc_Inr [OF k]
  then have kid: "obj_get (tok_header tok) ''kid'' = Some (JStr (as_string (obj_get (tok_header tok) ''kid'')))"
    by (simp add: as_string_nonempty)
  from v have alg: "tok_alg tok = ''RS256''" by (auto simp: token_verified_def)
  from v obtain h c g hb cb where s: "trim_prefix auth ''Bearer '' = h @ ''.'' @ c @ ''.'' @ g"
    "b64_decode h = Some hb" "Option.bind (unmarshal hb) as_map = Some (tok_header tok)"
    "b64_decode c = Some cb" "Option.bind (unmarshal cb) as_map = Some (tok_claims tok)"
    "b64_decode g = Some (tok_signature tok)" "obj_get (tok_header tok) ''alg'' = Some (JStr ''RS256'')"
    "verify ''RS256'' (h @ ''.'' @ c) (tok_signature tok) key"
    "validate (p_validator (keycloak_parser leeway)) (tok_claims tok) now = []"
    by (auto simp: token_verified_def alg)
  have "vouched unmarshal verify (\<lambda>kid key. key_for kid st = (Inr (Some key), st1)) leeway now auth (tok_claims tok)"
    unfolding vouched_def using s kf kid auth by metis
  with c show ?thesis by blast
qed

lemma vouched_mono:
  "vouched unmarshal verify trust leeway now auth m \<Longrightarrow> (\<And>kid key. trust kid key \<Longrightarrow> trust' kid key) \<Longrightarrow>
   vouched unmarshal verify trust' leeway now auth m"
  unfolding vouched_def by blast

text \<open>Over any key source with its law: an accepted token is signed by a key the source trusts.\<close>

context rsa_key_provider
begin

lemma accepted_vouched:
  assumes "parse_keycloak_jwt unmarshal verify (key_for ev) iss uic leeway adm now auth st = (Inr (Some tc), st1)"
  shows "\<exists>m. vouched unmarshal verify (trusted st ev) leeway now auth m \<and> claims_of_token iss uic adm m = Inr tc"
  using parse_keycloak_jwt_Inr [OF assms] by (blast intro: vouched_mono key_trusted)

end


subsection \<open>Completeness\<close>

lemma those_Some_all: "those (map f xs) = Some ys \<Longrightarrow> x \<in> set xs \<Longrightarrow> f x \<noteq> None"
  by (induction xs arbitrary: ys) (auto split: option.splits)

lemma b64_decode_no_dot: "b64_decode s = Some x \<Longrightarrow> CHR ''.'' \<notin> set s"
proof
  assume "b64_decode s = Some x" and dot: "CHR ''.'' \<in> set s"
  then obtain ys where "those (map b64_val (filter (\<lambda>c. c \<noteq> CHR 0x0A \<and> c \<noteq> CHR 0x0D) s)) = Some ys"
    by (auto simp: b64_decode_def bind_eq_Some_conv)
  from those_Some_all [OF this, of "CHR ''.''"] dot show False
    by (simp add: b64_val_def is_digit_def)
qed

lemma split_segments:
  assumes "b64_decode h = Some hb" and "b64_decode c = Some cb" and "b64_decode g = Some sig"
  shows "split_on (CHR ''.'') (h @ ''.'' @ c @ ''.'' @ g) = [h, c, g]"
  using assms [THEN b64_decode_no_dot] by (simp add: split_on_append_sep split_on_no_sep)

lemma parse_keycloak_jwt_complete:
  assumes "vouched unmarshal verify (\<lambda>kid key. key_for kid st = (Inr (Some key), st1)) leeway now auth m"
    and "claims_of_token iss uic adm m = Inr tc"
  shows "parse_keycloak_jwt unmarshal verify key_for iss uic leeway adm now auth st = (Inr (Some tc), st1)"
proof -
  from assms(1) obtain h c g hb hdr cb sig kid key where v:
    "auth = ''Bearer '' @ h @ ''.'' @ c @ ''.'' @ g"
    "b64_decode h = Some hb" "Option.bind (unmarshal hb) as_map = Some hdr"
    "b64_decode c = Some cb" "Option.bind (unmarshal cb) as_map = Some m" "b64_decode g = Some sig"
    "obj_get hdr ''alg'' = Some (JStr ''RS256'')" "obj_get hdr ''kid'' = Some (JStr kid)" "kid \<noteq> []"
    "key_for kid st = (Inr (Some key), st1)" "verify ''RS256'' (h @ ''.'' @ c) sig key"
    "validate (p_validator (keycloak_parser leeway)) m now = []"
    unfolding vouched_def by metis
  let ?s = "h @ ''.'' @ c @ ''.'' @ g"
  let ?tok = "\<lparr>tok_header = hdr, tok_claims = m, tok_alg = ''RS256'', tok_kind = MethodRSA, tok_signature = []\<rparr>"
  have "get_signing_method ''RS256'' = Some MethodRSA"
    by (simp add: get_signing_method_def signing_methods_def)
  then have "(parse_unverified unmarshal ?s :: keyfunc_error jwt_error + _) = Inr (?tok, [h, c, g])"
    unfolding parse_unverified_def split_segments [OF v(2,4,6)] Let_def using v by simp
  moreover have "keycloak_keyfunc key_for (?tok\<lparr>tok_signature := sig\<rparr>) st = (Inr key, st1)"
    using v by (simp add: keycloak_keyfunc_def)
  ultimately have "parse_with_claims (keycloak_parser leeway) unmarshal verify (keycloak_keyfunc key_for)
      now ?s st = (Inr (?tok\<lparr>tok_signature := sig\<rparr>), st1)"
    using v by (simp add: parse_with_claims_def)
  moreover have "trim_prefix auth ''Bearer '' = ?s"
    unfolding v(1) by (rule trim_prefix_append)
  moreover have "?s \<noteq> auth" and "auth \<noteq> []" unfolding v(1) by simp_all
  ultimately show ?thesis
    using assms(2) by (simp add: parse_keycloak_jwt_def)
qed

section \<open>Properties of token validation\<close>

text \<open>
  C11: a token is accepted, with the claims \<open>tc\<close>, exactly when it is a bearer token of three base64url
  segments whose header names RS256 and a non-empty \<^verbatim>\<open>kid\<close>, whose signature verifies under the key
  the key source answers for that \<^verbatim>\<open>kid\<close>, whose \<^verbatim>\<open>exp\<close> and \<^verbatim>\<open>nbf\<close> pass the validator, and whose claims
  name the expected issuer, a subject and an \<^verbatim>\<open>app_id\<close>.  Every other header is an error or anonymous.
\<close>

theorem parse_keycloak_jwt_accepts_iff:
  "parse_keycloak_jwt unmarshal verify key_for iss uic leeway adm now auth st = (Inr (Some tc), st1) \<longleftrightarrow>
   (\<exists>m. vouched unmarshal verify (\<lambda>kid key. key_for kid st = (Inr (Some key), st1)) leeway now auth m \<and>
      claims_of_token iss uic adm m = Inr tc)"
  using parse_keycloak_jwt_Inr parse_keycloak_jwt_complete by metis

text \<open>A concrete bearer token, for the witnesses: the JSON parser knows two documents.\<close>

definition sample_unmarshal :: "string \<Rightarrow> json option" where
  "sample_unmarshal s =
     (if s = ''h'' then Some (JObj [(''alg'', JStr ''RS256''), (''kid'', JStr ''k'')])
      else if s = ''c'' then Some (JObj [(''iss'', JStr ''i''), (''sub'', JStr ''s''), (''app_id'', JStr ''a''),
             (''luid'', JStr ''42''), (''exp'', JNum 100), (''iat'', JNum 5000)])
      else None)"

definition sample_key :: rsa_key where "sample_key = \<lparr>rsa_n = 2 ^ 1024, rsa_e = 65537\<rparr>"

definition sample_cache :: jwks_cache where
  "sample_cache = (new_jwks_cache ''u'' 10)\<lparr>jc_keys := [''k'' \<mapsto> sample_key]\<rparr>"

definition sample_event :: jwks_event where
  "sample_event = \<lparr>je_now = 0, je_refresh_now = 0, je_fetch = \<lambda>_. TransportFailed\<rparr>"

definition sample_claims :: token_claims where
  "sample_claims = \<lparr>tc_user_id = ''42'', tc_issuer = ''i'', tc_app_id = ''a'', tc_expires_at = Some 100,
     tc_keycloak = True, tc_is_admin = False, tc_roles = [], tc_qualified_roles = [], tc_subject = ''s'', tc_email = []\<rparr>"

definition sample_payload :: json_object where
  "sample_payload = [(''iss'', JStr ''i''), (''sub'', JStr ''s''), (''app_id'', JStr ''a''),
     (''luid'', JStr ''42''), (''exp'', JNum 100), (''iat'', JNum 5000)]"

abbreviation sample_parse :: "string \<Rightarrow> (keycloak_error + token_claims option) \<times> jwks_cache" where
  "sample_parse auth \<equiv> parse_keycloak_jwt sample_unmarshal (\<lambda>_ _ sig _. sig = ''s'') (key_for_kid sample_event)
     ''i'' ''luid'' 0 [''admin''] 99000000000 auth sample_cache"

lemma sample_key_for_kid: "key_for_kid sample_event ''k'' sample_cache = (Inr (Some sample_key), sample_cache)"
  by (simp add: key_for_kid_def sample_cache_def)

lemma b64_samples: "b64_decode ''aA'' = Some ''h''" "b64_decode ''Yw'' = Some ''c''" "b64_decode ''cw'' = Some ''s''"
  by (simp_all add: go_defs char_eval)

lemma sample_validates: "validate (p_validator (keycloak_parser 0)) sample_payload 99000000000 = []"
proof -
  have "numeric_date_from_seconds 100 = 100"
    using numeric_date_integral [of 100] by simp
  then show ?thesis
    by (simp add: validate_def List.map_filter_def verify_expires_at_def verify_not_before_def
        parse_numeric_date_def sample_payload_def obj_get_def error_if_false_def error_if_required_def)
qed

lemma sample_vouched:
  "vouched sample_unmarshal (\<lambda>_ _ sig _. sig = ''s'')
     (\<lambda>kid key. key_for_kid sample_event kid sample_cache = (Inr (Some key), sample_cache)) 0 99000000000
     ''Bearer aA.Yw.cw'' sample_payload"
  unfolding vouched_def
  by (rule exI [of _ "''aA''"], rule exI [of _ "''Yw''"], rule exI [of _ "''cw''"])
    (auto simp: b64_samples sample_unmarshal_def sample_key_for_kid sample_validates obj_get_def
      simp flip: sample_payload_def)

lemma sample_claims_of_token: "claims_of_token ''i'' ''luid'' [''admin''] sample_payload = Inr sample_claims"
proof -
  have "numeric_date_from_seconds 100 = 100"
    using numeric_date_integral [of 100] by simp
  then show ?thesis
    by (simp add: claims_of_token_Inr sample_claims_def sample_payload_def parse_string_def obj_get_def
        parse_numeric_date_def claimed_user_id_def numeric_user_id_def is_positive_int_def go_defs
        keycloak_roles_def keycloak_role_sets_def get_object_def qualify_roles_def)
qed

lemma sample_accepted: "sample_parse ''Bearer aA.Yw.cw'' = (Inr (Some sample_claims), sample_cache)"
  by (rule parse_keycloak_jwt_complete [where key_for = "key_for_kid sample_event", OF sample_vouched
        sample_claims_of_token])


text \<open>
  with the JWKS cache as key source, an accepted token is signed under a key that was cached for its
  \<^verbatim>\<open>kid\<close> or that the document fetched for it publishes; from a cache of sound keys it is an RSA key of
  at least 1024 bits with an odd exponent of at least 3.
\<close>

theorem accepted_token_signed_by_published_key:
  assumes "parse_keycloak_jwt unmarshal verify (key_for_kid ev) iss uic leeway adm now auth jc = (Inr (Some tc), jc1)"
    and "sound_cache jc"
  shows "\<exists>m. vouched unmarshal verify (\<lambda>kid key. jwks_trusted jc ev kid key \<and> sound_key key) leeway now auth m \<and>
    claims_of_token iss uic adm m = Inr tc"
  using jwks_keys.accepted_vouched [OF assms(1)] assms(2)
  by (blast intro: vouched_mono jwks_trusted_sound)

theorem accepted_token_signed_by_published_key_witness:
  "\<exists>m. vouched sample_unmarshal (\<lambda>_ _ sig _. sig = ''s'')
      (\<lambda>kid key. jwks_trusted sample_cache sample_event kid key \<and> sound_key key) 0 99000000000 ''Bearer aA.Yw.cw'' m \<and>
    claims_of_token ''i'' ''luid'' [''admin''] m = Inr sample_claims"
proof (rule accepted_token_signed_by_published_key)
  show "sample_parse ''Bearer aA.Yw.cw'' = (Inr (Some sample_claims), sample_cache)"
    by (rule sample_accepted)
  have "(2 :: nat) ^ 1023 \<le> 2 ^ 1024" by (rule power_increasing) simp_all
  then show "sound_cache sample_cache"
    by (simp add: sound_cache_def sample_cache_def sound_key_def sample_key_def)
qed

text \<open>
  the claims handed on are those of the token: its issuer is the expected one, its subject and
  \<^verbatim>\<open>app_id\<close> are the non-empty strings of the payload, its user id is a positive \<^verbatim>\<open>int64\<close> numeral, it is
  admin exactly when it holds an admin role, and an e-mail address is passed on only when the payload
  says it is verified.
\<close>

theorem accepted_token_identity:
  assumes "parse_keycloak_jwt unmarshal verify key_for iss uic leeway adm now auth st = (Inr (Some tc), st1)"
  shows "\<exists>m. vouched unmarshal verify (\<lambda>kid key. key_for kid st = (Inr (Some key), st1)) leeway now auth m \<and>
    tc_issuer tc = iss \<and>
    tc_subject tc \<noteq> [] \<and> obj_get m ''sub'' = Some (JStr (tc_subject tc)) \<and>
    tc_app_id tc \<noteq> [] \<and> obj_get m ''app_id'' = Some (JStr (tc_app_id tc)) \<and>
    positive_numeral (tc_user_id tc) \<and>
    (tc_is_admin tc \<longleftrightarrow> set (tc_roles tc) \<inter> set adm \<noteq> {}) \<and>
    (tc_email tc = [] \<or> obj_get m ''email_verified'' = Some (JBool True))"
proof -
  obtain m where v: "vouched unmarshal verify (\<lambda>kid key. key_for kid st = (Inr (Some key), st1)) leeway now auth m"
    and c: "claims_of_token iss uic adm m = Inr tc"
    using parse_keycloak_jwt_Inr [OF assms] by blast
  note f = claims_of_token_fields [OF c]
  have "positive_numeral (tc_user_id tc)"
    unfolding f(6) by (rule numeric_user_id_numeral)
  with v f show ?thesis by blast
qed

theorem accepted_token_identity_witness:
  "\<exists>m. vouched sample_unmarshal (\<lambda>_ _ sig _. sig = ''s'')
      (\<lambda>kid key. key_for_kid sample_event kid sample_cache = (Inr (Some key), sample_cache)) 0 99000000000
      ''Bearer aA.Yw.cw'' m \<and>
    tc_issuer sample_claims = ''i'' \<and>
    tc_subject sample_claims \<noteq> [] \<and> obj_get m ''sub'' = Some (JStr (tc_subject sample_claims)) \<and>
    tc_app_id sample_claims \<noteq> [] \<and> obj_get m ''app_id'' = Some (JStr (tc_app_id sample_claims)) \<and>
    positive_numeral (tc_user_id sample_claims) \<and>
    (tc_is_admin sample_claims \<longleftrightarrow> set (tc_roles sample_claims) \<inter> set [''admin''] \<noteq> {}) \<and>
    (tc_email sample_claims = [] \<or> obj_get m ''email_verified'' = Some (JBool True))"
  by (rule accepted_token_identity [where key_for = "key_for_kid sample_event", OF sample_accepted])

text \<open>The dates of a payload, read as a pair of bounds on the clock.\<close>

definition fresh_at :: "int \<Rightarrow> int \<Rightarrow> json_object \<Rightarrow> bool" where
  "fresh_at leeway now m \<longleftrightarrow>
     (case obj_get m ''exp'' of
        None \<Rightarrow> True
      | Some (JNum f) \<Rightarrow> f = 0 \<or> now < instant (numeric_date_from_seconds f) + leeway
      | Some _ \<Rightarrow> False) \<and>
     (case obj_get m ''nbf'' of
        None \<Rightarrow> True
      | Some (JNum f) \<Rightarrow> f = 0 \<or> instant (numeric_date_from_seconds f) - leeway \<le> now
      | Some _ \<Rightarrow> False)"

text \<open>
  C34: the clock decides on \<^verbatim>\<open>exp\<close> and \<^verbatim>\<open>nbf\<close> alone.  An accepted token is within \<open>leeway\<close> of its
  expiry, if it states a non-zero one, and past its not-before less \<open>leeway\<close>, if it states one; a token
  without \<^verbatim>\<open>exp\<close> (or with \<^verbatim>\<open>exp\<close> 0) never expires.
\<close>

theorem keycloak_validation_is_freshness:
  "validate (p_validator (keycloak_parser leeway)) m now = [] \<longleftrightarrow> fresh_at leeway now m"
  by (auto simp: validate_def List.map_filter_def fresh_at_def verify_expires_at_def verify_not_before_def
      parse_numeric_date_def error_if_false_def error_if_required_def split: option.splits json.splits if_splits)

text \<open>
  \<^verbatim>\<open>iat\<close> is not validated.  Any two payloads that agree on \<^verbatim>\<open>exp\<close> and \<^verbatim>\<open>nbf\<close> are judged alike at
  every instant, so a token issued arbitrarily far in the future is accepted with the rest unchanged.
\<close>

theorem issued_at_is_ignored:
  "validate (p_validator (keycloak_parser leeway)) ((''iat'', iat) # m) now =
   validate (p_validator (keycloak_parser leeway)) m now"
  by (simp add: validate_def verify_expires_at_def verify_not_before_def parse_numeric_date_def obj_get_def
      map_add_def split: option.split)

text \<open>
  a token of any other algorithm is refused before its \<^verbatim>\<open>kid\<close> is looked up: the key source is left as
  it was, so an HS256 or unsigned token neither passes nor triggers a key fetch.
\<close>

theorem other_algorithms_rejected_untouched:
  assumes "b64_decode h = Some hb" and "Option.bind (unmarshal hb) as_map = Some hdr"
    and "obj_get hdr ''alg'' \<noteq> Some (JStr ''RS256'')"
  shows "\<exists>e. parse_keycloak_jwt unmarshal verify key_for iss uic leeway adm now (''Bearer '' @ h @ CHR ''.'' # rest) st =
    (Inl (InvalidToken e), st)"
proof -
  let ?auth = "''Bearer '' @ h @ CHR ''.'' # rest"
  have trim: "trim_prefix ?auth ''Bearer '' = h @ CHR ''.'' # rest"
    by (rule trim_prefix_append)
  have split: "split_on (CHR ''.'') (h @ CHR ''.'' # rest) = h # split_on (CHR ''.'') rest"
    using b64_decode_no_dot [OF assms(1)] by (rule split_on_append_sep)
  have "\<exists>e. parse_with_claims (keycloak_parser leeway) unmarshal verify (keycloak_keyfunc key_for) now
      (h @ CHR ''.'' # rest) st = (Inl e, st)"
    using assms unfolding parse_with_claims_def parse_unverified_def split Let_def
    by (auto split: option.splits json.splits)
  then show ?thesis
    unfolding parse_keycloak_jwt_def trim Let_def by auto
qed

theorem other_algorithms_rejected_untouched_witness:
  "\<exists>e. parse_keycloak_jwt (\<lambda>_. Some (JObj [(''alg'', JStr ''HS256''), (''kid'', JStr ''k'')])) (\<lambda>_ _ _ _. True)
      (key_for_kid sample_event) ''i'' ''luid'' 0 [] 0 (''Bearer '' @ ''aA'' @ CHR ''.'' # ''Yw.cw'') sample_cache =
    (Inl (InvalidToken e), sample_cache)"
  by (rule other_algorithms_rejected_untouched
        [where hb = "''h''" and hdr = "[(''alg'', JStr ''HS256''), (''kid'', JStr ''k'')]"]) (simp_all add: b64_samples obj_get_def)

end
