(* ===== verification/Identity.thy ===== *)
theory Identity
  imports Jwt Http
begin

text \<open>
  \<^verbatim>\<open>identity.go\<close>: the authorization view stamped by the legacy engine and the plan resolver, a cache
  of the plan of each (application, user) pair with a time to live of 30 seconds.  The clock readings and
  the answer of the rate-tier endpoint that one call sees are its event \<^verbatim>\<open>plan_event\<close>.
\<close>

section \<open>Authorization view\<close>

record user_authz =
  ua_roles :: "string list"
  ua_permissions :: "string list"
  ua_is_admin :: bool

definition authz_has :: "user_authz option \<Rightarrow> string \<Rightarrow> bool" where
  "authz_has a permission =
     (case a of None \<Rightarrow> False
      | Some ua \<Rightarrow> list_ex (\<lambda>p. p = ''*'' \<or> p = permission) (ua_permissions ua))"

section \<open>Plan resolver\<close>

record plan_cache_entry =
  pce_plan :: string
  pce_expires_at :: int

record plan_resolver =
  plr_base_url :: string
  plr_cache :: "string \<rightharpoonup> plan_cache_entry"

definition plan_cache_ttl :: int where "plan_cache_ttl = 30000000000"

definition new_plan_resolver :: "string \<Rightarrow> plan_resolver" where
  "new_plan_resolver url = \<lparr>plr_base_url = url, plr_cache = Map.empty\<rparr>"

text \<open>A request to the rate-tier endpoint: its URL and its headers.\<close>

record plan_request =
  plq_url :: string
  plq_header :: header

text \<open>The clock at the cache read and at the store, and what each request is answered (a decoded JSON document).\<close>

record plan_event =
  ple_now :: int
  ple_store_now :: int
  ple_fetch :: "plan_request \<Rightarrow> json http_outcome"

definition plan_cache_key :: "string \<Rightarrow> string \<Rightarrow> string" where
  "plan_cache_key app_id user_id = app_id @ [CHR 0x00] @ user_id"

definition rate_tier_url :: "string \<Rightarrow> string \<Rightarrow> string \<Rightarrow> string" where
  "rate_tier_url base app_id user_id =
     (if app_id \<noteq> [] then base @ ''/v1/apps/'' @ app_id @ ''/customers/'' @ user_id @ ''/rate-tier''
      else base @ ''/v1/customers/'' @ user_id @ ''/rate-tier'')"

definition rate_tier_request :: "string \<Rightarrow> string \<Rightarrow> string \<Rightarrow> plan_request" where
  "rate_tier_request base app_id user_id =
     \<lparr>plq_url = rate_tier_url base app_id user_id,
      plq_header = (if app_id \<noteq> [] then h_set Map.empty ''X-App-Id'' app_id else Map.empty)\<rparr>"

text \<open>The plan name of a usable answer, \<^verbatim>\<open>""\<close> when the document names none.\<close>

definition plan_of_answer :: "json http_outcome \<Rightarrow> string option" where
  "plan_of_answer a =
     (case a of
        Response status body \<Rightarrow>
          if status \<noteq> 200 then None
          else (case Option.bind body (unmarshal_string_field ''plan_name'') of
                  None \<Rightarrow> None
                | Some name \<Rightarrow> if name = [] then None else Some name)
      | _ \<Rightarrow> None)"

definition resolve_plan ::
  "plan_event \<Rightarrow> string \<Rightarrow> string \<Rightarrow> string \<Rightarrow> plan_resolver \<Rightarrow> string \<times> plan_resolver" where
  "resolve_plan ev app_id user_id default_plan pr =
     (let key = plan_cache_key app_id user_id in
      case plr_cache pr key of
        Some entry \<Rightarrow>
          if ple_now ev < pce_expires_at entry then (pce_plan entry, pr)
          else (case plan_of_answer (ple_fetch ev (rate_tier_request (plr_base_url pr) app_id user_id)) of
                  None \<Rightarrow> (default_plan, pr)
                | Some name \<Rightarrow>
                    (name, pr\<lparr>plr_cache := (plr_cache pr)(key \<mapsto>
                       \<lparr>pce_plan = name, pce_expires_at = ple_store_now ev + plan_cache_ttl\<rparr>)\<rparr>))
      | None \<Rightarrow>
          (case plan_of_answer (ple_fetch ev (rate_tier_request (plr_base_url pr) app_id user_id)) of
             None \<Rightarrow> (default_plan, pr)
           | Some name \<Rightarrow>
               (name, pr\<lparr>plr_cache := (plr_cache pr)(key \<mapsto>
                  \<lparr>pce_plan = name, pce_expires_at = ple_store_now ev + plan_cache_ttl\<rparr>)\<rparr>)))"

section \<open>Lemmas\<close>

text \<open>The entry a resolver would serve at an instant.\<close>

definition fresh_plan :: "plan_resolver \<Rightarrow> string \<Rightarrow> string \<Rightarrow> int \<Rightarrow> string option" where
  "fresh_plan pr app_id user_id now =
     (case plr_cache pr (plan_cache_key app_id user_id) of
        None \<Rightarrow> None
      | Some entry \<Rightarrow> if now < pce_expires_at entry then Some (pce_plan entry) else None)"

lemma resolve_plan_cases:
  "resolve_plan ev app_id user_id d pr =
     (case fresh_plan pr app_id user_id (ple_now ev) of
        Some plan \<Rightarrow> (plan, pr)
      | None \<Rightarrow>
          (case plan_of_answer (ple_fetch ev (rate_tier_request (plr_base_url pr) app_id user_id)) of
             None \<Rightarrow> (d, pr)
           | Some name \<Rightarrow>
               (name, pr\<lparr>plr_cache := (plr_cache pr)(plan_cache_key app_id user_id \<mapsto>
                  \<lparr>pce_plan = name, pce_expires_at = ple_store_now ev + plan_cache_ttl\<rparr>)\<rparr>)))"
  by (simp add: resolve_plan_def fresh_plan_def Let_def split: option.split)

lemma resolve_plan_other:
  "k \<noteq> plan_cache_key a u \<Longrightarrow> plr_cache (snd (resolve_plan ev a u d pr)) k = plr_cache pr k"
  by (simp add: resolve_plan_cases split: option.split)

lemma positive_numeral_digits: "positive_numeral u \<Longrightarrow> list_all is_digit u"
  by (simp add: positive_numeral_def)

lemma plan_cache_key_inj:
  assumes "positive_numeral u" and "positive_numeral v" and "plan_cache_key a u = plan_cache_key b v"
  shows "a = b \<and> u = v"
proof (rule last_sep_inj)
  show "a @ CHR 0x00 # u = b @ CHR 0x00 # v" using assms(3) by (simp add: plan_cache_key_def)
  show "CHR 0x00 \<notin> set u" and "CHR 0x00 \<notin> set v"
    using assms(1,2) [THEN positive_numeral_digits] by (auto simp: list_all_iff is_digit_def)
qed

section \<open>Properties\<close>

text \<open>
  the cache never mixes plans: resolving the plan of one (application, user) pair changes what is
  served for no other pair, whatever the application names are; the user ids the gateway stamps are
  decimal numerals, so the NUL-separated key determines the pair.
\<close>

theorem plans_do_not_interfere:
  assumes "positive_numeral u" and "positive_numeral v" and "(a, u) \<noteq> (b, v)"
  shows "fresh_plan (snd (resolve_plan ev a u d pr)) b v now = fresh_plan pr b v now"
proof -
  have "plan_cache_key b v \<noteq> plan_cache_key a u"
    using plan_cache_key_inj [OF assms(2,1), of b a] assms(3) by auto
  then show ?thesis by (simp add: fresh_plan_def resolve_plan_other)
qed

theorem plans_do_not_interfere_witness:
  "let ev = \<lparr>ple_now = 0, ple_store_now = 1, ple_fetch = \<lambda>_. Response 200 (Some (JObj [(''plan_name'', JStr ''pro'')]))\<rparr>
   in fresh_plan (snd (resolve_plan ev ''a'' ''1'' ''free'' (new_plan_resolver ''u''))) ''a'' ''2'' 5 =
      fresh_plan (new_plan_resolver ''u'') ''a'' ''2'' 5"
  unfolding Let_def
  by (rule plans_do_not_interfere) (simp_all add: positive_numeral_def go_defs)

text \<open>
  a plan fetched at one instant is served from the cache for 30 seconds, whatever the endpoint
  answers meanwhile, and no longer: from then on the endpoint decides again, and when it gives no plan
  the default applies.
\<close>

theorem plan_ttl:
  assumes "fresh_plan pr a u (ple_now ev) = None"
    and "plan_of_answer (ple_fetch ev (rate_tier_request (plr_base_url pr) a u)) = Some plan"
  shows "fst (resolve_plan ev2 a u d (snd (resolve_plan ev a u d' pr))) =
    (if ple_now ev2 < ple_store_now ev + 30000000000 then plan
     else (case plan_of_answer (ple_fetch ev2 (rate_tier_request (plr_base_url pr) a u)) of
             None \<Rightarrow> d | Some plan2 \<Rightarrow> plan2))"
proof -
  let ?pr = "snd (resolve_plan ev a u d' pr)"
  have "fresh_plan ?pr a u now = (if now < ple_store_now ev + plan_cache_ttl then Some plan else None)" for now
    using assms by (simp add: resolve_plan_cases [of ev] fresh_plan_def)
  moreover have "plr_base_url ?pr = plr_base_url pr"
    by (simp add: resolve_plan_cases split: option.split)
  ultimately show ?thesis
    by (simp add: resolve_plan_cases [of ev2] plan_cache_ttl_def split: option.split)
qed

theorem plan_ttl_witness:
  "let ev = \<lparr>ple_now = 0, ple_store_now = 1, ple_fetch = \<lambda>_. Response 200 (Some (JObj [(''plan_name'', JStr ''pro'')]))\<rparr>;
       ev2 = \<lparr>ple_now = 30000000001, ple_store_now = 0, ple_fetch = \<lambda>_. TransportFailed\<rparr>
   in fst (resolve_plan ev2 ''a'' ''1'' ''free'' (snd (resolve_plan ev ''a'' ''1'' ''free'' (new_plan_resolver ''u'')))) = ''free''"
  unfolding Let_def
  by (subst plan_ttl [where plan = "''pro''"])
    (simp_all add: new_plan_resolver_def fresh_plan_def plan_of_answer_def unmarshal_string_field_def)

text \<open>
  the resolver fails open to the default plan.  Without a fresh entry, any failure of the rate-tier
  endpoint (no request, no answer, another status, no JSON, no plan name) yields the default plan and
  leaves the cache as it was, so a later success is not masked.
\<close>

theorem plan_failure_yields_default:
  assumes "fresh_plan pr a u (ple_now ev) = None"
    and "plan_of_answer (ple_fetch ev (rate_tier_request (plr_base_url pr) a u)) = None"
  shows "resolve_plan ev a u d pr = (d, pr)"
  using assms by (simp add: resolve_plan_cases)

theorem plan_failure_yields_default_witness:
  "resolve_plan \<lparr>ple_now = 0, ple_store_now = 1, ple_fetch = \<lambda>_. Response 500 None\<rparr> ''a'' ''1'' ''free''
     (new_plan_resolver ''u'') = (''free'', new_plan_resolver ''u'')"
  by (rule plan_failure_yields_default) (simp_all add: fresh_plan_def new_plan_resolver_def plan_of_answer_def)

end
