(* ===== verification/Helpers.thy ===== *)
theory Helpers
  imports Http
begin

text \<open>
  \<^verbatim>\<open>helpers.go\<close>: the JSON response writer, the client address, host normalisation and the anonymous
  rate-limit key.
\<close>

section \<open>Definitions\<close>

text \<open>\<^verbatim>\<open>writeJSON\<close>: content type, status, then the document.\<close>

definition write_json :: "'b response \<Rightarrow> int \<Rightarrow> 'b \<Rightarrow> 'b response" where
  "write_json rw status_code data =
     (let rw1 = set_rsp_header ''Content-Type'' ''application/json'' rw;
          rw2 = write_header status_code rw1
      in rw2\<lparr>rsp_body := rsp_body rw2 @ [data]\<rparr>)"

text \<open>\<^verbatim>\<open>net.SplitHostPort\<close>: host and port, \<open>None\<close> for an address error.\<close>

definition split_host_port :: "string \<Rightarrow> (string \<times> string) option" where
  "split_host_port hp =
     (case last_index_byte hp (CHR '':'') of
        None \<Rightarrow> None
      | Some i \<Rightarrow>
          if hd hp = CHR ''['' then
            (case index_byte hp (CHR '']'') of
               None \<Rightarrow> None
             | Some e \<Rightarrow>
                 if e + 1 = length hp then None
                 else if e + 1 = i then
                   (if CHR ''['' \<in> set (drop 1 hp) \<or> CHR '']'' \<in> set (drop (e + 1) hp) then None
                    else Some (take (e - 1) (drop 1 hp), drop (i + 1) hp))
                 else None)
          else
            (let host = take i hp in
             if CHR '':'' \<in> set host then None
             else if CHR ''['' \<in> set hp \<or> CHR '']'' \<in> set hp then None
             else Some (host, drop (i + 1) hp)))"

text \<open>The loop over the comma-separated parts of \<^verbatim>\<open>X-Forwarded-For\<close>: the first non-blank one.\<close>

fun first_nonblank :: "string list \<Rightarrow> string option" where
  "first_nonblank [] = None"
| "first_nonblank (p # ps) =
     (let ip = trim_space p in if ip \<noteq> [] then Some ip else first_nonblank ps)"

definition client_ip :: "request \<Rightarrow> string" where
  "client_ip req =
     (let xff = get_req_header req ''X-Forwarded-For'';
          rest = (let rip = trim_space (get_req_header req ''X-Real-IP'') in
                  if rip \<noteq> [] then rip
                  else (case split_host_port (req_remote_addr req) of
                          None \<Rightarrow> req_remote_addr req
                        | Some (host, _) \<Rightarrow> host))
      in if xff \<noteq> []
         then (case first_nonblank (split_on (CHR '','') xff) of Some ip \<Rightarrow> ip | None \<Rightarrow> rest)
         else rest)"

definition normalize_host :: "(string \<Rightarrow> string) \<Rightarrow> string \<Rightarrow> string" where
  "normalize_host uni host =
     (let h = trim_space host;
          h1 = (case split_host_port h of Some (hh, _) \<Rightarrow> hh | None \<Rightarrow> h);
          h2 = to_lower uni h1
      in trim_suffix h2 ''.'')"

definition anonymous_rate_limit_key :: "string \<Rightarrow> string \<Rightarrow> string \<Rightarrow> string" where
  "anonymous_rate_limit_key device_id session_id ip =
     (if device_id \<noteq> [] then ''device:'' @ device_id
      else if session_id \<noteq> [] then ''session:'' @ session_id
      else if ip \<noteq> [] then ''ip:'' @ ip
      else ''anon:unknown'')"

section \<open>Responses\<close>

lemma write_json_simps [simp]:
  "rsp_status rw = None \<Longrightarrow> rsp_status (write_json rw c d) = Some c"
  "rsp_body (write_json rw c d) = rsp_body rw @ [d]"
  "rsp_header (write_json rw c d) = h_set (rsp_header rw) ''Content-Type'' ''application/json''"
  by (simp_all add: write_json_def Let_def)

section \<open>Host names\<close>

text \<open>A host name as it appears in a registry: no port, brackets, blanks or trailing dot.\<close>

definition plain_host :: "string \<Rightarrow> bool" where
  "plain_host h \<longleftrightarrow> h \<noteq> [] \<and> visible h \<and> last h \<noteq> CHR ''.'' \<and>
     CHR '':'' \<notin> set h \<and> CHR ''['' \<notin> set h \<and> CHR '']'' \<notin> set h"

lemma split_host_port_no_colon: "CHR '':'' \<notin> set h \<Longrightarrow> split_host_port h = None"
  by (simp add: split_host_port_def last_index_byte_None [THEN iffD2])

lemma split_host_port_plain:
  assumes "h \<noteq> []" and "CHR '':'' \<notin> set h" and "CHR ''['' \<notin> set h" and "CHR '']'' \<notin> set h"
    and "CHR '':'' \<notin> set p" and "CHR ''['' \<notin> set p" and "CHR '']'' \<notin> set p"
  shows "split_host_port (h @ CHR '':'' # p) = Some (h, p)"
proof -
  have "hd (h @ CHR '':'' # p) \<noteq> CHR ''[''"
    using assms(1,3) by (cases h) auto
  with assms show ?thesis
    by (simp add: split_host_port_def last_index_byte_append Let_def)
qed

lemma lower_char_eq_iff:
  "\<not> (CHR ''a'' \<le> d \<and> d \<le> CHR ''z'') \<Longrightarrow> lower_char c = d \<longleftrightarrow> c = d \<and> \<not> (CHR ''A'' \<le> c \<and> c \<le> CHR ''Z'')"
  by (auto simp: lower_char_def of_char_le)

lemma visible_is_ascii: "visible h \<Longrightarrow> is_ascii h"
  by (auto simp: visible_def is_ascii_def list_all_iff of_char_less)

lemma visible_append [simp]: "visible (a @ b) \<longleftrightarrow> visible a \<and> visible b"
  by (auto simp: visible_def)

lemma last_map_lower:
  "h \<noteq> [] \<Longrightarrow> last h \<noteq> CHR ''.'' \<Longrightarrow> \<not> has_suffix (map lower_char h) ''.''"
  by (cases h rule: rev_cases) (auto simp: has_suffix_def suffix_def lower_char_eq_iff)

text \<open>Every decorated form of a plain host normalises to its lower-case spelling.\<close>

lemma normalize_plain:
  assumes "plain_host h"
  shows "normalize_host uni h = map lower_char h"
  using assms
  by (simp add: normalize_host_def plain_host_def trim_space_visible split_host_port_no_colon
      to_lower_def visible_is_ascii trim_suffix_def last_map_lower Let_def)

lemma normalize_dot:
  assumes "plain_host h"
  shows "normalize_host uni (h @ ''.'') = map lower_char h"
proof -
  have "visible ''.''" by (simp add: visible_def)
  with assms show ?thesis
    by (simp add: normalize_host_def plain_host_def trim_space_visible split_host_port_no_colon
        to_lower_def visible_is_ascii trim_suffix_def has_suffix_def suffix_def lower_char_def Let_def)
qed

text \<open>A port: digits (or nothing).\<close>

lemma digits_visible: "list_all is_digit p \<Longrightarrow> visible p"
  by (auto simp: visible_def is_digit_def list_all_iff of_char_le of_char_less)

lemma digits_no_delim:
  "list_all is_digit p \<Longrightarrow> CHR '':'' \<notin> set p \<and> CHR ''['' \<notin> set p \<and> CHR '']'' \<notin> set p"
  by (auto simp: list_all_iff is_digit_def)

lemma normalize_port:
  assumes "plain_host h" and "list_all is_digit p"
  shows "normalize_host uni (h @ '':'' @ p) = map lower_char h"
proof -
  have v: "visible (h @ CHR '':'' # p)"
    using assms by (auto simp: plain_host_def visible_def list_all_iff is_digit_def of_char_le of_char_less)
  have "split_host_port (h @ CHR '':'' # p) = Some (h, p)"
    using assms digits_no_delim [OF assms(2)] by (intro split_host_port_plain) (auto simp: plain_host_def)
  with assms(1) v show ?thesis
    by (simp add: normalize_host_def plain_host_def trim_space_visible to_lower_def visible_is_ascii
        trim_suffix_def last_map_lower Let_def)
qed

lemma in_map_lower:
  assumes "\<not> (CHR ''a'' \<le> d \<and> d \<le> CHR ''z'')" and "\<not> (CHR ''A'' \<le> d \<and> d \<le> CHR ''Z'')"
  shows "d \<in> lower_char ` A \<longleftrightarrow> d \<in> A"
proof -
  have "lower_char c = d \<longleftrightarrow> c = d" for c
    using lower_char_eq_iff [OF assms(1), of c] assms(2) by blast
  then show ?thesis by (simp add: image_iff eq_commute [of d])
qed

lemma visible_map_lower: "visible h \<Longrightarrow> visible (map lower_char h)"
  by (auto simp: visible_def list_all_iff lower_char_def of_char_le of_char_less)

lemma map_lower_plain: "plain_host h \<Longrightarrow> plain_host (map lower_char h)"
  by (simp add: plain_host_def in_map_lower visible_map_lower last_map lower_char_eq_iff)

lemma normalize_plain_idem:
  "plain_host h \<Longrightarrow> normalize_host uni (normalize_host uni h) = normalize_host uni h"
  by (simp add: normalize_plain map_lower_plain)

text \<open>
  A way to write a host: the name in any letter case, with or without a trailing dot, with or without a port.
\<close>

definition spells_host :: "string \<Rightarrow> string \<Rightarrow> bool" where
  "spells_host host name \<longleftrightarrow>
     (\<exists>h dot port. host = h @ dot @ port \<and> map lower_char h = map lower_char name \<and> dot \<in> {[], ''.''} \<and>
        (port = [] \<or> (\<exists>p. list_all is_digit p \<and> port = '':'' @ p)))"

lemma visible_lower_eq: "visible (map lower_char h) \<Longrightarrow> visible h"
  by (auto simp: visible_def list_all_iff lower_char_def of_char_le of_char_less split: if_splits)

lemma plain_host_case:
  assumes "plain_host name" and "map lower_char h = map lower_char name"
  shows "plain_host h"
proof -
  have "plain_host (map lower_char h)" using map_lower_plain [OF assms(1)] assms(2) by simp
  then show ?thesis
    by (auto simp: plain_host_def in_map_lower last_map lower_char_eq_iff dest: visible_lower_eq)
qed

lemma normalize_dot_port:
  assumes "plain_host h" and "list_all is_digit p"
  shows "normalize_host uni (h @ ''.'' @ '':'' @ p) = map lower_char h"
proof -
  have v: "visible ((h @ ''.'') @ CHR '':'' # p)"
    using assms by (auto simp: plain_host_def visible_def list_all_iff is_digit_def of_char_le of_char_less)
  have "split_host_port ((h @ ''.'') @ CHR '':'' # p) = Some (h @ ''.'', p)"
    using assms digits_no_delim [OF assms(2)] by (intro split_host_port_plain) (auto simp: plain_host_def)
  moreover have "is_ascii (h @ ''.'')"
    using assms(1) by (intro visible_is_ascii) (simp add: plain_host_def visible_def)
  ultimately show ?thesis
    using v
    by (simp add: normalize_host_def trim_space_visible to_lower_def trim_suffix_def has_suffix_def suffix_def
        lower_char_def Let_def)
qed

lemma normalize_spelling:
  assumes "plain_host name" and "spells_host host name"
  shows "normalize_host uni host = map lower_char name"
proof -
  obtain h dot port where host: "host = h @ dot @ port" and h: "map lower_char h = map lower_char name"
    and dot: "dot = [] \<or> dot = ''.''" and port: "port = [] \<or> (\<exists>p. list_all is_digit p \<and> port = '':'' @ p)"
    using assms(2) unfolding spells_host_def by blast
  have p: "plain_host h" by (rule plain_host_case [OF assms(1) h])
  show ?thesis
    using dot port normalize_plain [OF p] normalize_dot [OF p] normalize_port [OF p] normalize_dot_port [OF p]
    by (auto simp: host h)
qed

section \<open>Client address\<close>

lemma first_nonblank_dropWhile:
  "first_nonblank ps =
     (case dropWhile (\<lambda>p. trim_space p = []) ps of [] \<Rightarrow> None | p # _ \<Rightarrow> Some (trim_space p))"
  by (induction ps) (simp_all add: Let_def)

lemma first_nonblank_None: "first_nonblank ps = None \<longleftrightarrow> (\<forall>p \<in> set ps. trim_space p = [])"
  by (induction ps) (simp_all add: Let_def)

end
