(* ===== verification/Registry.thy ===== *)
theory Registry
  imports Caches Helpers "HOL-Library.AList"
begin

text \<open>
  \<^verbatim>\<open>registry.go\<close>: the host to application registry.  \<open>compile_registry\<close> is the part of
  \<^verbatim>\<open>AppRegistryCache.refresh\<close> that turns a snapshot into lookup tables, \<open>registry_refresh\<close> and
  \<open>registry_check_version\<close> are the two operations of its poller, \<open>resolve_host\<close>, \<open>is_active_app\<close>,
  \<open>active_app_ids\<close> and \<open>cold_start\<close> its readers.  The \<^verbatim>\<open>hosts\<close> object of a snapshot is an association
  list in the order in which Go's map iteration happens to visit it.
\<close>

section \<open>Data\<close>

record app_host_dto =
  ah_app_id :: string
  ah_status :: string

record app_entry_dto =
  ae_app_id :: string
  ae_status :: string
  ae_display_name :: string
  ae_default_plan_slug :: string
  ae_hosts :: "string list"
  ae_primary_host :: string

record app_registry_dto =
  ar_version :: string
  ar_hosts :: "(string \<times> app_host_dto) list"
  ar_apps :: "app_entry_dto list"

record wildcard_host =
  wh_suffix :: string
  wh_app_id :: string

record app_registry =
  reg_by_host :: "(string \<times> string) list"
  reg_wildcards :: "wildcard_host list"
  reg_active :: "string list"
  reg_version :: string
  reg_loaded :: bool

definition new_app_registry :: app_registry where
  "new_app_registry = \<lparr>reg_by_host = [], reg_wildcards = [], reg_active = [], reg_version = [], reg_loaded = False\<rparr>"

section \<open>Operations\<close>

definition status_active :: "string \<Rightarrow> bool" where
  "status_active s = equal_fold s ''active''"

text \<open>One round of the loop over \<^verbatim>\<open>snap.Hosts\<close>.\<close>

definition add_host ::
  "(string \<Rightarrow> string) \<Rightarrow> string \<times> app_host_dto \<Rightarrow> (string \<times> string) list \<times> wildcard_host list \<Rightarrow>
   (string \<times> string) list \<times> wildcard_host list" where
  "add_host uni he tabs =
     (case (he, tabs) of ((host, entry), (by_host, wildcards)) \<Rightarrow>
        if \<not> status_active (ah_status entry) then (by_host, wildcards)
        else (let nh = normalize_host uni host in
          if has_prefix nh ''*.'' then
            (by_host, wildcards @ [\<lparr>wh_suffix = drop 1 nh, wh_app_id = ah_app_id entry\<rparr>])
          else (AList.update nh (ah_app_id entry) by_host, wildcards)))"

definition compile_registry :: "(string \<Rightarrow> string) \<Rightarrow> app_registry_dto \<Rightarrow> app_registry" where
  "compile_registry uni snap =
     (let (by_host, wildcards) = fold (add_host uni) (ar_hosts snap) ([], []);
          a0 = fold (\<lambda>a out. if status_active (ae_status a) \<and> ae_app_id a \<noteq> []
                              then List.insert (ae_app_id a) out else out) (ar_apps snap) [];
          a1 = fold (\<lambda>hi. List.insert (snd hi)) by_host a0;
          a2 = fold (\<lambda>w. List.insert (wh_app_id w)) wildcards a1
      in \<lparr>reg_by_host = by_host, reg_wildcards = wildcards, reg_active = a2,
          reg_version = ar_version snap, reg_loaded = True\<rparr>)"

text \<open>\<^verbatim>\<open>refresh\<close>: every failure keeps the last-known-good tables.\<close>

definition registry_refresh ::
  "(string \<Rightarrow> string) \<Rightarrow> app_registry_dto http_outcome \<Rightarrow> app_registry \<Rightarrow> app_registry" where
  "registry_refresh uni e c =
     (case e of
        RequestBuildFailed \<Rightarrow> c
      | TransportFailed \<Rightarrow> c
      | BodyReadFailed \<Rightarrow> c
      | Response status body \<Rightarrow>
          if status \<noteq> 200 then c
          else (case body of None \<Rightarrow> c | Some snap \<Rightarrow> compile_registry uni snap))"

text \<open>\<^verbatim>\<open>checkVersion\<close>: the answer of the version endpoint, then possibly a refresh with outcome \<open>e\<close>.\<close>

definition registry_check_version ::
  "(string \<Rightarrow> string) \<Rightarrow> string http_outcome \<Rightarrow> app_registry_dto http_outcome \<Rightarrow> app_registry \<Rightarrow> app_registry" where
  "registry_check_version uni a e c =
     (case a of
        Response status body \<Rightarrow>
          if status \<noteq> 200 then c
          else (case body of
                  None \<Rightarrow> c
                | Some v \<Rightarrow> if v \<noteq> reg_version c then registry_refresh uni e c else c)
      | _ \<Rightarrow> c)"

definition is_active_app :: "app_registry \<Rightarrow> string \<Rightarrow> bool" where
  "is_active_app c app = (app \<in> set (reg_active c))"

definition active_app_ids :: "app_registry \<Rightarrow> string list" where
  "active_app_ids c = sort (reg_active c)"

definition resolve_host :: "(string \<Rightarrow> string) \<Rightarrow> app_registry \<Rightarrow> string \<Rightarrow> string option" where
  "resolve_host uni c host =
     (let nh = normalize_host uni host in
      case map_of (reg_by_host c) nh of
        Some app \<Rightarrow> Some app
      | None \<Rightarrow> map_option wh_app_id (find (\<lambda>w. has_suffix nh (wh_suffix w)) (reg_wildcards c)))"

definition cold_start :: "app_registry \<Rightarrow> bool" where
  "cold_start c = (\<not> reg_loaded c)"

text \<open>\<^verbatim>\<open>getSharedAppRegistryCache\<close>: one cache per URL, refreshed once when it is created.\<close>

definition get_shared_app_registry ::
  "(string \<Rightarrow> string) \<Rightarrow> string \<Rightarrow> app_registry_dto http_outcome \<Rightarrow> (string \<rightharpoonup> app_registry) \<Rightarrow>
   app_registry \<times> (string \<rightharpoonup> app_registry)" where
  "get_shared_app_registry uni url e shared =
     (case shared url of
        Some c \<Rightarrow> (c, shared)
      | None \<Rightarrow> (let c = registry_refresh uni e new_app_registry in (c, shared(url \<mapsto> c))))"

section \<open>The registry is a polled cache\<close>

definition registry_payload :: "(string \<Rightarrow> string) \<Rightarrow> app_registry_dto http_outcome \<Rightarrow> app_registry option" where
  "registry_payload uni e = map_option (compile_registry uni) (good_answer e)"

definition registry_view :: "app_registry \<Rightarrow> app_registry option" where
  "registry_view c = (if reg_loaded c then Some c else None)"

lemma compile_registry_loaded [simp]:
  "reg_loaded (compile_registry uni snap)" "reg_version (compile_registry uni snap) = ar_version snap"
  by (simp_all add: compile_registry_def split: prod.split)

lemma registry_refresh_good:
  "registry_refresh uni e c = (case good_answer e of None \<Rightarrow> c | Some snap \<Rightarrow> compile_registry uni snap)"
  by (cases e) (simp_all add: registry_refresh_def)

lemma registry_check_good:
  "registry_check_version uni a e c =
     (case good_answer a of None \<Rightarrow> c | Some v \<Rightarrow> if v \<noteq> reg_version c then registry_refresh uni e c else c)"
  by (cases a) (simp_all add: registry_check_version_def)

interpretation registry: polled_cache "registry_refresh uni" "registry_payload uni" registry_view
  "registry_check_version uni" reg_version for uni
  by unfold_locales
    (auto simp: registry_refresh_good registry_check_good registry_payload_def registry_view_def)

text \<open>A history of the poller: refresh ticks and version polls.\<close>

definition registry_run ::
  "(string \<Rightarrow> string) \<Rightarrow> (string http_outcome option \<times> app_registry_dto http_outcome) list \<Rightarrow> app_registry \<Rightarrow> app_registry" where
  "registry_run uni = poll_run (registry_refresh uni) (registry_check_version uni)"

lemma registry_step:
  "poll_step (registry_refresh uni) (registry_check_version uni) op c = c \<or>
   (\<exists>snap. good_answer (snd op) = Some snap \<and>
      poll_step (registry_refresh uni) (registry_check_version uni) op c = compile_registry uni snap)"
  by (auto simp: poll_step_def registry_check_good registry_refresh_good split: prod.splits option.splits)

lemma registry_run_cases:
  "registry_run uni ops c = c \<or>
   (\<exists>snap. (\<exists>e \<in> snd ` set ops. good_answer e = Some snap) \<and> registry_run uni ops c = compile_registry uni snap)"
proof (induction ops arbitrary: c)
  case Nil
  then show ?case by (simp add: registry_run_def)
next
  case (Cons op ops)
  from registry_step [of uni op c] Cons.IH [of "poll_step (registry_refresh uni) (registry_check_version uni) op c"]
  show ?case by (auto simp: registry_run_def)
qed

text \<open>
  at every moment the registry either has loaded nothing or serves exactly one snapshot that
  application-service sent with status 200, all of its tables compiled from that one snapshot; failed
  refreshes and polls in between, in any order, leave no trace.
\<close>

theorem registry_serves_one_snapshot:
  "registry_run uni ops new_app_registry = new_app_registry \<or>
   (\<exists>snap. (\<exists>e \<in> snd ` set ops. good_answer e = Some snap) \<and>
      registry_run uni ops new_app_registry = compile_registry uni snap)"
  by (rule registry_run_cases)

text \<open>
  once a snapshot has been loaded the registry never goes cold again, whatever the upstream does.
\<close>

theorem registry_stays_warm:
  assumes "\<not> cold_start c"
  shows "\<not> cold_start (registry_run uni ops c)"
  using assms registry.run_never_cold [of c uni ops]
  by (auto simp: cold_start_def registry_view_def registry_run_def split: if_splits)

theorem registry_stays_warm_witness:
  "\<not> cold_start (registry_run id [(None, TransportFailed), (Some (Response 200 (Some ''v2'')), Response 500 None)]
     (compile_registry id \<lparr>ar_version = ''v1'', ar_hosts = [], ar_apps = []\<rparr>))"
  by (rule registry_stays_warm) (simp add: cold_start_def)


section \<open>Lemmas on the tables\<close>

text \<open>The exact and wildcard entries of a snapshot: \<open>add_host\<close> read declaratively.\<close>

definition active_hosts :: "(string \<Rightarrow> string) \<Rightarrow> app_registry_dto \<Rightarrow> (string \<times> string) list" where
  "active_hosts uni snap =
     map (\<lambda>(h, e). (normalize_host uni h, ah_app_id e))
       (filter (\<lambda>(h, e). status_active (ah_status e)) (ar_hosts snap))"

definition exact_hosts :: "(string \<Rightarrow> string) \<Rightarrow> app_registry_dto \<Rightarrow> (string \<times> string) list" where
  "exact_hosts uni snap = filter (\<lambda>(h, a). \<not> has_prefix h ''*.'') (active_hosts uni snap)"

definition wild_hosts :: "(string \<Rightarrow> string) \<Rightarrow> app_registry_dto \<Rightarrow> wildcard_host list" where
  "wild_hosts uni snap =
     map (\<lambda>(h, a). \<lparr>wh_suffix = drop 1 h, wh_app_id = a\<rparr>)
       (filter (\<lambda>(h, a). has_prefix h ''*.'') (active_hosts uni snap))"

lemma fold_add_host:
  "fold (add_host uni) hs (bh, ws) =
     (fold (\<lambda>(h, a). AList.update h a)
        (filter (\<lambda>(h, a). \<not> has_prefix h ''*.'')
          (map (\<lambda>(h, e). (normalize_host uni h, ah_app_id e)) (filter (\<lambda>(h, e). status_active (ah_status e)) hs))) bh,
      ws @ map (\<lambda>(h, a). \<lparr>wh_suffix = drop 1 h, wh_app_id = a\<rparr>)
        (filter (\<lambda>(h, a). has_prefix h ''*.'')
          (map (\<lambda>(h, e). (normalize_host uni h, ah_app_id e)) (filter (\<lambda>(h, e). status_active (ah_status e)) hs))))"
  by (induction hs arbitrary: bh ws) (auto simp: add_host_def Let_def)

lemma compile_tables:
  "reg_by_host (compile_registry uni snap) = fold (\<lambda>(h, a). AList.update h a) (exact_hosts uni snap) []"
  "reg_wildcards (compile_registry uni snap) = wild_hosts uni snap"
  by (simp_all add: compile_registry_def fold_add_host exact_hosts_def wild_hosts_def active_hosts_def)

lemma map_of_fold_update:
  "map_of (fold (\<lambda>(h, a). AList.update h a) hs bh) = map_of bh ++ map_of (rev hs)"
proof (induction hs arbitrary: bh)
  case (Cons h hs)
  then show ?case by (cases h) (simp add: update_conv' map_add_upd_left fun_upd_def [symmetric])
qed simp

lemma lookup_compiled: "map_of (reg_by_host (compile_registry uni snap)) h = map_of (rev (exact_hosts uni snap)) h"
  by (simp add: compile_tables map_of_fold_update)

lemma fold_insert_set: "set (fold (\<lambda>x. List.insert (f x)) xs out) = set out \<union> f ` set xs"
  by (induction xs arbitrary: out) auto

lemma fold_insert_if_set:
  "set (fold (\<lambda>x out. if P x then List.insert (f x) out else out) xs out) = set out \<union> f ` {x \<in> set xs. P x}"
  by (induction xs arbitrary: out) auto

lemma fold_insert_distinct: "distinct out \<Longrightarrow> distinct (fold (\<lambda>x. List.insert (f x)) xs out)"
  by (induction xs arbitrary: out) auto

lemma fold_insert_if_distinct:
  "distinct out \<Longrightarrow> distinct (fold (\<lambda>x out. if P x then List.insert (f x) out else out) xs out)"
  by (induction xs arbitrary: out) auto

lemma compile_active:
  "set (reg_active (compile_registry uni snap)) =
     ae_app_id ` {a \<in> set (ar_apps snap). status_active (ae_status a) \<and> ae_app_id a \<noteq> []} \<union>
     snd ` set (reg_by_host (compile_registry uni snap)) \<union>
     wh_app_id ` set (reg_wildcards (compile_registry uni snap))"
  "distinct (reg_active (compile_registry uni snap))"
  by (auto simp: compile_registry_def fold_insert_set fold_insert_if_set fold_insert_distinct
      fold_insert_if_distinct split: prod.split)


section \<open>Properties of resolution\<close>

lemma active_hosts_mem:
  "(nh, app) \<in> set (active_hosts uni snap) \<longleftrightarrow>
     (\<exists>host e. (host, e) \<in> set (ar_hosts snap) \<and> status_active (ah_status e) \<and>
        normalize_host uni host = nh \<and> ah_app_id e = app)"
  by (force simp: active_hosts_def)

lemma resolve_cases:
  assumes "resolve_host uni c host = Some app"
  shows "(normalize_host uni host, app) \<in> set (reg_by_host c) \<or>
    (\<exists>w \<in> set (reg_wildcards c). has_suffix (normalize_host uni host) (wh_suffix w) \<and> wh_app_id w = app)"
  using assms
  by (auto simp: resolve_host_def Let_def find_Some_iff split: option.splits dest: map_of_SomeD nth_mem)

lemma resolved_active_compiled:
  "resolve_host uni (compile_registry uni snap) host = Some app \<Longrightarrow> is_active_app (compile_registry uni snap) app"
  using resolve_cases [of uni "compile_registry uni snap" host app]
  by (force simp: is_active_app_def compile_active)

lemma resolve_new [simp]: "resolve_host uni new_app_registry host = None"
  by (simp add: resolve_host_def new_app_registry_def Let_def)

text \<open>
  C30: whatever the history of the poller, an application that a host resolves to is one that
  \<open>isActiveApp\<close> accepts: host resolution and the check of a requested application never disagree.
\<close>

theorem resolved_app_is_active:
  assumes "resolve_host uni (registry_run uni ops new_app_registry) host = Some app"
  shows "is_active_app (registry_run uni ops new_app_registry) app"
  using registry_run_cases [of uni ops new_app_registry] assms by (auto intro: resolved_active_compiled)

theorem resolved_app_is_active_witness:
  "is_active_app (registry_run id [(None, Response 200 (Some
       \<lparr>ar_version = ''v'', ar_hosts = [(''a.com'', \<lparr>ah_app_id = ''app'', ah_status = ''Active''\<rparr>)], ar_apps = []\<rparr>))]
     new_app_registry) ''app''"
  by (rule resolved_app_is_active [where host = "''A.COM:443''"])
    (simp add: registry_run_def poll_step_def registry_refresh_def resolve_host_def lookup_compiled
      exact_hosts_def active_hosts_def status_active_def normalize_plain normalize_port [of "''A.COM''" "''443''", simplified]
      plain_host_def visible_def go_defs char_eval)

text \<open>
  resolution grants nothing the snapshot does not list: a host resolves to an application only
  through an active entry whose normalised name is the host's, or is a \<^verbatim>\<open>*.\<close> pattern whose suffix
  (dot included) ends it.
\<close>

theorem resolution_is_listed:
  assumes "resolve_host uni (compile_registry uni snap) host = Some app"
  shows "\<exists>name e. (name, e) \<in> set (ar_hosts snap) \<and> status_active (ah_status e) \<and> ah_app_id e = app \<and>
    (normalize_host uni name = normalize_host uni host \<or>
     (\<exists>s. normalize_host uni name = ''*.'' @ s \<and> has_suffix (normalize_host uni host) (''.'' @ s)))"
proof -
  from resolve_cases [OF assms] show ?thesis
  proof
    assume "(normalize_host uni host, app) \<in> set (reg_by_host (compile_registry uni snap))"
    moreover have "distinct (map fst (reg_by_host (compile_registry uni snap)))"
    proof -
      have "distinct (map fst bh) \<Longrightarrow> distinct (map fst (fold (\<lambda>(h, a). AList.update h a) hs bh))"
        for bh :: "(string \<times> string) list" and hs
        by (induction hs arbitrary: bh) (auto simp: distinct_update)
      then show ?thesis by (simp add: compile_tables)
    qed
    ultimately have "map_of (reg_by_host (compile_registry uni snap)) (normalize_host uni host) = Some app"
      by (simp add: map_of_eq_Some_iff)
    then have "(normalize_host uni host, app) \<in> set (exact_hosts uni snap)"
      unfolding lookup_compiled by (rule map_of_rev_Some)
    then show ?thesis by (auto simp: exact_hosts_def active_hosts_mem)
  next
    assume "\<exists>w \<in> set (reg_wildcards (compile_registry uni snap)).
      has_suffix (normalize_host uni host) (wh_suffix w) \<and> wh_app_id w = app"
    then obtain nh where nh: "(nh, app) \<in> set (active_hosts uni snap)" "has_prefix nh ''*.''"
      and sfx: "has_suffix (normalize_host uni host) (drop 1 nh)"
      by (auto simp: compile_tables wild_hosts_def)
    from nh(2) obtain s where "nh = ''*.'' @ s" by (auto simp: has_prefix_def prefix_def)
    with nh(1) sfx show ?thesis unfolding active_hosts_mem by auto
  qed
qed

theorem resolution_is_listed_witness:
  "let snap = \<lparr>ar_version = ''v'', ar_hosts = [(''*.a.com'', \<lparr>ah_app_id = ''app'', ah_status = ''active''\<rparr>)], ar_apps = []\<rparr>
   in \<exists>name e. (name, e) \<in> set (ar_hosts snap) \<and> status_active (ah_status e) \<and> ah_app_id e = ''app'' \<and>
    (normalize_host id name = normalize_host id ''www.a.com'' \<or>
     (\<exists>s. normalize_host id name = ''*.'' @ s \<and> has_suffix (normalize_host id ''www.a.com'') (''.'' @ s)))"
  unfolding Let_def
  by (rule resolution_is_listed)
    (simp add: resolve_host_def lookup_compiled exact_hosts_def active_hosts_def compile_tables wild_hosts_def
      status_active_def normalize_plain plain_host_def visible_def go_defs char_eval suffix_def)

text \<open>
  C29: an active exact entry always resolves, to its application, in whatever order the map is
  iterated, as long as the active entries for that name agree on the application.  However the registry and the
  request write the name, letter case, a trailing dot and a port make no difference.
\<close>

theorem listed_host_resolves:
  assumes "(name, e) \<in> set (ar_hosts snap)" and "status_active (ah_status e)"
    and "plain_host h" and "\<not> has_prefix h ''*.''" and "spells_host name h" and "spells_host host h"
    and "\<And>name' e'. (name', e') \<in> set (ar_hosts snap) \<Longrightarrow> status_active (ah_status e') \<Longrightarrow>
           normalize_host uni name' = map lower_char h \<Longrightarrow> ah_app_id e' = ah_app_id e"
  shows "resolve_host uni (compile_registry uni snap) host = Some (ah_app_id e)"
proof -
  note n = normalize_spelling [OF assms(3,5), of uni] normalize_spelling [OF assms(3,6), of uni]
  have "\<not> has_prefix (map lower_char h) ''*.''"
    using assms(4) by (auto simp: has_prefix_def prefix_def map_eq_Cons_conv map_eq_append_conv lower_char_eq_iff)
  then have "(map lower_char h, ah_app_id e) \<in> set (exact_hosts uni snap)"
    using assms(1,2) n(1) by (auto simp: exact_hosts_def active_hosts_mem)
  then have "map_of (rev (exact_hosts uni snap)) (map lower_char h) \<noteq> None"
    unfolding map_of_rev_None by (metis fst_conv image_eqI)
  then obtain app where app: "map_of (rev (exact_hosts uni snap)) (map lower_char h) = Some app" by blast
  then have "(map lower_char h, app) \<in> set (active_hosts uni snap)"
    by (auto simp: exact_hosts_def dest!: map_of_rev_Some)
  with assms(7) have "app = ah_app_id e" by (auto simp: active_hosts_mem)
  with app show ?thesis by (simp add: resolve_host_def lookup_compiled n(2))
qed

theorem listed_host_resolves_witness:
  "resolve_host id (compile_registry id
     \<lparr>ar_version = ''v'', ar_hosts = [(''a.com'', \<lparr>ah_app_id = ''app'', ah_status = ''active''\<rparr>)], ar_apps = []\<rparr>) ''A.com.:443'' =
   Some (ah_app_id \<lparr>ah_app_id = ''app'', ah_status = ''active''\<rparr>)"
proof (rule listed_host_resolves [where name = "''a.com''" and h = "''a.com''"])
  show "spells_host ''a.com'' ''a.com''" unfolding spells_host_def by (intro exI [of _ "''a.com''"] exI [of _ "[]"]) simp
  have "list_all is_digit ''443''" and "map lower_char ''A.com'' = map lower_char ''a.com''" by code_simp+
  then show "spells_host ''A.com.:443'' ''a.com''"
    unfolding spells_host_def
    by (intro exI [of _ "''A.com''"] exI [of _ "''.''"] exI [of _ "'':443''"] conjI disjI2 exI [of _ "''443''"]) simp_all
qed (simp_all add: status_active_def plain_host_def visible_def has_prefix_def go_defs char_eval)

text \<open>
  the introspection list of active applications is sorted, free of duplicates and holds exactly the
  applications \<open>isActiveApp\<close> accepts.
\<close>

theorem active_app_ids_spec:
  "sorted (active_app_ids (registry_run uni ops new_app_registry)) \<and>
   distinct (active_app_ids (registry_run uni ops new_app_registry)) \<and>
   set (active_app_ids (registry_run uni ops new_app_registry)) =
     {app. is_active_app (registry_run uni ops new_app_registry) app}"
proof -
  have "distinct (reg_active (registry_run uni ops new_app_registry))"
    using registry_run_cases [of uni ops new_app_registry]
    by (auto simp: compile_active) (simp add: new_app_registry_def)
  then show ?thesis by (auto simp: active_app_ids_def is_active_app_def)
qed

end
