(* ===== verification/Snapshot.thy ===== *)
theory Snapshot
  imports Caches Authz
begin

text \<open>
  \<^verbatim>\<open>snapshot.go\<close>: the endpoint and policy registry.  \<open>compile_snapshot\<close> is the part of
  \<^verbatim>\<open>SnapshotCache.refresh\<close> that turns a snapshot into compiled endpoints and the policy index;
  \<open>match_endpoint\<close> is the lookup of the request path.

  A compiled regular expression is its observable behaviour: the names of its groups and the result of
  \<^verbatim>\<open>FindStringSubmatch\<close>.  \<open>rx\<close> is \<^verbatim>\<open>regexp.Compile\<close>, a parameter; the fallback for a pattern that
  does not compile is written out.
\<close>

section \<open>Data\<close>

record regex =
  rx_names :: "string list"
  rx_run :: "string \<Rightarrow> string list option"

text \<open>\<^verbatim>\<open>MatchString\<close>, and \<^verbatim>\<open>SubexpIndex\<close> (\<open>None\<close> for -1; an empty name has no index).\<close>

definition rx_matches :: "regex \<Rightarrow> string \<Rightarrow> bool" where
  "rx_matches r s = (rx_run r s \<noteq> None)"

definition subexp_index :: "regex \<Rightarrow> string \<Rightarrow> nat option" where
  "subexp_index r name =
     (if name = [] then None
      else (case filter (\<lambda>i. rx_names r ! i = name) [0..<length (rx_names r)] of [] \<Rightarrow> None | i # _ \<Rightarrow> Some i))"

record rate_limit_value =
  rlv_requests :: int
  rlv_duration_seconds :: int

record snapshot_endpoint_dto =
  ep_uid :: string
  ep_method :: string
  ep_path :: string
  ep_full_path :: string
  ep_path_regex :: string
  ep_access_level :: string
  ep_required_permission :: string
  ep_owner_param :: string
  ep_tags :: "string list"
  ep_rate_limits :: "string \<rightharpoonup> rate_limit_value"

record compiled_endpoint = snapshot_endpoint_dto +
  ce_app_id :: string
  ce_regex :: regex

record snapshot_service_dto =
  svc_uid :: string
  svc_slug :: string
  svc_base_path :: string
  svc_endpoints :: "snapshot_endpoint_dto list"

record snapshot_app_dto =
  sa_app_id :: string
  sa_services :: "snapshot_service_dto list"

record snapshot_dto =
  sd_version :: string
  sd_apps :: "snapshot_app_dto list"
  sd_policies :: "policy list"
  sd_bindings :: "binding list"

record snapshot_cache =
  sc_loaded :: bool
  sc_snapshot :: "snapshot_dto option"
  sc_compiled :: "compiled_endpoint list"
  sc_policies :: "policy_index option"
  sc_version :: string

definition new_snapshot_cache :: snapshot_cache where
  "new_snapshot_cache = \<lparr>sc_loaded = False, sc_snapshot = None, sc_compiled = [], sc_policies = None, sc_version = []\<rparr>"

section \<open>Operations\<close>

text \<open>\<^verbatim>\<open>^QuoteMeta(fullPath)$\<close> matches that very path and has no groups.\<close>

definition literal_regex :: "string \<Rightarrow> regex" where
  "literal_regex full_path = \<lparr>rx_names = [[]], rx_run = \<lambda>s. if s = full_path then Some [s] else None\<rparr>"

definition compile_regex :: "(string \<Rightarrow> regex option) \<Rightarrow> string \<Rightarrow> string \<Rightarrow> regex" where
  "compile_regex rx path_regex full_path =
     (case rx path_regex of None \<Rightarrow> literal_regex full_path | Some re \<Rightarrow> re)"

definition compile_endpoint :: "(string \<Rightarrow> regex option) \<Rightarrow> string \<Rightarrow> snapshot_endpoint_dto \<Rightarrow> compiled_endpoint" where
  "compile_endpoint rx app ep =
     snapshot_endpoint_dto.extend ep
       \<lparr>ce_app_id = app, ce_regex = compile_regex rx (ep_path_regex ep) (ep_full_path ep)\<rparr>"

definition compile_endpoints :: "(string \<Rightarrow> regex option) \<Rightarrow> snapshot_dto \<Rightarrow> compiled_endpoint list" where
  "compile_endpoints rx snap =
     concat (map (\<lambda>app. concat (map (\<lambda>svc. map (compile_endpoint rx (sa_app_id app)) (svc_endpoints svc))
                                 (sa_services app))) (sd_apps snap))"

definition compile_snapshot :: "(string \<Rightarrow> regex option) \<Rightarrow> snapshot_dto \<Rightarrow> snapshot_cache" where
  "compile_snapshot rx snap =
     \<lparr>sc_loaded = True, sc_snapshot = Some snap, sc_compiled = compile_endpoints rx snap,
      sc_policies = Some (new_policy_index (sd_policies snap) (sd_bindings snap)), sc_version = sd_version snap\<rparr>"

definition snapshot_refresh ::
  "(string \<Rightarrow> regex option) \<Rightarrow> snapshot_dto http_outcome \<Rightarrow> snapshot_cache \<Rightarrow> snapshot_cache" where
  "snapshot_refresh rx e sc =
     (case e of
        RequestBuildFailed \<Rightarrow> sc
      | TransportFailed \<Rightarrow> sc
      | BodyReadFailed \<Rightarrow> sc
      | Response status body \<Rightarrow>
          if status \<noteq> 200 then sc
          else (case body of None \<Rightarrow> sc | Some snap \<Rightarrow> compile_snapshot rx snap))"

definition snapshot_check_version ::
  "(string \<Rightarrow> regex option) \<Rightarrow> string http_outcome \<Rightarrow> snapshot_dto http_outcome \<Rightarrow> snapshot_cache \<Rightarrow> snapshot_cache" where
  "snapshot_check_version rx a e sc =
     (case a of
        Response status body \<Rightarrow>
          if status \<noteq> 200 then sc
          else (case body of
                  None \<Rightarrow> sc
                | Some v \<Rightarrow> if v \<noteq> sc_version sc then snapshot_refresh rx e sc else sc)
      | _ \<Rightarrow> sc)"

text \<open>The loop of \<^verbatim>\<open>matchEndpoint\<close>; the two accumulators are \<^verbatim>\<open>sharedMatch\<close> and \<^verbatim>\<open>anyMatch\<close>.\<close>

fun match_loop ::
  "string \<Rightarrow> string \<Rightarrow> string \<Rightarrow> compiled_endpoint list \<Rightarrow> compiled_endpoint option \<Rightarrow>
   compiled_endpoint option \<Rightarrow> compiled_endpoint option" where
  "match_loop app meth path [] shared any =
     (case shared of Some ep \<Rightarrow> Some ep | None \<Rightarrow> if app = [] then any else None)"
| "match_loop app meth path (ep # eps) shared any =
     (if ep_method ep \<noteq> meth then match_loop app meth path eps shared any
      else if \<not> rx_matches (ce_regex ep) path then match_loop app meth path eps shared any
      else if app \<noteq> [] \<and> ce_app_id ep = app then Some ep
      else match_loop app meth path eps
             (if (ce_app_id ep = [] \<or> ce_app_id ep = ''*'') \<and> shared = None then Some ep else shared)
             (if any = None then Some ep else any))"

definition match_endpoint :: "snapshot_cache \<Rightarrow> string \<Rightarrow> string \<Rightarrow> string \<Rightarrow> compiled_endpoint option" where
  "match_endpoint sc app meth path = match_loop app meth path (sc_compiled sc) None None"

text \<open>\<^verbatim>\<open>getSharedSnapshotCache\<close>: one cache per URL, refreshed once when it is created.\<close>

definition get_shared_snapshot_cache ::
  "(string \<Rightarrow> regex option) \<Rightarrow> string \<Rightarrow> snapshot_dto http_outcome \<Rightarrow> (string \<rightharpoonup> snapshot_cache) \<Rightarrow>
   snapshot_cache \<times> (string \<rightharpoonup> snapshot_cache)" where
  "get_shared_snapshot_cache rx url e shared =
     (case shared url of
        Some c \<Rightarrow> (c, shared)
      | None \<Rightarrow> (let c = snapshot_refresh rx e new_snapshot_cache in (c, shared(url \<mapsto> c))))"

section \<open>The snapshot cache is a polled cache\<close>

definition snapshot_payload :: "(string \<Rightarrow> regex option) \<Rightarrow> snapshot_dto http_outcome \<Rightarrow> snapshot_cache option" where
  "snapshot_payload rx e = map_option (compile_snapshot rx) (good_answer e)"

definition snapshot_view :: "snapshot_cache \<Rightarrow> snapshot_cache option" where
  "snapshot_view sc = (if sc_loaded sc then Some sc else None)"

lemma snapshot_refresh_good:
  "snapshot_refresh rx e sc = (case good_answer e of None \<Rightarrow> sc | Some snap \<Rightarrow> compile_snapshot rx snap)"
  by (cases e) (simp_all add: snapshot_refresh_def)

lemma snapshot_check_good:
  "snapshot_check_version rx a e sc =
     (case good_answer a of None \<Rightarrow> sc | Some v \<Rightarrow> if v \<noteq> sc_version sc then snapshot_refresh rx e sc else sc)"
  by (cases a) (simp_all add: snapshot_check_version_def)

lemma compile_snapshot_fields [simp]:
  "sc_loaded (compile_snapshot rx snap)" "sc_snapshot (compile_snapshot rx snap) = Some snap" "sc_version (compile_snapshot rx snap) = sd_version snap"
  "sc_compiled (compile_snapshot rx snap) = compile_endpoints rx snap"
  "sc_policies (compile_snapshot rx snap) = Some (new_policy_index (sd_policies snap) (sd_bindings snap))"
  by (simp_all add: compile_snapshot_def)

interpretation snapshots: polled_cache "snapshot_refresh rx" "snapshot_payload rx" snapshot_view
  "snapshot_check_version rx" sc_version for rx
  by unfold_locales
    (auto simp: snapshot_refresh_good snapshot_check_good snapshot_payload_def snapshot_view_def)

definition snapshot_run ::
  "(string \<Rightarrow> regex option) \<Rightarrow> (string http_outcome option \<times> snapshot_dto http_outcome) list \<Rightarrow>
   snapshot_cache \<Rightarrow> snapshot_cache" where
  "snapshot_run rx = poll_run (snapshot_refresh rx) (snapshot_check_version rx)"

text \<open>Cold and warm caches that the poller can reach: nothing at all, or one compiled snapshot.\<close>

definition snapshot_inv :: "(string \<Rightarrow> regex option) \<Rightarrow> snapshot_cache \<Rightarrow> bool" where
  "snapshot_inv rx sc \<longleftrightarrow> sc = new_snapshot_cache \<or> (\<exists>snap. sc = compile_snapshot rx snap)"

lemma snapshot_step_cases:
  "poll_step (snapshot_refresh rx) (snapshot_check_version rx) op sc = sc \<or>
   (\<exists>snap. good_answer (snd op) = Some snap \<and>
      poll_step (snapshot_refresh rx) (snapshot_check_version rx) op sc = compile_snapshot rx snap)"
  by (auto simp: poll_step_def snapshot_check_good snapshot_refresh_good split: prod.splits option.splits)

lemma snapshot_run_cases:
  "snapshot_run rx ops sc = sc \<or>
   (\<exists>snap. (\<exists>e \<in> snd ` set ops. good_answer e = Some snap) \<and> snapshot_run rx ops sc = compile_snapshot rx snap)"
proof (induction ops arbitrary: sc)
  case Nil
  then show ?case by (simp add: snapshot_run_def)
next
  case (Cons op ops)
  from snapshot_step_cases [of rx op sc]
    Cons.IH [of "poll_step (snapshot_refresh rx) (snapshot_check_version rx) op sc"]
  show ?case by (auto simp: snapshot_run_def)
qed

text \<open>
  C31: the cache never mixes snapshots.  After any history of refreshes and version polls it is either untouched and
  unloaded, or it holds one snapshot that service-service sent with status 200: the document, its endpoints, its policy
  index and its version together.  (A request reads the cache more than once, so its endpoint and its policies may
  still come from two snapshots when a refresh falls between the reads.)
\<close>

theorem snapshot_is_consistent:
  "snapshot_run rx ops new_snapshot_cache = new_snapshot_cache \<or>
   (\<exists>snap. (\<exists>e \<in> snd ` set ops. good_answer e = Some snap) \<and>
      sc_loaded (snapshot_run rx ops new_snapshot_cache) \<and>
      sc_snapshot (snapshot_run rx ops new_snapshot_cache) = Some snap \<and>
      sc_version (snapshot_run rx ops new_snapshot_cache) = sd_version snap \<and>
      sc_compiled (snapshot_run rx ops new_snapshot_cache) = compile_endpoints rx snap \<and>
      sc_policies (snapshot_run rx ops new_snapshot_cache) =
        Some (new_policy_index (sd_policies snap) (sd_bindings snap)))"
  using snapshot_run_cases [of rx ops new_snapshot_cache] by auto

text \<open>
  a version poll costs a full refresh exactly when the version differs: a poll that answers the
  version being served, or fails, changes nothing whatever a refresh would have brought, and a poll
  that answers another version is a refresh.
\<close>

theorem snapshot_poll_refreshes_on_change:
  "snapshot_check_version rx a e sc =
     (if good_answer a = None \<or> good_answer a = Some (sc_version sc) then sc else snapshot_refresh rx e sc)"
  using snapshots.check_fails [of a rx e sc] snapshots.check_same [of a sc rx e]
    snapshots.check_changed [of a _ sc rx e]
  by (cases "good_answer a") auto

text \<open>
  a failed refresh keeps the last good snapshot.  A sequence of refreshes none of which brings a
  usable answer leaves a loaded cache as it is, endpoints and policies included.
\<close>

theorem snapshot_outage_keeps_last_good:
  assumes "sc_loaded sc" and "\<And>e. e \<in> set es \<Longrightarrow> good_answer e = None"
  shows "fold (snapshot_refresh rx) es sc = sc"
  using assms snapshots.outage_keeps_view [of es rx sc]
  by (auto simp: snapshot_view_def snapshot_payload_def split: if_splits)

theorem snapshot_outage_keeps_last_good_witness:
  "let sc = compile_snapshot (\<lambda>_. None) \<lparr>sd_version = ''v'', sd_apps = [], sd_policies = [], sd_bindings = []\<rparr>
   in fold (snapshot_refresh (\<lambda>_. None)) [TransportFailed, Response 503 None, Response 200 None] sc = sc"
  unfolding Let_def
  by (rule snapshot_outage_keeps_last_good) auto

section \<open>Matching\<close>

text \<open>Endpoints of a list that fit a method and a path.\<close>

definition fits :: "string \<Rightarrow> string \<Rightarrow> compiled_endpoint \<Rightarrow> bool" where
  "fits meth path ep \<longleftrightarrow> ep_method ep = meth \<and> rx_matches (ce_regex ep) path"

abbreviation shared_endpoint :: "compiled_endpoint \<Rightarrow> bool" where
  "shared_endpoint ep \<equiv> ce_app_id ep = [] \<or> ce_app_id ep = ''*''"

abbreviation or_else :: "'a option \<Rightarrow> 'a option \<Rightarrow> 'a option" where
  "or_else a b \<equiv> (case a of None \<Rightarrow> b | Some x \<Rightarrow> Some x)"

lemma match_loop_find:
  "match_loop app meth path eps shared any =
     or_else (if app = [] then None else find (\<lambda>ep. fits meth path ep \<and> ce_app_id ep = app) eps)
       (or_else (or_else shared (find (\<lambda>ep. fits meth path ep \<and> shared_endpoint ep) eps))
         (if app = [] then or_else any (find (fits meth path) eps) else None))"
  by (induction app meth path eps shared any rule: match_loop.induct)
    (auto simp: fits_def split: option.splits)

text \<open>
  C15: the one-pass matcher is the specification: for a resolved application the first fitting endpoint
  of that application, else the first fitting shared one; for an unresolved application the first
  fitting shared endpoint, else the first fitting endpoint of any application.
\<close>

theorem match_endpoint_spec:
  "match_endpoint sc app meth path =
     (let fitting = filter (fits meth path) (sc_compiled sc) in
      if app = [] then or_else (find shared_endpoint fitting) (find (\<lambda>_. True) fitting)
      else or_else (find (\<lambda>ep. ce_app_id ep = app) fitting) (find shared_endpoint fitting))"
proof -
  have find_filter: "find Q (filter P xs) = find (\<lambda>x. P x \<and> Q x) xs" for P Q and xs :: "compiled_endpoint list"
    by (induction xs) auto
  show ?thesis
    by (auto simp: match_endpoint_def match_loop_find find_filter Let_def split: option.split)
qed

lemma match_endpoint_Some:
  "match_endpoint sc app meth path = Some ep \<Longrightarrow>
     ep \<in> set (sc_compiled sc) \<and> fits meth path ep \<and> (app \<noteq> [] \<longrightarrow> ce_app_id ep = app \<or> shared_endpoint ep)"
  by (auto simp: match_endpoint_def match_loop_find find_Some_iff split: option.splits if_splits
      dest: nth_mem)

text \<open>
  C16: applications are isolated: the endpoint a resolved application is matched to depends only on its
  own and the shared endpoints; adding, removing or changing those of other applications has no effect.
\<close>

theorem match_endpoint_isolated:
  assumes "app \<noteq> []"
    and "filter (\<lambda>ep. ce_app_id ep = app \<or> shared_endpoint ep) (sc_compiled sc) =
         filter (\<lambda>ep. ce_app_id ep = app \<or> shared_endpoint ep) (sc_compiled sc')"
  shows "match_endpoint sc app meth path = match_endpoint sc' app meth path"
proof -
  let ?own = "\<lambda>ep. ce_app_id ep = app \<or> shared_endpoint ep"
  have own: "find (\<lambda>ep. fits meth path ep \<and> Q ep) xs = find (\<lambda>ep. fits meth path ep \<and> Q ep) (filter ?own xs)"
    if "\<And>ep. Q ep \<Longrightarrow> ?own ep" for Q and xs
    using that by (induction xs) auto
  have same: "find (\<lambda>ep. fits meth path ep \<and> Q ep) (sc_compiled sc) =
      find (\<lambda>ep. fits meth path ep \<and> Q ep) (sc_compiled sc')" if "\<And>ep. Q ep \<Longrightarrow> ?own ep" for Q
    by (simp only: own [where Q = Q and xs = "sc_compiled sc", OF that] own [where Q = Q and xs = "sc_compiled sc'", OF that] assms(2))
  have "find (\<lambda>ep. fits meth path ep \<and> ce_app_id ep = app) (sc_compiled sc) =
      find (\<lambda>ep. fits meth path ep \<and> ce_app_id ep = app) (sc_compiled sc')"
    and "find (\<lambda>ep. fits meth path ep \<and> shared_endpoint ep) (sc_compiled sc) =
      find (\<lambda>ep. fits meth path ep \<and> shared_endpoint ep) (sc_compiled sc')"
    by (rule same, blast)+
  then show ?thesis
    using assms(1) by (simp only: match_endpoint_def match_loop_find if_False)
qed

definition sample_endpoint :: "string \<Rightarrow> compiled_endpoint" where
  "sample_endpoint app =
     \<lparr>ep_uid = ''e'', ep_method = ''GET'', ep_path = ''/x'', ep_full_path = ''/x'', ep_path_regex = [],
      ep_access_level = [], ep_required_permission = [], ep_owner_param = [], ep_tags = [],
      ep_rate_limits = Map.empty, ce_app_id = app, ce_regex = literal_regex ''/x''\<rparr>"

theorem match_endpoint_isolated_witness:
  "match_endpoint (new_snapshot_cache\<lparr>sc_compiled := [sample_endpoint ''b'', sample_endpoint ''a'']\<rparr>) ''a'' ''GET'' ''/x'' =
   match_endpoint (new_snapshot_cache\<lparr>sc_compiled := [sample_endpoint ''a'', sample_endpoint ''c'']\<rparr>) ''a'' ''GET'' ''/x''"
  by (rule match_endpoint_isolated) (simp_all add: sample_endpoint_def)

text \<open>Every compiled endpoint is one of the snapshot, under the application that lists it.\<close>

lemma compile_endpoints_mem:
  "ce \<in> set (compile_endpoints rx snap) \<longleftrightarrow>
     (\<exists>app \<in> set (sd_apps snap). \<exists>svc \<in> set (sa_services app). \<exists>ep \<in> set (svc_endpoints svc).
        ce = compile_endpoint rx (sa_app_id app) ep)"
  by (auto simp: compile_endpoints_def)

text \<open>
  a path pattern that does not compile never opens an endpoint up: the endpoint then matches its
  literal full path and no other.
\<close>

theorem invalid_pattern_matches_literally:
  assumes "rx (ep_path_regex ep) = None"
  shows "rx_matches (ce_regex (compile_endpoint rx app ep)) path \<longleftrightarrow> path = ep_full_path ep"
  using assms
  by (simp add: compile_endpoint_def snapshot_endpoint_dto.defs compile_regex_def rx_matches_def literal_regex_def)

theorem invalid_pattern_matches_literally_witness:
  "rx_matches (ce_regex (compile_endpoint (\<lambda>_. None) ''a'' (snapshot_endpoint_dto.truncate (sample_endpoint ''a'')))) ''/y'' \<longleftrightarrow>
   ''/y'' = ep_full_path (snapshot_endpoint_dto.truncate (sample_endpoint ''a''))"
  by (rule invalid_pattern_matches_literally) simp

end
