(* ===== verification/RateLimit.thy ===== *)
theory RateLimit
  imports Redis_Resp
begin

text \<open>
  \<^verbatim>\<open>ratelimit.go\<close>: the fixed-window limiter.  \<open>limiter_check\<close> is \<^verbatim>\<open>RateLimiter.Check\<close>: one INCR of a key
  that names the window, an EXPIRE on the first hit of a window, and a comparison.  Instants are
  nanoseconds since the Unix epoch; the window length is a \<^verbatim>\<open>time.Duration\<close>, so it wraps at 64 bits.
\<close>

section \<open>Definitions\<close>

record rate_limit_result =
  rlr_allowed :: bool
  rlr_remaining :: int
  rlr_limit :: int
  rlr_reset_at :: int

record rate_limiter =
  lim_client :: redis_client
  lim_prefix :: string

datatype limit_error = IncrFailed redis_error | ExpireFailed redis_error

text \<open>What a check comes to: a verdict, an error, or a panic of the client.\<close>

datatype 'e check_result = Checked rate_limit_result | CheckError 'e | CheckPanic

definition second :: int where "second = 1000000000"

text \<open>\<^verbatim>\<open>t.Truncate(d)\<close>: rounds down to a multiple of \<open>d\<close> since the zero time; a no-op for \<open>d \<le> 0\<close>.\<close>

definition since_zero :: "int \<Rightarrow> int" where "since_zero t = t + 62135596800 * second"

definition truncate_time :: "int \<Rightarrow> int \<Rightarrow> int" where
  "truncate_time t d = (if d \<le> 0 then t else t - since_zero t mod d)"

text \<open>\<^verbatim>\<open>t.Unix()\<close>.\<close>

definition unix_seconds :: "int \<Rightarrow> int" where "unix_seconds t = t div second"

definition window_of :: "int \<Rightarrow> int" where "window_of window_seconds = wrap64 (window_seconds * second)"

definition window_key :: "string \<Rightarrow> string \<Rightarrow> string \<Rightarrow> int \<Rightarrow> string" where
  "window_key pfx key uid window_start =
     pfx @ key @ '':'' @ uid @ '':'' @ format_int (unix_seconds window_start)"

text \<open>Seconds until the key may go: the window and one second, at least one.\<close>

definition window_ttl :: "int \<Rightarrow> int" where
  "window_ttl window =
     (let ttl = quot_trunc (wrap64 (window + second)) second in if ttl < 1 then 1 else ttl)"

definition remaining_of :: "int \<Rightarrow> int \<Rightarrow> int" where
  "remaining_of limit count = (let r = wrap64 (limit - count) in if r < 0 then 0 else r)"

text \<open>The clock of the check and the dial events of its two commands.\<close>

record limit_event =
  le_now :: int
  le_incr :: dial_event
  le_expire :: dial_event

definition limiter_check ::
  "limit_event \<Rightarrow> string \<Rightarrow> string \<Rightarrow> int \<Rightarrow> int \<Rightarrow> rate_limiter \<Rightarrow>
   limit_error check_result \<times> rate_limiter" where
  "limiter_check ev key uid limit window_seconds rl =
     (if limit \<le> 0 then (Checked \<lparr>rlr_allowed = False, rlr_remaining = 0, rlr_limit = 0, rlr_reset_at = never\<rparr>, rl)
      else (let window = window_of window_seconds;
                window_start = truncate_time (le_now ev) window;
                reset_at = window_start + window;
                redis_key = window_key (lim_prefix rl) key uid window_start
            in case redis_incr (le_incr ev) redis_key (lim_client rl) of
                 (Failed e, c1) \<Rightarrow> (CheckError (IncrFailed e), rl\<lparr>lim_client := c1\<rparr>)
               | (Panicked, c1) \<Rightarrow> (CheckPanic, rl\<lparr>lim_client := c1\<rparr>)
               | (Value count, c1) \<Rightarrow>
                   (let res = Checked \<lparr>rlr_allowed = (count \<le> limit), rlr_remaining = remaining_of limit count,
                                   rlr_limit = limit, rlr_reset_at = reset_at\<rparr>
                    in if count = 1 then
                         (case redis_expire (le_expire ev) redis_key (window_ttl window) c1 of
                            (Failed e, c2) \<Rightarrow> (CheckError (ExpireFailed e), rl\<lparr>lim_client := c2\<rparr>)
                          | (Panicked, c2) \<Rightarrow> (CheckPanic, rl\<lparr>lim_client := c2\<rparr>)
                          | (Value _, c2) \<Rightarrow> (res, rl\<lparr>lim_client := c2\<rparr>))
                       else (res, rl\<lparr>lim_client := c1\<rparr>))))"

definition new_rate_limiter ::
  "(string \<Rightarrow> parsed_url option) \<Rightarrow> dial_event \<Rightarrow> string \<Rightarrow> string \<Rightarrow> string \<Rightarrow> int \<Rightarrow> url_error + rate_limiter" where
  "new_rate_limiter parse_url ev redis_url password pfx db =
     (case dial_redis parse_url ev redis_url password db of
        Inl e \<Rightarrow> Inl e | Inr c \<Rightarrow> Inr \<lparr>lim_client = c, lim_prefix = pfx\<rparr>)"

definition limiter_close :: "rate_limiter \<Rightarrow> rate_limiter" where
  "limiter_close rl = rl\<lparr>lim_client := redis_close (lim_client rl)\<rparr>"

section \<open>The checker interface\<close>

text \<open>
  \<^verbatim>\<open>rateLimitChecker\<close>: what the request path knows of a limiter.  For a positive limit an answer carries
  that limit, never a negative remainder, and a refusal leaves nothing.
\<close>

locale rate_limit_checker =
  fixes check :: "'ev \<Rightarrow> string \<Rightarrow> string \<Rightarrow> int \<Rightarrow> int \<Rightarrow> 's \<Rightarrow> 'e check_result \<times> 's"
  assumes check_limit: "0 < limit \<Longrightarrow> check ev key uid limit window st = (Checked r, st1) \<Longrightarrow> rlr_limit r = limit"
    and check_remaining: "0 < limit \<Longrightarrow> check ev key uid limit window st = (Checked r, st1) \<Longrightarrow> 0 \<le> rlr_remaining r"
    and check_refusal: "0 < limit \<Longrightarrow> check ev key uid limit window st = (Checked r, st1) \<Longrightarrow> \<not> rlr_allowed r \<Longrightarrow>
           rlr_remaining r = 0"

lemma limiter_check_Checked:
  assumes "limiter_check ev key uid limit window_seconds rl = (Checked r, rl1)" and "0 < limit"
  shows "\<exists>count c1. redis_incr (le_incr ev)
      (window_key (lim_prefix rl) key uid (truncate_time (le_now ev) (window_of window_seconds))) (lim_client rl) =
      (Value count, c1) \<and>
    r = \<lparr>rlr_allowed = (count \<le> limit), rlr_remaining = remaining_of limit count, rlr_limit = limit,
         rlr_reset_at = truncate_time (le_now ev) (window_of window_seconds) + window_of window_seconds\<rparr>"
  using assms
  by (auto simp: limiter_check_def Let_def split: redis_result.splits prod.splits if_splits)

lemma redis_do_int_range:
  "redis_do ev args r = (Value (RInt n), r1) \<Longrightarrow> min_int64 \<le> n \<and> n \<le> max_int64"
proof -
  have reply: "read_resp_reply s = (Value (RInt n), rest) \<Longrightarrow> min_int64 \<le> n \<and> n \<le> max_int64" for s rest
    by (auto simp: read_resp_reply_def parse_int64_def read_bulk_def Let_def
        split: list.splits if_splits option.splits prod.splits)
  have rt: "round_trip args cn = (Value (RInt n), cn1) \<Longrightarrow> min_int64 \<le> n \<and> n \<le> max_int64" for cn cn1
    by (auto simp: round_trip_def Let_def dest: reply split: list.splits bool.splits prod.splits)
  have ex: "redis_exchange args cn r = (Value (RInt n), r1) \<Longrightarrow> min_int64 \<le> n \<and> n \<le> max_int64" for cn r r1
    by (auto simp: redis_exchange_def Let_def dest: rt split: prod.splits redis_result.splits)
  assume "redis_do ev args r = (Value (RInt n), r1)"
  then show ?thesis
    by (auto simp: redis_do_def dest: ex split: option.splits prod.splits redis_result.splits)
qed

lemma redis_incr_range: "redis_incr ev key r = (Value n, r1) \<Longrightarrow> min_int64 \<le> n \<and> n \<le> max_int64"
  by (auto simp: redis_incr_def dest: redis_do_int_range split: prod.splits redis_result.splits resp_value.splits)

lemma remaining_bounds:
  assumes "0 < limit" and "count \<le> max_int64"
  shows "0 \<le> remaining_of limit count" "limit < count \<Longrightarrow> remaining_of limit count = 0"
proof -
  show "0 \<le> remaining_of limit count" by (simp add: remaining_of_def Let_def)
  assume "limit < count"
  with assms have "wrap64 (limit - count) = limit - count"
    by (intro wrap64_id) (auto simp: min_int64_def max_int64_def)
  with \<open>limit < count\<close> show "remaining_of limit count = 0" by (simp add: remaining_of_def)
qed

interpretation limiter: rate_limit_checker limiter_check
proof
  fix limit ev key uid window st r st1
  assume limit: "0 < (limit :: int)" and chk: "limiter_check ev key uid limit window st = (Checked r, st1)"
  obtain count c1 where "count \<le> max_int64"
    and r: "r = \<lparr>rlr_allowed = (count \<le> limit), rlr_remaining = remaining_of limit count, rlr_limit = limit,
         rlr_reset_at = truncate_time (le_now ev) (window_of window) + window_of window\<rparr>"
    using limiter_check_Checked [OF chk limit] redis_incr_range by blast
  then show "rlr_limit r = limit" and "0 \<le> rlr_remaining r"
    and "\<not> rlr_allowed r \<Longrightarrow> rlr_remaining r = 0"
    using remaining_bounds [OF limit, of count] by simp_all
qed

section \<open>Windows\<close>

lemma window_of_small:
  "0 < w \<Longrightarrow> w \<le> 9223372036 \<Longrightarrow> window_of w = w * second \<and> 0 < window_of w"
  by (simp add: window_of_def second_def wrap64_id min_int64_def max_int64_def)

lemma truncate_bounds:
  "0 < d \<Longrightarrow> truncate_time t d \<le> t \<and> t < truncate_time t d + d \<and> since_zero (truncate_time t d) mod d = 0"
proof -
  assume d: "0 < d"
  have "since_zero (truncate_time t d) = since_zero t - since_zero t mod d"
    using d by (simp add: truncate_time_def since_zero_def)
  with d show ?thesis
    using pos_mod_bound [OF d, of "since_zero t"] pos_mod_sign [OF d, of "since_zero t"]
    by (simp add: truncate_time_def minus_mod_eq_mult_div)
qed

lemma multiples_apart:
  fixes a b d :: int
  assumes "a mod d = 0" and "b mod d = 0" and "a - b < d" and "b - a < d"
  shows "a = b"
proof -
  have "d dvd a - b" using assms(1,2) by (intro dvd_diff) auto
  then obtain k where k: "a - b = d * k" by (rule dvdE)
  have d: "0 < d" using assms(3,4) by linarith
  from k assms(3) have "d * k < d * 1" by simp
  then have "k < 1" using d by simp
  moreover from k assms(4) have "d * (-1) < d * k" by simp
  then have "-1 < k" by (simp only: mult_less_cancel_left_pos [OF d])
  ultimately have "k = 0" by simp
  with k show ?thesis by simp
qed

text \<open>
  windows partition time.  For a window of 1 to 9223372036 seconds, the window start is at most now,
  less than a window before now, and the same for two instants exactly when no window boundary lies
  between them; so the reset time is the next boundary, at most a window ahead.
\<close>

theorem windows_partition_time:
  assumes "0 < w" and "w \<le> 9223372036"
  shows "truncate_time t (window_of w) \<le> t \<and> t < truncate_time t (window_of w) + window_of w \<and>
    (truncate_time t (window_of w) = truncate_time t' (window_of w) \<longleftrightarrow>
     truncate_time t (window_of w) \<le> t' \<and> t' < truncate_time t (window_of w) + window_of w)"
proof -
  let ?d = "window_of w"
  have d: "0 < ?d" using window_of_small [OF assms] by simp
  note b = truncate_bounds [OF d]
  have same: "truncate_time t ?d = truncate_time t' ?d"
    if "truncate_time t ?d \<le> t'" and "t' < truncate_time t ?d + ?d"
  proof -
    have "since_zero (truncate_time t ?d) = since_zero (truncate_time t' ?d)"
    proof (rule multiples_apart)
      show "since_zero (truncate_time t ?d) mod ?d = 0" and "since_zero (truncate_time t' ?d) mod ?d = 0"
        using b by blast+
      show "since_zero (truncate_time t ?d) - since_zero (truncate_time t' ?d) < ?d"
        and "since_zero (truncate_time t' ?d) - since_zero (truncate_time t ?d) < ?d"
        using that b [of t'] unfolding since_zero_def by linarith+
    qed
    then show ?thesis unfolding since_zero_def by linarith
  qed
  have "truncate_time t ?d \<le> t' \<and> t' < truncate_time t ?d + ?d" if "truncate_time t ?d = truncate_time t' ?d"
    using b [of t'] unfolding that by blast
  with same b [of t] show ?thesis by blast
qed

theorem windows_partition_time_witness:
  "truncate_time 5 (window_of 60) \<le> 5 \<and> 5 < truncate_time 5 (window_of 60) + window_of 60 \<and>
    (truncate_time 5 (window_of 60) = truncate_time 70000000000 (window_of 60) \<longleftrightarrow>
     truncate_time 5 (window_of 60) \<le> 70000000000 \<and> 70000000000 < truncate_time 5 (window_of 60) + window_of 60)"
  by (rule windows_partition_time) simp_all

lemma format_int_chars: "c \<in> set (format_int i) \<Longrightarrow> is_digit c \<or> c = CHR ''-''"
  using format_nat_digits by (auto simp: format_int_def list_all_iff split: if_splits)

lemma format_int_inj: "format_int i = format_int j \<Longrightarrow> i = j"
proof -
  have minus: "CHR ''-'' \<notin> set (format_nat n)" for n
    by (rule format_nat_no_char) (simp add: is_digit_def)
  have head: "format_nat n \<noteq> CHR ''-'' # s" for n s
    using minus [of n] by (metis list.set_intros(1))
  assume *: "format_int i = format_int j"
  show "i = j"
  proof (cases "i < 0"; cases "j < 0")
    assume "i < 0" and "j < 0"
    with * show ?thesis by (auto simp: format_int_def dest: format_nat_inj)
  next
    assume "i < 0" and "\<not> j < 0"
    with * head show ?thesis by (auto simp: format_int_def) (metis head)
  next
    assume "\<not> i < 0" and "j < 0"
    with * head show ?thesis by (auto simp: format_int_def)
  next
    assume "\<not> i < 0" and "\<not> j < 0"
    with * show ?thesis by (auto simp: format_int_def dest: format_nat_inj)
  qed
qed


lemma colon_not_in_int: "CHR '':'' \<notin> set (format_int i)"
  using format_int_chars [of "CHR '':''" i] by (auto simp: is_digit_def)

section \<open>Counters\<close>

text \<open>
  a counter belongs to one limit key, one endpoint and one window.  As endpoint ids hold no colon, two
  checks of a limiter use the same Redis key only when the limit key, the endpoint and the second the
  window starts in all agree, whatever colons a client puts into its session or device id.
\<close>

theorem window_key_unambiguous:
  assumes "CHR '':'' \<notin> set uid" and "CHR '':'' \<notin> set uid'"
    and "window_key pfx key uid start = window_key pfx key' uid' start'"
  shows "key = key' \<and> uid = uid' \<and> unix_seconds start = unix_seconds start'"
proof -
  have eq: "(key @ CHR '':'' # uid) @ CHR '':'' # format_int (unix_seconds start) =
      (key' @ CHR '':'' # uid') @ CHR '':'' # format_int (unix_seconds start')"
    using assms(3) by (simp add: window_key_def)
  have "key @ CHR '':'' # uid = key' @ CHR '':'' # uid' \<and>
      format_int (unix_seconds start) = format_int (unix_seconds start')"
    by (rule last_sep_inj [OF eq colon_not_in_int colon_not_in_int])
  with last_sep_inj [of key "CHR '':''" uid key' uid'] assms(1,2) show ?thesis
    by (blast dest: format_int_inj)
qed

theorem window_key_unambiguous_witness:
  "''a'' = ''a'' \<and> ''e'' = ''e'' \<and> unix_seconds 60000000000 = unix_seconds 60999999999"
  by (rule window_key_unambiguous [where pfx = "''gw:rl:''"]) (simp_all add: window_key_def unix_seconds_def second_def)

text \<open>The INCR reply of a check, and whether the check let the request through.\<close>

definition incr_reply :: "string \<Rightarrow> string \<Rightarrow> int \<Rightarrow> limit_event \<times> rate_limiter \<Rightarrow> int option" where
  "incr_reply key uid w c =
     (case c of (ev, rl) \<Rightarrow>
        (case fst (redis_incr (le_incr ev)
                (window_key (lim_prefix rl) key uid (truncate_time (le_now ev) (window_of w))) (lim_client rl)) of
           Value n \<Rightarrow> Some n | _ \<Rightarrow> None))"

definition admitted :: "string \<Rightarrow> string \<Rightarrow> int \<Rightarrow> int \<Rightarrow> limit_event \<times> rate_limiter \<Rightarrow> bool" where
  "admitted key uid limit w c =
     (case c of (ev, rl) \<Rightarrow>
        (case fst (limiter_check ev key uid limit w rl) of Checked r \<Rightarrow> rlr_allowed r | _ \<Rightarrow> False))"

lemma admitted_count:
  assumes "0 < limit" and "admitted key uid limit w c"
  shows "\<exists>n. incr_reply key uid w c = Some n \<and> n \<le> limit"
proof -
  obtain ev rl where c: "c = (ev, rl)" by (cases c)
  from assms(2) obtain r rl1 where chk: "limiter_check ev key uid limit w rl = (Checked r, rl1)" and "rlr_allowed r"
    by (cases "limiter_check ev key uid limit w rl") (auto simp: admitted_def c split: check_result.splits)
  with limiter_check_Checked [OF chk assms(1)] show ?thesis
    by (auto simp: incr_reply_def c)
qed

lemma map_filter_Some:
  "(\<And>c. c \<in> set cs \<Longrightarrow> f c \<noteq> None) \<Longrightarrow> length (List.map_filter f cs) = length cs"
  by (induction cs) (auto simp: List.map_filter_def)

lemma map_filter_sub: "distinct (List.map_filter f cs) \<Longrightarrow> distinct (List.map_filter f (filter P cs))"
proof -
  assume *: "distinct (List.map_filter f cs)"
  have "filter (\<lambda>x. f x \<noteq> None) (filter P cs) = filter P (filter (\<lambda>x. f x \<noteq> None) cs)"
    by (simp add: conj_commute)
  with * show ?thesis unfolding List.map_filter_def by (simp only: distinct_map_filter)
qed

lemma admitted_bound:
  assumes "0 < limit"
    and "distinct (List.map_filter (incr_reply key uid w) cs)"
    and "\<And>n. n \<in> set (List.map_filter (incr_reply key uid w) cs) \<Longrightarrow> 1 \<le> n"
  shows "length (filter (admitted key uid limit w) cs) \<le> nat limit"
proof -
  let ?adm = "filter (admitted key uid limit w) cs"
  let ?ns = "List.map_filter (incr_reply key uid w) ?adm"
  have len: "length ?ns = length ?adm"
    using admitted_count [OF assms(1)] by (intro map_filter_Some) (metis option.distinct(1) mem_Collect_eq set_filter)
  have "distinct ?ns" using assms(2) by (rule map_filter_sub)
  moreover have "set ?ns \<subseteq> {1..limit}"
  proof
    fix n assume "n \<in> set ?ns"
    then obtain c where c: "c \<in> set cs" "admitted key uid limit w c" "incr_reply key uid w c = Some n"
      by (auto simp: List.map_filter_def)
    then have "1 \<le> n" by (intro assms(3)) (force simp: List.map_filter_def)
    with admitted_count [OF assms(1) c(2)] c(3) show "n \<in> {1..limit}" by simp
  qed
  ultimately have "length ?ns \<le> card {1..limit}"
    by (metis card_mono distinct_card finite_atLeastAtMost_int)
  with len show ?thesis by simp
qed

text \<open>
  at most \<open>limit\<close> requests are admitted per window.  For any checks of one key and endpoint whose INCR
  replies are distinct positive counts, which is what Redis gives the hits of one counter whichever
  gateway instance sends them, no more than \<open>limit\<close> are allowed.
\<close>

theorem window_admits_at_most_limit:
  assumes "0 < limit"
    and "distinct (List.map_filter (incr_reply key uid w) cs)"
    and "\<And>n. n \<in> set (List.map_filter (incr_reply key uid w) cs) \<Longrightarrow> 1 \<le> n"
  shows "length (filter (admitted key uid limit w) cs) \<le> nat limit"
  using assms by (rule admitted_bound)

text \<open>A limiter on an open connection whose peer has queued the given replies.\<close>

definition sample_limiter :: "string \<Rightarrow> rate_limiter" where
  "sample_limiter replies =
     \<lparr>lim_client = \<lparr>rc_addr = ''h:1'', rc_use_tls = False, rc_pwd = [], rc_db = 0,
        rc_conn = Some \<lparr>cn_in = replies, cn_writes = [], cn_out = []\<rparr>, rc_retry_at = never\<rparr>,
      lim_prefix = ''gw:rl:''\<rparr>"

definition sample_limit_event :: limit_event where
  "sample_limit_event = \<lparr>le_now = 0, le_incr = \<lparr>de_now = 0, de_fail_now = 0, de_dial = NoRoute\<rparr>,
     le_expire = \<lparr>de_now = 0, de_fail_now = 0, de_dial = NoRoute\<rparr>\<rparr>"

lemma read_one_digit:
  "is_digit d \<Longrightarrow> read_resp_reply (CHR '':'' # d # CHR 0x0D # CHR 0x0A # rest) = (Value (RInt (int (digit_val d))), rest)"
  using digit_not_sign [of d]
  by (auto simp: read_resp_reply_def read_line_def line_body_def parse_int64_def parse_digits_def digits_val_def
      min_int64_def max_int64_def digit_val_def is_digit_def of_char_le)

lemma sample_incr_reply:
  "is_digit d \<Longrightarrow> incr_reply key uid w (sample_limit_event, sample_limiter (CHR '':'' # d # CHR 0x0D # CHR 0x0A # rest)) =
     Some (int (digit_val d))"
  by (simp add: incr_reply_def redis_incr_def redis_do_def redis_exchange_def round_trip_def sample_limiter_def
      read_one_digit)

theorem window_admits_at_most_limit_witness:
  "length (filter (admitted ''app:a|user:7'' ''ep'' 1 60)
     [(sample_limit_event, sample_limiter (CHR '':'' # CHR ''1'' # CHR 0x0D # CHR 0x0A # '':1'' @ crlf)),
      (sample_limit_event, sample_limiter (CHR '':'' # CHR ''2'' # CHR 0x0D # CHR 0x0A # []))]) \<le> nat 1"
  by (rule window_admits_at_most_limit)
    (auto simp: List.map_filter_def sample_incr_reply is_digit_def digit_val_def of_char_le)

text \<open>
  a counter outlives its window: the time to live the first hit sets is the window and one second, so
  Redis does not forget a count while requests are still measured against it.
\<close>

theorem counter_outlives_window:
  assumes "0 < w" and "w \<le> 9223372035"
  shows "window_ttl (window_of w) = w + 1 \<and> t < truncate_time t (window_of w) + window_ttl (window_of w) * second"
proof -
  have "window_of w = w * second" and pos: "0 < window_of w" using window_of_small [of w] assms by simp_all
  moreover have "wrap64 (w * second + second) = (w + 1) * second"
    using assms by (subst wrap64_id) (simp_all add: second_def min_int64_def max_int64_def)
  ultimately have ttl: "window_ttl (window_of w) = w + 1"
    using assms(1) by (simp add: window_ttl_def quot_trunc_def second_def)
  with truncate_bounds [OF pos, of t] \<open>window_of w = w * second\<close> show ?thesis
    by (simp add: second_def)
qed

theorem counter_outlives_window_witness:
  "window_ttl (window_of 60) = 60 + 1 \<and> 5 < truncate_time 5 (window_of 60) + window_ttl (window_of 60) * second"
  by (rule counter_outlives_window) simp_all

end
