(* ===== verification/Gateway.thy ===== *)
theory Gateway
  imports Config Logger Identity Registry Snapshot RateLimit
begin

text \<open>
  \<^verbatim>\<open>plugin.go\<close>, first part: the plugin instance and its construction (\<^verbatim>\<open>New\<close>, \<^verbatim>\<open>buildKeycloakAppSet\<close>),
  the exchange a request runs through, and the helpers the two authorization engines share (CORS, request
  id, host source, owner extraction, rate-limit choice, credential checks).

  An exchange carries the response writer, the request as it is edited, the stateful collaborators (JWKS
  caches, plan cache, limiter), the reason codes logged and whether the request was handed to the next
  handler.  What a request reads from outside (clocks, randomness, HTTP answers, and the registry caches,
  which pollers may replace at any moment) is its environment: every read of a cache has its own field,
  so the theorems hold for all interleavings with the pollers.
\<close>

section \<open>The plugin\<close>

record realm =
  rlm_issuer :: string
  rlm_jwks_url :: string

record gateway =
  gw_config :: config
  gw_log :: log_level
  gw_policy_mode :: bool
  gw_has_registry :: bool
  gw_has_limiter :: bool
  gw_realms :: "string \<rightharpoonup> realm"
  gw_leeway :: int
  gw_operator :: "realm option"

text \<open>
  The library functions and interfaces the request path calls: lower-casing beyond ASCII, the JSON parser,
  the signature check, and the \<^verbatim>\<open>rateLimitChecker\<close>.
\<close>

record ('ev, 's, 'e) libs =
  lib_uni :: "string \<Rightarrow> string"
  lib_unmarshal :: "string \<Rightarrow> json option"
  lib_verify :: "string \<Rightarrow> string \<Rightarrow> string \<Rightarrow> rsa_key \<Rightarrow> bool"
  lib_check :: "'ev \<Rightarrow> string \<Rightarrow> string \<Rightarrow> int \<Rightarrow> int \<Rightarrow> 's \<Rightarrow> 'e check_result \<times> 's"

record 'ev env =
  en_random :: "string option"
  en_nano :: int
  en_resolve_registry :: app_registry
  en_cold_registry :: app_registry
  en_active_registry :: app_registry
  en_ids_registry :: app_registry
  en_loaded_snapshot :: snapshot_cache
  en_match_snapshot :: snapshot_cache
  en_host_match_snapshot :: snapshot_cache
  en_policy_snapshot :: snapshot_cache
  en_jwt_now :: int
  en_jwks :: jwks_event
  en_plan :: plan_event
  en_limit :: 'ev
  en_retry_now :: int

section \<open>Exchanges\<close>

datatype auth_error = IssuerNotAccepted | TokenRejected keycloak_error

datatype message = Text string | AuthFailure auth_error

record identity_doc =
  me_subject :: string
  me_user_id :: string
  me_home_app :: string
  me_roles :: "string list"
  me_policies :: "string list"
  me_permissions :: "string \<rightharpoonup> string list"

datatype doc = ErrorDoc string message | IdentityDoc identity_doc

text \<open>The policy verdict that the legacy engine logs.\<close>

record shadow =
  sh_allowed :: bool
  sh_required :: string
  sh_unbound :: "string list"
  sh_admin :: bool

record 's exchange =
  x_rw :: "doc response"
  x_req :: request
  x_jwks :: "string \<rightharpoonup> jwks_cache"
  x_plans :: plan_resolver
  x_limiter :: 's
  x_reasons :: "string list"
  x_shadows :: "shadow list"
  x_forwarded :: bool
  x_panicked :: bool

definition set_header :: "string \<Rightarrow> string \<Rightarrow> 's exchange \<Rightarrow> 's exchange" where
  "set_header k v x = x\<lparr>x_req := set_req_header k v (x_req x)\<rparr>"

definition del_header :: "string \<Rightarrow> 's exchange \<Rightarrow> 's exchange" where
  "del_header k x = x\<lparr>x_req := del_req_header k (x_req x)\<rparr>"

abbreviation get_header :: "'s exchange \<Rightarrow> string \<Rightarrow> string" where
  "get_header x k \<equiv> get_req_header (x_req x) k"

definition set_reply_header :: "string \<Rightarrow> string \<Rightarrow> 's exchange \<Rightarrow> 's exchange" where
  "set_reply_header k v x = x\<lparr>x_rw := set_rsp_header k v (x_rw x)\<rparr>"

definition reply :: "int \<Rightarrow> doc \<Rightarrow> 's exchange \<Rightarrow> 's exchange" where
  "reply status d x = x\<lparr>x_rw := write_json (x_rw x) status d\<rparr>"

definition log_reason :: "gateway \<Rightarrow> log_level \<Rightarrow> string \<Rightarrow> 's exchange \<Rightarrow> 's exchange" where
  "log_reason gw level reason x =
     (if log_enabled (Some (gw_log gw)) level then x\<lparr>x_reasons := x_reasons x @ [reason]\<rparr> else x)"

text \<open>\<^verbatim>\<open>forward\<close>: the single exit to the next handler.\<close>

definition forward :: "'s exchange \<Rightarrow> 's exchange" where
  "forward x = x\<lparr>x_forwarded := True\<rparr>"

section \<open>Reason codes\<close>

definition reason_no_token :: string where "reason_no_token = ''no_token''"
definition reason_issuer_rejected :: string where "reason_issuer_rejected = ''issuer_rejected''"
definition reason_unknown_app :: string where "reason_unknown_app = ''unknown_app''"
definition reason_no_matching_statement :: string where "reason_no_matching_statement = ''no_matching_statement''"
definition reason_owner_mismatch :: string where "reason_owner_mismatch = ''owner_mismatch''"
definition reason_endpoint_not_exposed :: string where "reason_endpoint_not_exposed = ''endpoint_not_exposed''"

definition forbidden_doc :: "string \<Rightarrow> doc" where "forbidden_doc m = ErrorDoc ''forbidden'' (Text m)"
definition unauthorized_doc :: "string \<Rightarrow> doc" where "unauthorized_doc m = ErrorDoc ''unauthorized'' (Text m)"

section \<open>Construction\<close>

datatype new_error =
    BadAuthorizationMode string
  | RedisInitFailed url_error
  | KeycloakAppsWithoutJwksUrl
  | KeycloakAppsWithoutIssuer
  | IncompleteRealm string
  | WrongJwksCache string
  | IncompleteOperatorRealm

text \<open>The two loops of \<^verbatim>\<open>buildKeycloakAppSet\<close>; the realms are an association list with distinct keys.\<close>

fun add_keycloak_apps ::
  "config \<Rightarrow> string list \<Rightarrow> (string \<times> keycloak_realm) list \<Rightarrow> new_error + (string \<times> keycloak_realm) list" where
  "add_keycloak_apps cfg [] realms = Inr realms"
| "add_keycloak_apps cfg (a # as) realms =
     (let app = trim_space a in
      if app = [] then add_keycloak_apps cfg as realms
      else if cfg_keycloak_jwks_url cfg = [] then Inl KeycloakAppsWithoutJwksUrl
      else if cfg_keycloak_issuer cfg = [] then Inl KeycloakAppsWithoutIssuer
      else add_keycloak_apps cfg as (AList.update app
             \<lparr>kr_app_id = app, kr_issuer = cfg_keycloak_issuer cfg, kr_jwks_url = cfg_keycloak_jwks_url cfg\<rparr> realms))"

fun add_keycloak_realms ::
  "keycloak_realm list \<Rightarrow> (string \<times> keycloak_realm) list \<Rightarrow> new_error + (string \<times> keycloak_realm) list" where
  "add_keycloak_realms [] realms = Inr realms"
| "add_keycloak_realms (r # rs) realms =
     (let r1 = r\<lparr>kr_app_id := trim_space (kr_app_id r)\<rparr> in
      if kr_app_id r1 = [] \<or> kr_issuer r1 = [] \<or> kr_jwks_url r1 = [] then Inl (IncompleteRealm (kr_app_id r1))
      else add_keycloak_realms rs (AList.update (kr_app_id r1) r1 realms))"

definition build_keycloak_app_set :: "config \<Rightarrow> new_error + (string \<times> keycloak_realm) list" where
  "build_keycloak_app_set cfg =
     (case add_keycloak_apps cfg (cfg_keycloak_apps cfg) [] of
        Inl e \<Rightarrow> Inl e | Inr realms \<Rightarrow> add_keycloak_realms (cfg_keycloak_realms cfg) realms)"

text \<open>The caches shared by all plugin instances of the process, one per URL.\<close>

record shared_caches =
  sh_snapshots :: "string \<rightharpoonup> snapshot_cache"
  sh_registries :: "string \<rightharpoonup> app_registry"
  sh_jwks :: "string \<rightharpoonup> jwks_cache"

text \<open>What the first use of a cache fetches, and the dial of the limiter's connection.\<close>

record new_env =
  ne_snapshot :: "snapshot_dto http_outcome"
  ne_registry :: "app_registry_dto http_outcome"
  ne_jwks :: "string \<Rightarrow> jwks_event"
  ne_dial :: dial_event

definition authorization_mode_valid :: "(string \<Rightarrow> string) \<Rightarrow> string \<Rightarrow> bool" where
  "authorization_mode_valid uni mode =
     (let m = to_lower uni (trim_space mode) in m = [] \<or> m = ''legacy'' \<or> m = ''policy'')"

text \<open>The realms of the configuration, each with its shared JWKS cache (created where it is missing).\<close>

definition wire_realms ::
  "new_env \<Rightarrow> int \<Rightarrow> (string \<times> keycloak_realm) list \<Rightarrow> (string \<rightharpoonup> jwks_cache) \<Rightarrow>
   (string \<rightharpoonup> realm) \<times> (string \<rightharpoonup> jwks_cache)" where
  "wire_realms ne cooldown realms jwks =
     fold (\<lambda>(app, r) (m, sh).
        (m(app \<mapsto> \<lparr>rlm_issuer = kr_issuer r, rlm_jwks_url = kr_jwks_url r\<rparr>),
         get_shared_jwks_cache (kr_jwks_url r) cooldown (ne_jwks ne (kr_jwks_url r)) sh))
       realms (Map.empty, jwks)"

text \<open>
  \<^verbatim>\<open>plugin.keycloakRealms[app].jwks.(*JWKSCache).url\<close>: the URL of the cache that the built realm of an application is
  bound to.  The pointer to a shared cache is the URL it is filed under.
\<close>

definition bound_cache_url :: "(string \<rightharpoonup> realm) \<Rightarrow> (string \<rightharpoonup> jwks_cache) \<Rightarrow> string \<Rightarrow> string option" where
  "bound_cache_url rmap jwks app =
     (case rmap app of None \<Rightarrow> None | Some rlm \<Rightarrow> map_option jc_url (jwks (rlm_jwks_url rlm)))"

text \<open>The check that no built realm is bound to the cache of another URL: the first offending application.\<close>

definition miswired ::
  "(string \<times> keycloak_realm) list \<Rightarrow> (string \<rightharpoonup> realm) \<Rightarrow> (string \<rightharpoonup> jwks_cache) \<Rightarrow> string option" where
  "miswired realms rmap jwks =
     map_option fst (find (\<lambda>(app, r). bound_cache_url rmap jwks app \<noteq> Some (kr_jwks_url r)) realms)"

definition rate_limiter_of ::
  "(string \<Rightarrow> parsed_url option) \<Rightarrow> new_env \<Rightarrow> config \<Rightarrow> url_error + rate_limiter option" where
  "rate_limiter_of parse_url ne cfg =
     (if cfg_disable_rate_limit cfg then Inr None
      else (case new_rate_limiter parse_url (ne_dial ne) (cfg_redis_url cfg) (cfg_redis_password cfg)
                   (cfg_redis_prefix cfg) (cfg_redis_db cfg) of
              Inl e \<Rightarrow> Inl e | Inr rl \<Rightarrow> Inr (Some rl)))"

text \<open>\<^verbatim>\<open>New\<close>: the instance with its limiter and plan resolver, and the shared caches after the call.\<close>

definition new_gateway ::
  "(string \<Rightarrow> string) \<Rightarrow> (string \<Rightarrow> regex option) \<Rightarrow> (string \<Rightarrow> parsed_url option) \<Rightarrow> new_env \<Rightarrow> config option \<Rightarrow>
   shared_caches \<Rightarrow> (new_error + gateway \<times> rate_limiter option \<times> plan_resolver) \<times> shared_caches" where
  "new_gateway uni rx parse_url ne config sh =
     (let cfg = (case config of None \<Rightarrow> create_config | Some c \<Rightarrow> c) in
      if \<not> authorization_mode_valid uni (cfg_authorization_mode cfg)
      then (Inl (BadAuthorizationMode (cfg_authorization_mode cfg)), sh)
      else (let sh1 = sh\<lparr>sh_snapshots := snd (get_shared_snapshot_cache rx (cfg_service_service_url cfg)
                                                (ne_snapshot ne) (sh_snapshots sh))\<rparr>;
                has_registry = (cfg_app_resolution_mode cfg \<noteq> ''disabled'');
                sh2 = (if has_registry
                       then sh1\<lparr>sh_registries := snd (get_shared_app_registry uni (cfg_application_service_url cfg)
                                                       (ne_registry ne) (sh_registries sh1))\<rparr>
                       else sh1)
            in case rate_limiter_of parse_url ne cfg of
                 Inl e \<Rightarrow> (Inl (RedisInitFailed e), sh2)
               | Inr limiter \<Rightarrow>
                   (case build_keycloak_app_set cfg of
                      Inl e \<Rightarrow> (Inl e, sh2)
                    | Inr realms \<Rightarrow>
                        (let cooldown = parse_duration (cfg_jwks_refetch_cooldown cfg) 30000000000;
                             (rmap, jwks) = wire_realms ne cooldown realms (sh_jwks sh2);
                             sh3 = sh2\<lparr>sh_jwks := jwks\<rparr>;
                             op1 = cfg_operator_realm cfg;
                             gw = \<lparr>gw_config = cfg, gw_log = parse_log_level uni (cfg_log_level cfg),
                                   gw_policy_mode = equal_fold (cfg_authorization_mode cfg) ''policy'',
                                   gw_has_registry = has_registry, gw_has_limiter = (limiter \<noteq> None),
                                   gw_realms = rmap,
                                   gw_leeway = wrap64 (cfg_keycloak_clock_skew_seconds cfg * second),
                                   gw_operator = None\<rparr>;
                             plans = new_plan_resolver (cfg_service_service_url cfg)
                         in case miswired realms rmap jwks of
                              Some app \<Rightarrow> (Inl (WrongJwksCache app), sh3)
                            | None \<Rightarrow>
                                if kr_issuer op1 = [] \<and> kr_jwks_url op1 = []
                                then (Inr (gw, limiter, plans), sh3)
                                else if kr_issuer op1 = [] \<or> kr_jwks_url op1 = []
                                then (Inl IncompleteOperatorRealm, sh3)
                                else (Inr (gw\<lparr>gw_operator := Some \<lparr>rlm_issuer = kr_issuer op1,
                                                                  rlm_jwks_url = kr_jwks_url op1\<rparr>\<rparr>, limiter, plans),
                                      sh3\<lparr>sh_jwks := get_shared_jwks_cache (kr_jwks_url op1) cooldown
                                                        (ne_jwks ne (kr_jwks_url op1)) (sh_jwks sh3)\<rparr>)))))"


section \<open>Request helpers\<close>

definition keycloak_realm_for :: "gateway \<Rightarrow> string \<Rightarrow> realm option" where
  "keycloak_realm_for gw app = (if app = [] then None else gw_realms gw app)"

text \<open>The key source of a realm: the shared cache of its JWKS URL.\<close>

definition realm_key_for ::
  "jwks_event \<Rightarrow> string \<Rightarrow> string \<Rightarrow> (string \<rightharpoonup> jwks_cache) \<Rightarrow> (string + rsa_key option) \<times> (string \<rightharpoonup> jwks_cache)" where
  "realm_key_for ev url kid jwks =
     (case jwks url of
        None \<Rightarrow> (Inl kid, jwks)
      | Some jc \<Rightarrow> (case key_for_kid ev kid jc of (r, jc1) \<Rightarrow> (r, jwks(url \<mapsto> jc1))))"

definition parse_keycloak_auth ::
  "('ev, 's, 'e) libs \<Rightarrow> gateway \<Rightarrow> 'ev env \<Rightarrow> realm \<Rightarrow> string \<Rightarrow> (string \<rightharpoonup> jwks_cache) \<Rightarrow>
   (keycloak_error + token_claims option) \<times> (string \<rightharpoonup> jwks_cache)" where
  "parse_keycloak_auth lib gw env rlm auth jwks =
     (if auth = [] then (Inr None, jwks)
      else parse_keycloak_jwt (lib_unmarshal lib) (lib_verify lib) (realm_key_for (en_jwks env) (rlm_jwks_url rlm))
             (rlm_issuer rlm) (cfg_keycloak_user_id_claim (gw_config gw)) (gw_leeway gw)
             (cfg_keycloak_admin_roles (gw_config gw)) (en_jwt_now env) auth jwks)"

definition authz_from_token_roles :: "token_claims \<Rightarrow> user_authz" where
  "authz_from_token_roles tc =
     \<lparr>ua_roles = tc_roles tc, ua_permissions = (if tc_is_admin tc then [''*''] else []),
      ua_is_admin = tc_is_admin tc\<rparr>"

definition stamp_authz_headers :: "gateway \<Rightarrow> user_authz option \<Rightarrow> 's exchange \<Rightarrow> 's exchange" where
  "stamp_authz_headers gw authz x =
     (case authz of
        None \<Rightarrow> x
      | Some ua \<Rightarrow>
          (let x1 = (if ua_is_admin ua then set_header (cfg_is_admin_header (gw_config gw)) ''true'' x else x)
           in if ua_roles ua \<noteq> []
              then set_header (cfg_user_roles_header (gw_config gw)) (join '','' (ua_roles ua)) x1 else x1))"

text \<open>One configured origin pattern against the request's origin.\<close>

definition origin_matches :: "string \<Rightarrow> string \<Rightarrow> bool" where
  "origin_matches allowed origin \<longleftrightarrow>
     allowed = origin \<or>
     (has_prefix allowed ''https://*.'' \<and> has_prefix origin ''https://'' \<and>
      has_suffix origin (drop (length ''https://*'') allowed)) \<or>
     (has_prefix allowed ''http://*.'' \<and> has_prefix origin ''http://'' \<and>
      has_suffix origin (drop (length ''http://*'') allowed))"

definition cors_expose_headers :: string where
  "cors_expose_headers = ''X-RateLimit-Limit, X-RateLimit-Remaining, X-RateLimit-Reset, Retry-After''"

definition apply_cors_headers :: "gateway \<Rightarrow> string \<Rightarrow> doc response \<Rightarrow> doc response \<times> bool" where
  "apply_cors_headers gw origin rw =
     (if list_ex (\<lambda>allowed. origin_matches allowed origin) (cfg_cors_allowed_origins (gw_config gw)) then
        (let rw1 = set_rsp_header ''Access-Control-Allow-Origin'' origin rw;
             rw2 = (if cfg_cors_allow_credentials (gw_config gw)
                    then set_rsp_header ''Access-Control-Allow-Credentials'' ''true'' rw1 else rw1);
             rw3 = set_rsp_header ''Access-Control-Expose-Headers'' cors_expose_headers rw2
         in (add_rsp_header ''Vary'' ''Origin'' rw3, True))
      else (rw, False))"

text \<open>\<^verbatim>\<open>hex.EncodeToString\<close> and \<^verbatim>\<open>strconv.FormatInt(n, 16)\<close>.\<close>

definition hex_char :: "nat \<Rightarrow> char" where
  "hex_char d = (if d < 10 then char_of (48 + d) else char_of (87 + d))"

definition hex_encode :: "string \<Rightarrow> string" where
  "hex_encode s = concat (map (\<lambda>c. let n = of_char c in [hex_char (n div 16), hex_char (n mod 16)]) s)"

fun format_hex_nat :: "nat \<Rightarrow> string" where
  "format_hex_nat n = (if n < 16 then [hex_char n] else format_hex_nat (n div 16) @ [hex_char (n mod 16)])"

declare format_hex_nat.simps [simp del]

definition format_hex :: "int \<Rightarrow> string" where
  "format_hex i = (if i < 0 then CHR ''-'' # format_hex_nat (nat (- i)) else format_hex_nat (nat i))"

definition request_id_header :: string where "request_id_header = ''X-Request-ID''"

definition ensure_request_id :: "'ev env \<Rightarrow> 's exchange \<Rightarrow> 's exchange" where
  "ensure_request_id env x =
     (let rid = trim_space (get_header x request_id_header) in
      if rid = [] then
        (let rid1 = (case en_random env of None \<Rightarrow> format_hex (en_nano env) | Some b \<Rightarrow> hex_encode b)
         in set_reply_header request_id_header rid1 (set_header request_id_header rid1 x))
      else set_reply_header request_id_header rid x)"

definition legacy_api_key_prefix :: string where "legacy_api_key_prefix = ''fc_''"
definition legacy_api_key_uid_header :: string where "legacy_api_key_uid_header = ''X-Api-Key-Uid''"

definition has_legacy_api_key :: "request \<Rightarrow> string \<Rightarrow> bool" where
  "has_legacy_api_key req jwt_header_key =
     (if has_prefix (trim_space (get_req_header req ''X-Api-Key'')) legacy_api_key_prefix then True
      else has_prefix (trim_space (trim_prefix (get_req_header req jwt_header_key) ''Bearer '')) legacy_api_key_prefix)"

definition api_key_message :: string where
  "api_key_message =
     ''api keys are no longer accepted; authenticate with an access token from the application's login (OAuth 2.1)''"

definition reject_legacy_api_key :: "gateway \<Rightarrow> 's exchange \<Rightarrow> 's exchange" where
  "reject_legacy_api_key gw x =
     reply 401 (unauthorized_doc api_key_message) (log_reason gw LevelWarn reason_issuer_rejected x)"

definition resolution_host :: "gateway \<Rightarrow> request \<Rightarrow> string" where
  "resolution_host gw req =
     (let h = get_req_header req ''X-Forwarded-Host'' in
      if cfg_trust_forwarded_host (gw_config gw) \<and> h \<noteq> []
      then trim_space (case index_byte h (CHR '','') of None \<Rightarrow> h | Some i \<Rightarrow> take i h)
      else req_host req)"

definition resolve_rate_limit :: "gateway \<Rightarrow> compiled_endpoint \<Rightarrow> string \<Rightarrow> int \<times> int" where
  "resolve_rate_limit gw ep plan =
     (case ep_rate_limits ep plan of
        Some rl \<Rightarrow> (rlv_requests rl, rlv_duration_seconds rl)
      | None \<Rightarrow> (cfg_default_rate_limit_requests (gw_config gw), cfg_default_rate_limit_duration_seconds (gw_config gw)))"

definition extract_owner :: "compiled_endpoint \<Rightarrow> request \<Rightarrow> string" where
  "extract_owner ep req =
     (let (kind, name, ok) = cut (ep_owner_param ep) (CHR '':'') in
      if \<not> ok \<or> name = [] then []
      else if kind = ''path'' then
        (case (subexp_index (ce_regex ep) name, rx_run (ce_regex ep) (req_path req)) of
           (Some i, Some m) \<Rightarrow> if 0 < i \<and> i < length m then trim_space (m ! i) else []
         | _ \<Rightarrow> [])
      else if kind = ''query'' then trim_space (query_get (req_raw_query req) name)
      else [])"

definition owner_matches :: "string \<Rightarrow> string \<Rightarrow> string \<Rightarrow> bool" where
  "owner_matches owner user_id user_uid \<longleftrightarrow>
     owner \<noteq> [] \<and> (owner = user_id \<or> (user_uid \<noteq> [] \<and> owner = user_uid))"

section \<open>Rate limiting\<close>

definition rate_limit_headers :: "rate_limit_result \<Rightarrow> string \<Rightarrow> 's exchange \<Rightarrow> 's exchange" where
  "rate_limit_headers r remaining x =
     set_reply_header ''X-RateLimit-Reset'' (format_int (unix_seconds (rlr_reset_at r)))
       (set_reply_header ''X-RateLimit-Remaining'' remaining
         (set_reply_header ''X-RateLimit-Limit'' (format_int (rlr_limit r)) x))"

text \<open>The 429 answer.\<close>

definition too_many_requests :: "'ev env \<Rightarrow> rate_limit_result \<Rightarrow> 's exchange \<Rightarrow> 's exchange" where
  "too_many_requests env r x =
     reply 429 (ErrorDoc ''rate_limit_exceeded'' (Text ''too many requests''))
       (set_reply_header ''Retry-After'' (format_int (quot_trunc (rlr_reset_at r - en_retry_now env) second))
         (rate_limit_headers r ''0'' x))"

text \<open>\<^verbatim>\<open>applyRateLimit\<close>: \<open>False\<close> when the request was answered here; a limiter error lets it pass.\<close>

definition apply_rate_limit ::
  "('ev, 's, 'e) libs \<Rightarrow> gateway \<Rightarrow> 'ev env \<Rightarrow> compiled_endpoint \<Rightarrow> string \<Rightarrow> string \<Rightarrow> 's exchange \<Rightarrow>
   's exchange \<times> bool" where
  "apply_rate_limit lib gw env ep key plan x =
     (if cfg_disable_rate_limit (gw_config gw) \<or> \<not> gw_has_limiter gw then (x, True)
      else (let (limit, window) = resolve_rate_limit gw ep plan in
        if limit \<le> 0 then (x, True)
        else (case lib_check lib (en_limit env) key (ep_uid ep) limit window (x_limiter x) of
                (CheckPanic, l1) \<Rightarrow> (x\<lparr>x_limiter := l1, x_panicked := True\<rparr>, False)
              | (CheckError e, l1) \<Rightarrow> (x\<lparr>x_limiter := l1\<rparr>, True)
              | (Checked r, l1) \<Rightarrow>
                  (let x1 = x\<lparr>x_limiter := l1\<rparr> in
                   if \<not> rlr_allowed r then (too_many_requests env r x1, False)
                   else (rate_limit_headers r (format_int (rlr_remaining r)) x1, True)))))"


section \<open>Lemmas on exchanges\<close>

lemma exchange_simps [simp]:
  "x_rw (set_header k v x) = x_rw x"
  "x_req (set_header k v x) = set_req_header k v (x_req x)"
  "x_jwks (set_header k v x) = x_jwks x"
  "x_plans (set_header k v x) = x_plans x"
  "x_limiter (set_header k v x) = x_limiter x"
  "x_reasons (set_header k v x) = x_reasons x"
  "x_shadows (set_header k v x) = x_shadows x"
  "x_forwarded (set_header k v x) = x_forwarded x"
  "x_panicked (set_header k v x) = x_panicked x"
  "x_rw (del_header k x) = x_rw x"
  "x_req (del_header k x) = del_req_header k (x_req x)"
  "x_jwks (del_header k x) = x_jwks x"
  "x_plans (del_header k x) = x_plans x"
  "x_limiter (del_header k x) = x_limiter x"
  "x_reasons (del_header k x) = x_reasons x"
  "x_shadows (del_header k x) = x_shadows x"
  "x_forwarded (del_header k x) = x_forwarded x"
  "x_panicked (del_header k x) = x_panicked x"
  "x_rw (set_reply_header k v x) = set_rsp_header k v (x_rw x)"
  "x_req (set_reply_header k v x) = x_req x"
  "x_jwks (set_reply_header k v x) = x_jwks x"
  "x_plans (set_reply_header k v x) = x_plans x"
  "x_limiter (set_reply_header k v x) = x_limiter x"
  "x_reasons (set_reply_header k v x) = x_reasons x"
  "x_shadows (set_reply_header k v x) = x_shadows x"
  "x_forwarded (set_reply_header k v x) = x_forwarded x"
  "x_panicked (set_reply_header k v x) = x_panicked x"
  "x_rw (reply st d x) = write_json (x_rw x) st d"
  "x_req (reply st d x) = x_req x"
  "x_jwks (reply st d x) = x_jwks x"
  "x_plans (reply st d x) = x_plans x"
  "x_limiter (reply st d x) = x_limiter x"
  "x_reasons (reply st d x) = x_reasons x"
  "x_shadows (reply st d x) = x_shadows x"
  "x_forwarded (reply st d x) = x_forwarded x"
  "x_panicked (reply st d x) = x_panicked x"
  "x_rw (forward x) = x_rw x"
  "x_req (forward x) = x_req x"
  "x_jwks (forward x) = x_jwks x"
  "x_plans (forward x) = x_plans x"
  "x_limiter (forward x) = x_limiter x"
  "x_reasons (forward x) = x_reasons x"
  "x_shadows (forward x) = x_shadows x"
  "x_forwarded (forward x)"
  "x_panicked (forward x) = x_panicked x"
  "x_rw (log_reason gw lv r x) = x_rw x"
  "x_req (log_reason gw lv r x) = x_req x"
  "x_jwks (log_reason gw lv r x) = x_jwks x"
  "x_plans (log_reason gw lv r x) = x_plans x"
  "x_limiter (log_reason gw lv r x) = x_limiter x"
  "x_shadows (log_reason gw lv r x) = x_shadows x"
  "x_forwarded (log_reason gw lv r x) = x_forwarded x"
  "x_panicked (log_reason gw lv r x) = x_panicked x"
  by (simp_all add: set_header_def del_header_def set_reply_header_def reply_def forward_def log_reason_def)


lemma write_json_status [simp]:
  "rsp_status (write_json rw c d) = (case rsp_status rw of None \<Rightarrow> Some c | Some s \<Rightarrow> Some s)"
  by (simp add: write_json_def Let_def write_header_def set_rsp_header_def split: option.split)

text \<open>A request still being decided, and one that came to exactly one end: answered, forwarded or panicked.\<close>

definition answered :: "'s exchange \<Rightarrow> bool" where
  "answered x \<longleftrightarrow> rsp_status (x_rw x) \<noteq> None"

definition pending :: "'s exchange \<Rightarrow> bool" where
  "pending x \<longleftrightarrow> \<not> answered x \<and> \<not> x_forwarded x \<and> \<not> x_panicked x"

definition settled :: "'s exchange \<Rightarrow> bool" where
  "settled x \<longleftrightarrow> length (filter id [answered x, x_forwarded x, x_panicked x]) = 1"

named_theorems pending_intros "stages that leave a request pending"

lemma pending_steps [pending_intros]:
  "pending x \<Longrightarrow> pending (set_header k v x)" "pending x \<Longrightarrow> pending (del_header k x)"
  "pending x \<Longrightarrow> pending (set_reply_header k v x)" "pending x \<Longrightarrow> pending (log_reason gw lv r x)"
  "pending x \<Longrightarrow> pending (x\<lparr>x_jwks := j\<rparr>)" "pending x \<Longrightarrow> pending (x\<lparr>x_plans := p\<rparr>)"
  "pending x \<Longrightarrow> pending (x\<lparr>x_limiter := l\<rparr>)" "pending x \<Longrightarrow> pending (x\<lparr>x_shadows := sh\<rparr>)"
  by (simp_all add: pending_def answered_def)

lemma pending_reply: "pending x \<Longrightarrow> settled (reply st d x) \<and> \<not> x_forwarded (reply st d x)"
  by (simp add: pending_def settled_def answered_def split: option.split)

lemma pending_forward: "pending x \<Longrightarrow> settled (forward x)"
  by (simp add: pending_def settled_def answered_def)

lemma pending_panic: "pending x \<Longrightarrow> settled (x\<lparr>x_limiter := l, x_panicked := True\<rparr>)"
  by (simp add: pending_def settled_def answered_def)

lemma settled_not_forwarded_iff:
  "settled x \<Longrightarrow> \<not> x_forwarded x \<longleftrightarrow> answered x \<or> x_panicked x"
  by (auto simp: settled_def split: if_splits)

lemma pending_rate_limit_headers [pending_intros]: "pending x \<Longrightarrow> pending (rate_limit_headers r m x)"
  by (simp add: rate_limit_headers_def pending_intros)

lemma pending_ensure_request_id [pending_intros]: "pending x \<Longrightarrow> pending (ensure_request_id env x)"
  by (simp add: ensure_request_id_def Let_def pending_intros)

lemma pending_stamp_authz [pending_intros]: "pending x \<Longrightarrow> pending (stamp_authz_headers gw a x)"
  by (simp add: stamp_authz_headers_def Let_def pending_intros split: option.split)

lemma reject_legacy_settled: "pending x \<Longrightarrow> settled (reject_legacy_api_key gw x) \<and> \<not> x_forwarded (reject_legacy_api_key gw x)"
  unfolding reject_legacy_api_key_def by (intro pending_reply pending_intros)

text \<open>The rate-limit stage: it lets the request go on pending, or ends it.\<close>

lemma apply_rate_limit_settles:
  assumes "pending x" and "apply_rate_limit lib gw env ep key plan x = (y, ok)"
  shows "if ok then pending y else settled y \<and> \<not> x_forwarded y"
proof (cases "snd (apply_rate_limit lib gw env ep key plan x)")
  case True
  with assms show ?thesis
    by (auto simp: apply_rate_limit_def Let_def intro: pending_intros
        split: if_splits prod.splits check_result.splits)
next
  case False
  have "settled (too_many_requests env r (x\<lparr>x_limiter := l\<rparr>)) \<and> \<not> x_forwarded (too_many_requests env r (x\<lparr>x_limiter := l\<rparr>))"
    for r l
    unfolding too_many_requests_def by (intro pending_reply pending_intros assms(1))
  moreover have "settled (x\<lparr>x_limiter := l, x_panicked := True\<rparr>) \<and> \<not> x_forwarded (x\<lparr>x_limiter := l, x_panicked := True\<rparr>)" for l
    using pending_panic [OF assms(1)] assms(1) by (simp add: pending_def)
  ultimately show ?thesis
    using False assms(2)
    by (auto simp: apply_rate_limit_def Let_def split: if_splits prod.splits check_result.splits)
qed


lemma apply_rate_limit_req: "x_req (fst (apply_rate_limit lib gw env ep key plan x)) = x_req x"
  by (simp add: apply_rate_limit_def too_many_requests_def rate_limit_headers_def Let_def
      split: prod.split check_result.split)

lemma extract_owner_cong:
  "req_path r = req_path r' \<Longrightarrow> req_raw_query r = req_raw_query r' \<Longrightarrow> extract_owner ep r = extract_owner ep r'"
  by (simp only: extract_owner_def)

section \<open>The key source of a realm\<close>

text \<open>A realm's key source is the shared cache of its JWKS URL, and keeps the law of that cache.\<close>

definition realm_trusted :: "string \<Rightarrow> (string \<rightharpoonup> jwks_cache) \<Rightarrow> jwks_event \<Rightarrow> string \<Rightarrow> rsa_key \<Rightarrow> bool" where
  "realm_trusted url jwks ev kid key = (case jwks url of None \<Rightarrow> False | Some jc \<Rightarrow> jwks_trusted jc ev kid key)"

interpretation realm_keys: rsa_key_provider "\<lambda>ev. realm_key_for ev url" "realm_trusted url" for url
proof
  fix ev kid jwks key jwks1
  assume "realm_key_for ev url kid jwks = (Inr (Some key), jwks1)"
  then show "realm_trusted url jwks ev kid key"
    by (auto simp: realm_key_for_def realm_trusted_def intro: jwks_keys.key_trusted split: option.splits prod.splits)
qed

lemma parse_keycloak_auth_Some:
  assumes "parse_keycloak_auth lib gw env rlm auth jwks = (Inr (Some tc), jwks1)"
  shows "\<exists>m. vouched (lib_unmarshal lib) (lib_verify lib) (realm_trusted (rlm_jwks_url rlm) jwks (en_jwks env))
      (gw_leeway gw) (en_jwt_now env) auth m \<and>
    claims_of_token (rlm_issuer rlm) (cfg_keycloak_user_id_claim (gw_config gw))
      (cfg_keycloak_admin_roles (gw_config gw)) m = Inr tc"
  using assms by (intro realm_keys.accepted_vouched [where url = "rlm_jwks_url rlm"])
    (auto simp: parse_keycloak_auth_def split: if_splits)

section \<open>The handler interface\<close>

text \<open>
  What \<open>ServeHTTP\<close> relies on in the handlers it dispatches to: a pending request comes to exactly one
  end.
\<close>

locale request_handler =
  fixes serve :: "'s exchange \<Rightarrow> 's exchange"
  assumes settles: "pending x \<Longrightarrow> settled (serve x)"
begin

lemma answered_once: "pending x \<Longrightarrow> \<not> x_forwarded (serve x) \<Longrightarrow> \<not> x_panicked (serve x) \<Longrightarrow> answered (serve x)"
  using settles [of x] settled_not_forwarded_iff [of "serve x"] by blast

lemma forwarded_unanswered: "pending x \<Longrightarrow> x_forwarded (serve x) \<Longrightarrow> \<not> answered (serve x) \<and> \<not> x_panicked (serve x)"
  using settles [of x] by (auto simp: settled_def split: if_splits)

end

end
