(* ===== verification/Policy.thy ===== *)
theory Policy
  imports Gateway
begin

text \<open>
  \<^verbatim>\<open>policy.go\<close>: the policy authorization engine.  \<open>serve_policy\<close> runs its stages in the code's order;
  \<open>serve_iam_me\<close> answers the identity introspection; \<open>log_shadow\<close> computes the verdict the legacy engine
  logs.  A stage that may answer the request itself returns \<open>Inl\<close> of the finished exchange, otherwise
  \<open>Inr\<close> of the exchange and what later stages need.
\<close>

section \<open>Credential and principal\<close>

definition iam_me_path :: string where "iam_me_path = ''/api/_iam/me''"

definition deny :: "gateway \<Rightarrow> int \<Rightarrow> doc \<Rightarrow> string \<Rightarrow> 's exchange \<Rightarrow> 's exchange" where
  "deny gw status d reason x = reply status d (log_reason gw LevelWarn reason x)"

text \<open>The realm whose issuer the token names, out of the application's and the operators'.\<close>

definition chosen_realm :: "gateway \<Rightarrow> string \<Rightarrow> string \<Rightarrow> realm option" where
  "chosen_realm gw app iss =
     (case keycloak_realm_for gw app of
        Some r \<Rightarrow>
          if rlm_issuer r = iss then Some r
          else (case gw_operator gw of
                  None \<Rightarrow> None | Some op1 \<Rightarrow> if rlm_issuer op1 = iss then Some op1 else None)
      | None \<Rightarrow>
          (case gw_operator gw of
             None \<Rightarrow> None | Some op1 \<Rightarrow> if rlm_issuer op1 = iss then Some op1 else None))"

definition authenticate ::
  "('ev, 's, 'e) libs \<Rightarrow> gateway \<Rightarrow> 'ev env \<Rightarrow> string \<Rightarrow> string \<Rightarrow> (string \<rightharpoonup> jwks_cache) \<Rightarrow>
   (auth_error + token_claims option) \<times> (string \<rightharpoonup> jwks_cache)" where
  "authenticate lib gw env app auth jwks =
     (if auth = [] \<or> cfg_disable_auth (gw_config gw) then (Inr None, jwks)
      else (case chosen_realm gw app (token_issuer (lib_unmarshal lib) auth) of
              None \<Rightarrow> (Inl IssuerNotAccepted, jwks)
            | Some rlm \<Rightarrow>
                (case parse_keycloak_auth lib gw env rlm auth jwks of
                   (Inl e, jwks1) \<Rightarrow> (Inl (TokenRejected e), jwks1)
                 | (Inr claims, jwks1) \<Rightarrow> (Inr claims, jwks1))))"

definition principal_for :: "snapshot_cache \<Rightarrow> token_claims option \<Rightarrow> principal option" where
  "principal_for sc claims =
     (case claims of
        None \<Rightarrow> None
      | Some tc \<Rightarrow>
          Some (resolve_statements
                  \<lparr>pr_subject = tc_subject tc, pr_user_id = tc_user_id tc, pr_home_app = tc_app_id tc,
                   pr_email = tc_email tc, pr_roles = tc_qualified_roles tc,
                   pr_statements = [], pr_bound_roles = [], pr_policies = []\<rparr> (sc_policies sc)))"

section \<open>Stages of the policy engine\<close>

text \<open>1. The target application: the requested one when it is active, else the host's.\<close>

definition policy_target ::
  "gateway \<Rightarrow> 'ev env \<Rightarrow> string \<Rightarrow> string \<Rightarrow> 's exchange \<Rightarrow> 's exchange + 's exchange \<times> string" where
  "policy_target gw env host_app requested x =
     (if requested \<noteq> [] \<and> gw_has_registry gw \<and> \<not> is_active_app (en_active_registry env) requested
      then Inl (deny gw 403 (ErrorDoc ''unknown_app'' (Text ''requested application is not an active application''))
                  reason_unknown_app x)
      else (let target = (if requested \<noteq> [] \<and> gw_has_registry gw then requested else host_app)
            in Inr (if target \<noteq> [] then set_header (cfg_app_id_header (gw_config gw)) target x else x, target)))"

text \<open>2. The endpoint; without one the request is forwarded, unless the host's application exposes the route.\<close>

definition policy_endpoint ::
  "gateway \<Rightarrow> 'ev env \<Rightarrow> string \<Rightarrow> string \<Rightarrow> 's exchange \<Rightarrow> 's exchange + compiled_endpoint" where
  "policy_endpoint gw env host_app target x =
     (case match_endpoint (en_match_snapshot env) target (req_method (x_req x)) (req_path (x_req x)) of
        Some ep \<Rightarrow> Inr ep
      | None \<Rightarrow>
          Inl (if target \<noteq> host_app \<and>
                  match_endpoint (en_host_match_snapshot env) host_app (req_method (x_req x)) (req_path (x_req x)) \<noteq> None
               then deny gw 403 (forbidden_doc ''endpoint is not exposed to the requested application'')
                      reason_endpoint_not_exposed x
               else forward x))"

text \<open>3. The credential.\<close>

definition policy_credential ::
  "('ev, 's, 'e) libs \<Rightarrow> gateway \<Rightarrow> 'ev env \<Rightarrow> string \<Rightarrow> 's exchange \<Rightarrow> 's exchange + 's exchange \<times> token_claims option" where
  "policy_credential lib gw env target x =
     (if \<not> cfg_disable_auth (gw_config gw) \<and> has_legacy_api_key (x_req x) (cfg_jwt_header_key (gw_config gw))
      then Inl (reject_legacy_api_key gw x)
      else (case authenticate lib gw env target (get_header x (cfg_jwt_header_key (gw_config gw))) (x_jwks x) of
              (Inl e, jwks1) \<Rightarrow>
                Inl (reply 401 (ErrorDoc ''unauthorized'' (AuthFailure e))
                      (log_reason gw LevelError reason_issuer_rejected (x\<lparr>x_jwks := jwks1\<rparr>)))
            | (Inr claims, jwks1) \<Rightarrow> Inr (x\<lparr>x_jwks := jwks1\<rparr>, claims)))"

text \<open>4. and 5. The principal and the required permission.\<close>

definition policy_permission ::
  "gateway \<Rightarrow> compiled_endpoint \<Rightarrow> string \<Rightarrow> principal option \<Rightarrow> 's exchange \<Rightarrow> 's exchange option" where
  "policy_permission gw ep target pr x =
     (let perm = ep_required_permission ep in
      if perm = [] then None
      else if pr = None then
        Some (deny gw 401 (unauthorized_doc ''authentication required for this endpoint'') reason_no_token x)
      else if \<not> granted pr perm target then
        Some (deny gw 403 (forbidden_doc ''insufficient permissions'') reason_no_matching_statement x)
      else None)"

text \<open>6. The trusted headers of an authenticated caller, and the rate-limit identity of either kind of caller.\<close>

definition policy_stamp ::
  "gateway \<Rightarrow> string \<Rightarrow> token_claims \<Rightarrow> principal \<Rightarrow> string \<Rightarrow> 's exchange \<Rightarrow> 's exchange" where
  "policy_stamp gw plan tc pr target x =
     (let cfg = gw_config gw;
          x1 = set_header (cfg_user_plan_header cfg) plan (set_header (cfg_user_id_header cfg) (tc_user_id tc) x);
          x2 = (if tc_keycloak tc then
                  (let y = set_header (cfg_user_uid_header cfg) (tc_subject tc) x1
                   in if cfg_user_email_header cfg \<noteq> [] \<and> tc_email tc \<noteq> []
                      then set_header (cfg_user_email_header cfg) (tc_email tc) y else y)
                else x1);
          x3 = (if pr_bound_roles pr \<noteq> [] then set_header (cfg_user_roles_header cfg) (join '','' (pr_bound_roles pr)) x2
                else x2);
          x4 = (if is_wildcard (Some pr) target then set_header (cfg_is_admin_header cfg) ''true'' x3 else x3)
      in del_header (cfg_session_id_header cfg) x4)"

definition user_limit_key :: "string \<Rightarrow> string \<Rightarrow> string" where
  "user_limit_key target user_id = ''app:'' @ target @ ''|user:'' @ user_id"

text \<open>The anonymous branch, the same in both engines.\<close>

definition anonymous_identity :: "gateway \<Rightarrow> string \<Rightarrow> 's exchange \<Rightarrow> 's exchange \<times> string \<times> string" where
  "anonymous_identity gw target x =
     (let cfg = gw_config gw;
          session = get_header x (cfg_session_id_header cfg);
          device = get_header x (cfg_device_id_header cfg);
          x1 = (if session \<noteq> [] then set_header (cfg_session_id_header cfg) session x else x);
          x2 = (if device \<noteq> [] then set_header (cfg_device_id_header cfg) device x1 else x1)
      in (x2, ''app:'' @ target @ ''|'' @ anonymous_rate_limit_key device session (client_ip (x_req x2)),
          cfg_default_plan_name cfg))"

definition policy_identity ::
  "gateway \<Rightarrow> 'ev env \<Rightarrow> string \<Rightarrow> (token_claims \<times> principal) option \<Rightarrow> 's exchange \<Rightarrow>
   's exchange \<times> string \<times> string \<times> bool" where
  "policy_identity gw env target caller x =
     (case caller of
        Some (tc, pr) \<Rightarrow>
          (case resolve_plan (en_plan env) target (tc_user_id tc) (cfg_default_plan_name (gw_config gw)) (x_plans x) of
             (plan, plans1) \<Rightarrow>
               (policy_stamp gw plan tc pr target (x\<lparr>x_plans := plans1\<rparr>), user_limit_key target (tc_user_id tc), plan,
                is_wildcard (Some pr) target))
      | None \<Rightarrow> (case anonymous_identity gw target x of (x1, key, plan) \<Rightarrow> (x1, key, plan, False)))"

text \<open>7a. The owner gate: \<open>Some\<close> is a denial.\<close>

definition policy_owner ::
  "gateway \<Rightarrow> compiled_endpoint \<Rightarrow> token_claims option \<Rightarrow> bool \<Rightarrow> 's exchange \<Rightarrow> 's exchange option" where
  "policy_owner gw ep claims wildcard x =
     (if ep_owner_param ep = [] then None
      else (case claims of
              None \<Rightarrow> Some (deny gw 401 (unauthorized_doc ''authentication required for this endpoint'') reason_no_token x)
            | Some tc \<Rightarrow>
                if \<not> wildcard \<and> \<not> owner_matches (extract_owner ep (x_req x)) (tc_user_id tc) (tc_subject tc)
                then Some (deny gw 403 (forbidden_doc ''not allowed to access another user's resource'')
                             reason_owner_mismatch x)
                else None))"

text \<open>Stages 6 and 7 for a caller that passed the permission check.\<close>

definition policy_admit ::
  "('ev, 's, 'e) libs \<Rightarrow> gateway \<Rightarrow> 'ev env \<Rightarrow> string \<Rightarrow> compiled_endpoint \<Rightarrow> (token_claims \<times> principal) option \<Rightarrow>
   's exchange \<Rightarrow> 's exchange" where
  "policy_admit lib gw env target ep caller x =
     (case policy_identity gw env target caller x of
        (x1, key, plan, wildcard) \<Rightarrow>
          (case policy_owner gw ep (map_option fst caller) wildcard x1 of
             Some x2 \<Rightarrow> x2
           | None \<Rightarrow>
               if wildcard then forward x1
               else (case apply_rate_limit lib gw env ep key plan x1 of
                       (x2, ok) \<Rightarrow> if ok then forward x2 else x2)))"

definition serve_policy ::
  "('ev, 's, 'e) libs \<Rightarrow> gateway \<Rightarrow> 'ev env \<Rightarrow> string \<Rightarrow> string \<Rightarrow> 's exchange \<Rightarrow> 's exchange" where
  "serve_policy lib gw env host_app requested x =
     (case policy_target gw env host_app requested x of
        Inl done1 \<Rightarrow> done1
      | Inr (x1, target) \<Rightarrow>
          (case policy_endpoint gw env host_app target x1 of
             Inl done2 \<Rightarrow> done2
           | Inr ep \<Rightarrow>
               (case policy_credential lib gw env target x1 of
                  Inl done3 \<Rightarrow> done3
                | Inr (x2, claims) \<Rightarrow>
                    (let pr = principal_for (en_policy_snapshot env) claims in
                     case policy_permission gw ep target pr x2 of
                       Some done4 \<Rightarrow> done4
                     | None \<Rightarrow>
                         policy_admit lib gw env target ep
                           (case (claims, pr) of (Some tc, Some p) \<Rightarrow> Some (tc, p) | _ \<Rightarrow> None) x2))))"

section \<open>Introspection\<close>

definition identity_doc_of :: "principal \<Rightarrow> string list \<Rightarrow> identity_doc" where
  "identity_doc_of pr active =
     \<lparr>me_subject = pr_subject pr, me_user_id = pr_user_id pr, me_home_app = pr_home_app pr, me_roles = pr_roles pr,
      me_policies = pr_policies pr, me_permissions = permissions_by_app (Some pr) active\<rparr>"

definition serve_iam_me ::
  "('ev, 's, 'e) libs \<Rightarrow> gateway \<Rightarrow> 'ev env \<Rightarrow> string \<Rightarrow> 's exchange \<Rightarrow> 's exchange" where
  "serve_iam_me lib gw env host_app x =
     (if req_method (x_req x) \<noteq> ''GET''
      then reply 405 (ErrorDoc ''method_not_allowed'' (Text ''GET only'')) x
      else (case authenticate lib gw env host_app (get_header x (cfg_jwt_header_key (gw_config gw))) (x_jwks x) of
              (Inl e, jwks1) \<Rightarrow>
                deny gw 401 (ErrorDoc ''unauthorized'' (AuthFailure e)) reason_issuer_rejected (x\<lparr>x_jwks := jwks1\<rparr>)
            | (Inr claims, jwks1) \<Rightarrow>
                (case principal_for (en_policy_snapshot env) claims of
                   None \<Rightarrow> deny gw 401 (unauthorized_doc ''authentication required'') reason_no_token (x\<lparr>x_jwks := jwks1\<rparr>)
                 | Some pr \<Rightarrow>
                     (let listed = (if gw_has_registry gw then active_app_ids (en_ids_registry env) else []);
                          active = (if listed = [] \<and> host_app \<noteq> [] then [host_app] else listed)
                      in reply 200 (IdentityDoc (identity_doc_of pr active)) (x\<lparr>x_jwks := jwks1\<rparr>)))))"

section \<open>Shadow verdicts\<close>

text \<open>The permission the legacy engine demands: the endpoint's, or the one the admin level implies.\<close>

definition legacy_required :: "gateway \<Rightarrow> compiled_endpoint \<Rightarrow> string" where
  "legacy_required gw ep =
     (if ep_required_permission ep = [] \<and> ep_access_level ep = cfg_admin_access_level (gw_config gw)
      then cfg_admin_permission (gw_config gw) else ep_required_permission ep)"

definition log_shadow ::
  "gateway \<Rightarrow> 'ev env \<Rightarrow> compiled_endpoint \<Rightarrow> string \<Rightarrow> token_claims option \<Rightarrow> 's exchange \<Rightarrow> 's exchange" where
  "log_shadow gw env ep target claims x =
     (case principal_for (en_policy_snapshot env) claims of
        None \<Rightarrow> x
      | Some pr \<Rightarrow>
          if \<not> log_enabled (Some (gw_log gw)) LevelInfo then x
          else (let perm = legacy_required gw ep;
                    keycloak = (case claims of None \<Rightarrow> False | Some tc \<Rightarrow> tc_keycloak tc);
                    sh = \<lparr>sh_allowed = (perm = [] \<or> granted (Some pr) perm target), sh_required = perm,
                          sh_unbound = (if keycloak \<and> pr_bound_roles pr = [] \<and> pr_roles pr \<noteq> [] then pr_roles pr else []),
                          sh_admin = is_wildcard (Some pr) target\<rparr>
                in x\<lparr>x_shadows := x_shadows x @ [sh]\<rparr>))"


section \<open>Every stage settles the request or leaves it pending\<close>

lemma deny_settled: "pending x \<Longrightarrow> settled (deny gw st d r x) \<and> \<not> x_forwarded (deny gw st d r x)"
  unfolding deny_def by (intro pending_reply pending_intros)

lemma policy_target_cases:
  "policy_target gw env host requested x = Inl y \<Longrightarrow> pending x \<Longrightarrow> settled y \<and> \<not> x_forwarded y"
  "policy_target gw env host requested x = Inr (y, target) \<Longrightarrow>
     y = (if target \<noteq> [] then set_header (cfg_app_id_header (gw_config gw)) target x else x) \<and>
     (target = host \<or> (target = requested \<and> requested \<noteq> [] \<and> is_active_app (en_active_registry env) requested))"
  using deny_settled [of x gw]
  by (auto simp: policy_target_def Let_def split: if_splits)

lemma policy_endpoint_Inl:
  assumes "policy_endpoint gw env host target x = Inl y" and "pending x"
  shows "settled y \<and>
    match_endpoint (en_match_snapshot env) target (req_method (x_req x)) (req_path (x_req x)) = None \<and>
    (x_forwarded y \<longrightarrow> target = host \<or>
       match_endpoint (en_host_match_snapshot env) host (req_method (x_req x)) (req_path (x_req x)) = None)"
  using assms deny_settled [OF assms(2), of gw] pending_forward [OF assms(2)]
  by (auto simp: policy_endpoint_def split: if_splits option.splits)

lemma policy_endpoint_Inr:
  "policy_endpoint gw env host target x = Inr ep \<longleftrightarrow>
     match_endpoint (en_match_snapshot env) target (req_method (x_req x)) (req_path (x_req x)) = Some ep"
  by (auto simp: policy_endpoint_def split: option.splits)

lemma policy_credential_Inl:
  assumes "policy_credential lib gw env target x = Inl y" and "pending x"
  shows "settled y \<and> \<not> x_forwarded y"
proof -
  have "settled (reply 401 d (log_reason gw lv r (x\<lparr>x_jwks := j\<rparr>))) \<and>
      \<not> x_forwarded (reply 401 d (log_reason gw lv r (x\<lparr>x_jwks := j\<rparr>)))" for d lv r j
    by (intro pending_reply pending_intros assms(2))
  with assms(1) reject_legacy_settled [OF assms(2), of gw] show ?thesis
    by (auto simp: policy_credential_def split: if_splits prod.splits sum.splits)
qed

lemma policy_credential_Inr:
  assumes "policy_credential lib gw env target x = Inr (y, claims)"
  shows "\<exists>j. authenticate lib gw env target (get_header x (cfg_jwt_header_key (gw_config gw))) (x_jwks x) = (Inr claims, j) \<and>
    y = x\<lparr>x_jwks := j\<rparr>"
  using assms by (auto simp: policy_credential_def split: if_splits prod.splits sum.splits)

lemma policy_permission_Some:
  "policy_permission gw ep target pr x = Some y \<Longrightarrow> pending x \<Longrightarrow> settled y \<and> \<not> x_forwarded y"
  using deny_settled [of x gw] by (auto simp: policy_permission_def Let_def split: if_splits)

lemma policy_permission_None:
  "policy_permission gw ep target pr x = None \<longleftrightarrow>
     ep_required_permission ep = [] \<or> (pr \<noteq> None \<and> granted pr (ep_required_permission ep) target)"
  by (simp add: policy_permission_def Let_def)

lemma pending_policy_stamp [pending_intros]: "pending x \<Longrightarrow> pending (policy_stamp gw plan tc pr target x)"
  by (simp add: policy_stamp_def Let_def pending_intros)

lemma pending_anonymous: "pending x \<Longrightarrow> pending (fst (anonymous_identity gw target x))"
  by (simp add: anonymous_identity_def Let_def pending_intros)

lemma policy_identity_pending:
  assumes "policy_identity gw env target caller x = (y, key, plan, w)" and "pending x"
  shows "pending y"
  using assms pending_anonymous [OF assms(2), of gw target]
  by (auto simp: policy_identity_def intro: pending_intros split: option.splits prod.splits)

lemma policy_owner_Some:
  "policy_owner gw ep claims w x = Some y \<Longrightarrow> pending x \<Longrightarrow> settled y \<and> \<not> x_forwarded y"
  using deny_settled [of x gw] by (auto simp: policy_owner_def split: if_splits option.splits)

lemma policy_owner_None:
  "policy_owner gw ep claims w x = None \<longleftrightarrow>
     ep_owner_param ep = [] \<or>
     (\<exists>tc. claims = Some tc \<and> (w \<or> owner_matches (extract_owner ep (x_req x)) (tc_user_id tc) (tc_subject tc)))"
  by (auto simp: policy_owner_def split: option.split)

lemma policy_admit_settles:
  assumes "pending x"
  shows "settled (policy_admit lib gw env target ep caller x)"
proof -
  obtain y key plan w where id: "policy_identity gw env target caller x = (y, key, plan, w)"
    by (cases "policy_identity gw env target caller x") auto
  then have y: "pending y" using assms by (rule policy_identity_pending)
  obtain z ok where rl: "apply_rate_limit lib gw env ep key plan y = (z, ok)"
    by (cases "apply_rate_limit lib gw env ep key plan y")
  show ?thesis
    using policy_owner_Some [OF _ y] apply_rate_limit_settles [OF y rl] pending_forward [OF y] pending_forward [of z]
    by (auto simp: policy_admit_def id rl split: option.split if_splits)
qed

lemma serve_policy_settles: "pending x \<Longrightarrow> settled (serve_policy lib gw env host requested x)"
proof -
  assume x: "pending x"
  have tgt: "pending y" if "policy_target gw env host requested x = Inr (y, target)" for y target
    using policy_target_cases(2) [OF that] x by (auto intro: pending_intros)
  have cred: "pending z" if "pending y" and "policy_credential lib gw env target y = Inr (z, claims)" for y z target claims
    using policy_credential_Inr [OF that(2)] that(1) by (auto intro: pending_intros)
  show ?thesis
    unfolding serve_policy_def Let_def
    by (auto split: sum.splits option.splits prod.splits
        dest: policy_target_cases(1) [OF _ x] policy_endpoint_Inl [OF _ tgt] policy_credential_Inl [OF _ tgt]
          policy_permission_Some [OF _ cred [OF tgt]]
        intro!: policy_admit_settles cred [OF tgt])
qed

lemma serve_iam_me_settles:
  assumes "pending x"
  shows "settled (serve_iam_me lib gw env host x) \<and> \<not> x_forwarded (serve_iam_me lib gw env host x)"
proof -
  have "settled (reply st d (x\<lparr>x_jwks := j\<rparr>)) \<and> \<not> x_forwarded (reply st d (x\<lparr>x_jwks := j\<rparr>))"
    and "settled (deny gw st d r (x\<lparr>x_jwks := j\<rparr>)) \<and> \<not> x_forwarded (deny gw st d r (x\<lparr>x_jwks := j\<rparr>))" for st d j r
    by (intro pending_reply deny_settled pending_intros assms)+
  with pending_reply [OF assms] show ?thesis
    by (auto simp: serve_iam_me_def Let_def simp del: exchange_simps split: sum.split option.split prod.split)
qed

interpretation policy_engine: request_handler "serve_policy lib gw env host requested" for lib gw env host requested
  by unfold_locales (rule serve_policy_settles)

interpretation introspection: request_handler "serve_iam_me lib gw env host" for lib gw env host
  by unfold_locales (simp add: serve_iam_me_settles)


section \<open>What a forwarded request has passed\<close>

abbreviation same_target :: "request \<Rightarrow> request \<Rightarrow> bool" where
  "same_target r r' \<equiv> req_method r = req_method r' \<and> req_path r = req_path r' \<and> req_raw_query r = req_raw_query r'"

lemma policy_stamp_target: "same_target (x_req (policy_stamp gw plan tc pr target x)) (x_req x)"
  by (simp add: policy_stamp_def Let_def)

lemma anonymous_target: "same_target (x_req (fst (anonymous_identity gw target x))) (x_req x)"
  by (simp add: anonymous_identity_def Let_def)

lemma policy_identity_frame:
  assumes "policy_identity gw env target caller x = (y, key, plan, w)"
  shows "same_target (x_req y) (x_req x)"
    and "w \<longleftrightarrow> (\<exists>tc pr. caller = Some (tc, pr) \<and> is_wildcard (Some pr) target)"
proof -
  show "same_target (x_req y) (x_req x)"
  proof (cases caller)
    case None
    with assms anonymous_target [of gw target x] show ?thesis
      by (auto simp: policy_identity_def split: prod.splits)
  next
    case (Some c)
    then obtain tc pr where c: "caller = Some (tc, pr)" by (cases c) auto
    obtain p ps where r: "resolve_plan (en_plan env) target (tc_user_id tc) (cfg_default_plan_name (gw_config gw))
        (x_plans x) = (p, ps)"
      by fastforce
    have "y = policy_stamp gw p tc pr target (x\<lparr>x_plans := ps\<rparr>)"
      using assms by (auto simp: policy_identity_def c r)
    then show ?thesis using policy_stamp_target [of gw p tc pr target "x\<lparr>x_plans := ps\<rparr>"] by simp
  qed
  show "w \<longleftrightarrow> (\<exists>tc pr. caller = Some (tc, pr) \<and> is_wildcard (Some pr) target)"
    using assms by (auto simp: policy_identity_def split: option.splits prod.splits)
qed

lemma policy_admit_forwarded:
  assumes "pending x" and "x_forwarded (policy_admit lib gw env target ep caller x)"
  shows "x_req (policy_admit lib gw env target ep caller x) = x_req (fst (policy_identity gw env target caller x)) \<and>
    (ep_owner_param ep = [] \<or>
     (\<exists>tc pr. caller = Some (tc, pr) \<and>
        (is_wildcard (Some pr) target \<or> owner_matches (extract_owner ep (x_req x)) (tc_user_id tc) (tc_subject tc))))"
proof -
  obtain y key plan w where id: "policy_identity gw env target caller x = (y, key, plan, w)"
    by (cases "policy_identity gw env target caller x") auto
  then have y: "pending y" using assms(1) by (rule policy_identity_pending)
  note frame = policy_identity_frame [OF id]
  have owner: "policy_owner gw ep (map_option fst caller) w y = None"
    using policy_owner_Some [OF _ y] assms(2) by (cases "policy_owner gw ep (map_option fst caller) w y")
      (auto simp: policy_admit_def id)
  have "extract_owner ep (x_req y) = extract_owner ep (x_req x)"
    using frame(1) by (intro extract_owner_cong) simp_all
  with owner frame(2) have "ep_owner_param ep = [] \<or>
     (\<exists>tc pr. caller = Some (tc, pr) \<and>
        (is_wildcard (Some pr) target \<or> owner_matches (extract_owner ep (x_req x)) (tc_user_id tc) (tc_subject tc)))"
    by (cases caller) (auto simp: policy_owner_None)
  moreover have "x_req (policy_admit lib gw env target ep caller x) = x_req y"
    using apply_rate_limit_req [of lib gw env ep key plan y]
    by (auto simp: policy_admit_def id owner split: prod.split)
  ultimately show ?thesis by (simp add: id)
qed

text \<open>The authorization a matched endpoint demands of a caller.\<close>

definition policy_authorizes ::
  "snapshot_cache \<Rightarrow> compiled_endpoint \<Rightarrow> string \<Rightarrow> request \<Rightarrow> token_claims option \<Rightarrow> bool" where
  "policy_authorizes sc ep target req claims \<longleftrightarrow>
     (ep_required_permission ep = [] \<or>
      (claims \<noteq> None \<and> granted (principal_for sc claims) (ep_required_permission ep) target)) \<and>
     (ep_owner_param ep = [] \<or>
      (\<exists>tc. claims = Some tc \<and>
         (is_wildcard (principal_for sc claims) target \<or>
          owner_matches (extract_owner ep req) (tc_user_id tc) (tc_subject tc))))"

lemma principal_for_None: "principal_for sc claims = None \<longleftrightarrow> claims = None"
  by (simp add: principal_for_def split: option.split)

lemma serve_policy_forwarded:
  assumes x: "pending x" and fwd: "x_forwarded (serve_policy lib gw env host requested x)"
  shows "\<exists>x1 target. policy_target gw env host requested x = Inr (x1, target) \<and>
    (case match_endpoint (en_match_snapshot env) target (req_method (x_req x)) (req_path (x_req x)) of
       None \<Rightarrow> x_req (serve_policy lib gw env host requested x) = x_req x1 \<and>
         (target = host \<or>
          match_endpoint (en_host_match_snapshot env) host (req_method (x_req x)) (req_path (x_req x)) = None)
     | Some ep \<Rightarrow>
         \<exists>claims j. authenticate lib gw env target (get_header x1 (cfg_jwt_header_key (gw_config gw))) (x_jwks x) = (Inr claims, j) \<and>
           policy_authorizes (en_policy_snapshot env) ep target (x_req x) claims \<and>
           x_req (serve_policy lib gw env host requested x) =
             x_req (fst (policy_identity gw env target
               (case (claims, principal_for (en_policy_snapshot env) claims) of (Some tc, Some p) \<Rightarrow> Some (tc, p) | _ \<Rightarrow> None)
               (x1\<lparr>x_jwks := j\<rparr>))))"
proof -
  obtain x1 target where t: "policy_target gw env host requested x = Inr (x1, target)"
    using fwd by (cases "policy_target gw env host requested x")
      (auto simp: serve_policy_def dest: policy_target_cases(1) [OF _ x])
  note tgt = policy_target_cases(2) [OF t]
  then have x1: "pending x1" and same: "same_target (x_req x1) (x_req x)" and j1: "x_jwks x1 = x_jwks x"
    using x by (auto intro: pending_intros)
  show ?thesis
  proof (cases "match_endpoint (en_match_snapshot env) target (req_method (x_req x)) (req_path (x_req x))")
    case None
    with same have "policy_endpoint gw env host target x1 = Inl (serve_policy lib gw env host requested x)"
      by (simp add: serve_policy_def t policy_endpoint_def)
    note e = policy_endpoint_Inl [OF this x1]
    with fwd None same have "x_req (serve_policy lib gw env host requested x) = x_req x1"
      by (auto simp: serve_policy_def t policy_endpoint_def)
    with t e fwd same None show ?thesis by auto
  next
    case (Some ep)
    with same have e: "policy_endpoint gw env host target x1 = Inr ep" by (simp add: policy_endpoint_Inr)
    obtain x2 claims where c: "policy_credential lib gw env target x1 = Inr (x2, claims)"
      using fwd by (cases "policy_credential lib gw env target x1")
        (auto simp: serve_policy_def t e dest: policy_credential_Inl [OF _ x1])
    then obtain j where a: "authenticate lib gw env target (get_header x1 (cfg_jwt_header_key (gw_config gw))) (x_jwks x) = (Inr claims, j)"
      and x2: "x2 = x1\<lparr>x_jwks := j\<rparr>"
      using policy_credential_Inr [OF c] j1 by auto
    then have p2: "pending x2" using x1 by (simp add: pending_intros)
    let ?pr = "principal_for (en_policy_snapshot env) claims"
    let ?caller = "case (claims, ?pr) of (Some tc, Some p) \<Rightarrow> Some (tc, p) | _ \<Rightarrow> None"
    have perm: "policy_permission gw ep target ?pr x2 = None"
      using fwd by (cases "policy_permission gw ep target ?pr x2")
        (auto simp: serve_policy_def t e c Let_def dest: policy_permission_Some [OF _ p2])
    then have run: "serve_policy lib gw env host requested x = policy_admit lib gw env target ep ?caller x2"
      by (simp add: serve_policy_def t e c Let_def)
    note adm = policy_admit_forwarded [OF p2 fwd [unfolded run]]
    have "extract_owner ep (x_req x2) = extract_owner ep (x_req x)"
      using same x2 by (intro extract_owner_cong) simp_all
    with adm perm have "policy_authorizes (en_policy_snapshot env) ep target (x_req x) claims"
      using principal_for_None [of "en_policy_snapshot env" claims]
      by (auto simp: policy_authorizes_def policy_permission_None split: option.splits)
    with t Some a adm run x2 show ?thesis by auto
  qed
qed

end
