(* ===== verification/Legacy.thy ===== *)
theory Legacy
  imports Policy
begin

text \<open>
  \<^verbatim>\<open>serveLegacy\<close> of \<^verbatim>\<open>plugin.go\<close>: the authorization engine in force unless \<^verbatim>\<open>authorizationMode\<close> is
  \<^verbatim>\<open>policy\<close>.  Its stages follow the numbered comments of the code; the verdict of the policy engine is
  computed on the side (\<open>log_shadow\<close>).
\<close>

section \<open>Stages\<close>

text \<open>2. The bearer token, against the realm of the host's application only.\<close>

definition legacy_parse ::
  "('ev, 's, 'e) libs \<Rightarrow> gateway \<Rightarrow> 'ev env \<Rightarrow> string \<Rightarrow> string \<Rightarrow> (string \<rightharpoonup> jwks_cache) \<Rightarrow>
   (auth_error + token_claims option) \<times> (string \<rightharpoonup> jwks_cache)" where
  "legacy_parse lib gw env app auth jwks =
     (case keycloak_realm_for gw app of
        Some rlm \<Rightarrow>
          (case parse_keycloak_auth lib gw env rlm auth jwks of
             (Inl e, jwks1) \<Rightarrow> (Inl (TokenRejected e), jwks1)
           | (Inr claims, jwks1) \<Rightarrow> (Inr claims, jwks1))
      | None \<Rightarrow> if auth \<noteq> [] then (Inl IssuerNotAccepted, jwks) else (Inr None, jwks))"

text \<open>2a. Replay across applications: both sides known and different.\<close>

definition app_mismatch :: "token_claims \<Rightarrow> string \<Rightarrow> bool" where
  "app_mismatch tc app \<longleftrightarrow> tc_app_id tc \<noteq> [] \<and> app \<noteq> [] \<and> tc_app_id tc \<noteq> app"

definition legacy_credential ::
  "('ev, 's, 'e) libs \<Rightarrow> gateway \<Rightarrow> 'ev env \<Rightarrow> compiled_endpoint \<Rightarrow> string \<Rightarrow> 's exchange \<Rightarrow>
   's exchange + 's exchange \<times> token_claims option" where
  "legacy_credential lib gw env ep app x =
     (if cfg_disable_auth (gw_config gw) then Inr (x, None)
      else if has_legacy_api_key (x_req x) (cfg_jwt_header_key (gw_config gw)) then Inl (reject_legacy_api_key gw x)
      else (case legacy_parse lib gw env app (get_header x (cfg_jwt_header_key (gw_config gw))) (x_jwks x) of
              (Inl e, jwks1) \<Rightarrow>
                Inl (reply 401 (ErrorDoc ''unauthorized'' (AuthFailure e))
                      (log_reason gw LevelError reason_issuer_rejected (x\<lparr>x_jwks := jwks1\<rparr>)))
            | (Inr None, jwks1) \<Rightarrow> Inr (x\<lparr>x_jwks := jwks1\<rparr>, None)
            | (Inr (Some tc), jwks1) \<Rightarrow>
                if app_mismatch tc app
                then Inl (reply 401 (unauthorized_doc ''token was not issued for this application'')
                           (log_reason gw LevelWarn reason_issuer_rejected (x\<lparr>x_jwks := jwks1\<rparr>)))
                else Inr (log_shadow gw env ep app (Some tc) (x\<lparr>x_jwks := jwks1\<rparr>), Some tc)))"

text \<open>3. The permission check.\<close>

definition legacy_permission ::
  "gateway \<Rightarrow> compiled_endpoint \<Rightarrow> token_claims option \<Rightarrow> 's exchange \<Rightarrow> 's exchange option" where
  "legacy_permission gw ep claims x =
     (let required = legacy_required gw ep in
      if required = [] then None
      else (case claims of
              None \<Rightarrow> Some (reply 401 (unauthorized_doc ''authentication required for this endpoint'')
                             (log_reason gw LevelWarn reason_no_token x))
            | Some tc \<Rightarrow>
                if \<not> authz_has (Some (authz_from_token_roles tc)) required
                then Some (reply 403 (forbidden_doc ''insufficient permissions'')
                            (log_reason gw LevelWarn reason_no_matching_statement x))
                else None))"

text \<open>4. Identity headers and the rate-limit identity.\<close>

definition legacy_stamp :: "gateway \<Rightarrow> string \<Rightarrow> token_claims \<Rightarrow> 's exchange \<Rightarrow> 's exchange" where
  "legacy_stamp gw plan tc x =
     (let cfg = gw_config gw;
          x1 = set_header (cfg_user_plan_header cfg) plan (set_header (cfg_user_id_header cfg) (tc_user_id tc) x);
          x2 = stamp_authz_headers gw (Some (authz_from_token_roles tc)) x1;
          x3 = set_header (cfg_user_uid_header cfg) (tc_subject tc) x2;
          x4 = (if cfg_user_email_header cfg \<noteq> [] \<and> tc_email tc \<noteq> []
                then set_header (cfg_user_email_header cfg) (tc_email tc) x3 else x3)
      in del_header (cfg_session_id_header cfg) x4)"

definition legacy_identity ::
  "gateway \<Rightarrow> 'ev env \<Rightarrow> string \<Rightarrow> token_claims option \<Rightarrow> 's exchange \<Rightarrow> 's exchange \<times> string \<times> string" where
  "legacy_identity gw env app claims x =
     (case claims of
        Some tc \<Rightarrow>
          (case resolve_plan (en_plan env) app (tc_user_id tc) (cfg_default_plan_name (gw_config gw)) (x_plans x) of
             (plan, plans1) \<Rightarrow>
               (legacy_stamp gw plan tc (x\<lparr>x_plans := plans1\<rparr>), user_limit_key app (tc_user_id tc), plan))
      | None \<Rightarrow> anonymous_identity gw app x)"

text \<open>4b. The owner gate; admin is read back from the header stamped above.\<close>

definition legacy_owner ::
  "gateway \<Rightarrow> compiled_endpoint \<Rightarrow> token_claims option \<Rightarrow> 's exchange \<Rightarrow> 's exchange option" where
  "legacy_owner gw ep claims x =
     (if ep_owner_param ep = [] then None
      else (case claims of
              None \<Rightarrow> Some (reply 401 (unauthorized_doc ''authentication required for this endpoint'') x)
            | Some tc \<Rightarrow>
                if get_header x (cfg_is_admin_header (gw_config gw)) \<noteq> ''true'' \<and>
                   \<not> owner_matches (extract_owner ep (x_req x)) (tc_user_id tc) (tc_subject tc)
                then Some (reply 403 (forbidden_doc ''not allowed to access another user's resource'')
                            (log_reason gw LevelWarn reason_owner_mismatch x))
                else None))"

text \<open>5. The rate limit, written out in this engine.\<close>

definition legacy_rate_limit ::
  "('ev, 's, 'e) libs \<Rightarrow> gateway \<Rightarrow> 'ev env \<Rightarrow> compiled_endpoint \<Rightarrow> string \<Rightarrow> string \<Rightarrow> 's exchange \<Rightarrow>
   's exchange \<times> bool" where
  "legacy_rate_limit lib gw env ep key plan x =
     (if \<not> cfg_disable_rate_limit (gw_config gw) \<and> gw_has_limiter gw then
        (case resolve_rate_limit gw ep plan of
           (limit, window) \<Rightarrow>
             if limit > 0 then
               (let (res, l1) = lib_check lib (en_limit env) key (ep_uid ep) limit window (x_limiter x);
                    x1 = x\<lparr>x_limiter := l1\<rparr>
                in case res of
                     CheckPanic \<Rightarrow> (x1\<lparr>x_panicked := True\<rparr>, False)
                   | CheckError _ \<Rightarrow> (x1, True)
                   | Checked r \<Rightarrow>
                       if \<not> rlr_allowed r then (too_many_requests env r x1, False)
                       else (rate_limit_headers r (format_int (rlr_remaining r)) x1, True))
             else (x, True))
      else (x, True))"

text \<open>4 to 6, for a caller that passed the permission check.\<close>

definition legacy_admit ::
  "('ev, 's, 'e) libs \<Rightarrow> gateway \<Rightarrow> 'ev env \<Rightarrow> string \<Rightarrow> compiled_endpoint \<Rightarrow> token_claims option \<Rightarrow>
   's exchange \<Rightarrow> 's exchange" where
  "legacy_admit lib gw env app ep claims x =
     (case legacy_identity gw env app claims x of
        (x1, key, plan) \<Rightarrow>
          (case legacy_owner gw ep claims x1 of
             Some x2 \<Rightarrow> x2
           | None \<Rightarrow>
               (case legacy_rate_limit lib gw env ep key plan x1 of
                  (x2, ok) \<Rightarrow> if ok then forward x2 else x2)))"

definition serve_legacy ::
  "('ev, 's, 'e) libs \<Rightarrow> gateway \<Rightarrow> 'ev env \<Rightarrow> string \<Rightarrow> 's exchange \<Rightarrow> 's exchange" where
  "serve_legacy lib gw env app x =
     (case match_endpoint (en_match_snapshot env) app (req_method (x_req x)) (req_path (x_req x)) of
        None \<Rightarrow> forward x
      | Some ep \<Rightarrow>
          (case legacy_credential lib gw env ep app x of
             Inl done1 \<Rightarrow> done1
           | Inr (x1, claims) \<Rightarrow>
               (case legacy_permission gw ep claims x1 of
                  Some done2 \<Rightarrow> done2
                | None \<Rightarrow> legacy_admit lib gw env app ep claims x1)))"


section \<open>Every stage settles the request or leaves it pending\<close>

lemma log_shadow_frame [simp]:
  "x_req (log_shadow gw env ep app c x) = x_req x" "x_plans (log_shadow gw env ep app c x) = x_plans x"
  "x_rw (log_shadow gw env ep app c x) = x_rw x" "x_forwarded (log_shadow gw env ep app c x) = x_forwarded x"
  "x_panicked (log_shadow gw env ep app c x) = x_panicked x" "x_jwks (log_shadow gw env ep app c x) = x_jwks x"
  "x_limiter (log_shadow gw env ep app c x) = x_limiter x" "x_reasons (log_shadow gw env ep app c x) = x_reasons x"
  by (simp_all add: log_shadow_def Let_def split: option.split)

lemma pending_log_shadow [pending_intros]: "pending x \<Longrightarrow> pending (log_shadow gw env ep app c x)"
  by (simp add: pending_def answered_def)

text \<open>
  the rate limiting written out in the legacy engine is the shared routine of the policy engine.
\<close>

theorem legacy_rate_limit_is_apply_rate_limit:
  "legacy_rate_limit lib gw env ep key plan x = apply_rate_limit lib gw env ep key plan x"
  by (auto simp: legacy_rate_limit_def apply_rate_limit_def Let_def split: prod.split check_result.split)

lemma legacy_rate_limit_eq: "legacy_rate_limit lib gw env ep key plan x = apply_rate_limit lib gw env ep key plan x"
  by (auto simp: legacy_rate_limit_def apply_rate_limit_def Let_def split: prod.split check_result.split)

lemma legacy_credential_Inl:
  assumes "legacy_credential lib gw env ep app x = Inl y" and "pending x"
  shows "settled y \<and> \<not> x_forwarded y"
proof -
  have "settled (reply 401 d (log_reason gw lv r (x\<lparr>x_jwks := j\<rparr>))) \<and>
      \<not> x_forwarded (reply 401 d (log_reason gw lv r (x\<lparr>x_jwks := j\<rparr>)))" for d lv r j
    by (intro pending_reply pending_intros assms(2))
  with assms(1) reject_legacy_settled [OF assms(2), of gw] show ?thesis
    by (auto simp: legacy_credential_def split: if_splits prod.splits sum.splits option.splits)
qed

lemma legacy_credential_Inr:
  assumes "legacy_credential lib gw env ep app x = Inr (y, claims)"
  shows "same_target (x_req y) (x_req x) \<and> x_req y = x_req x \<and> x_plans y = x_plans x \<and> (pending x \<longrightarrow> pending y) \<and>
    (claims \<noteq> None \<longrightarrow> \<not> cfg_disable_auth (gw_config gw) \<and>
       (\<exists>j. legacy_parse lib gw env app (get_header x (cfg_jwt_header_key (gw_config gw))) (x_jwks x) = (Inr claims, j)) \<and>
       (\<forall>tc. claims = Some tc \<longrightarrow> \<not> app_mismatch tc app))"
  using assms
  by (auto simp: legacy_credential_def intro: pending_intros split: if_splits prod.splits sum.splits option.splits)

lemma legacy_permission_Some:
  assumes "legacy_permission gw ep claims x = Some y" and "pending x"
  shows "settled y \<and> \<not> x_forwarded y"
  using assms(1) pending_reply [OF pending_steps(4) [OF assms(2)]]
  by (auto simp: legacy_permission_def Let_def simp del: exchange_simps split: if_splits option.splits)

lemma authz_has_admin: "authz_has (Some (authz_from_token_roles tc)) perm \<longleftrightarrow> tc_is_admin tc"
  by (simp add: authz_has_def authz_from_token_roles_def)

lemma legacy_permission_None:
  "legacy_permission gw ep claims x = None \<longleftrightarrow>
     legacy_required gw ep = [] \<or> (\<exists>tc. claims = Some tc \<and> tc_is_admin tc)"
  by (auto simp: legacy_permission_def Let_def authz_has_admin split: option.split)

lemma pending_legacy_stamp [pending_intros]: "pending x \<Longrightarrow> pending (legacy_stamp gw plan tc x)"
  by (simp add: legacy_stamp_def Let_def pending_intros)

lemma legacy_identity_pending:
  assumes "legacy_identity gw env app claims x = (y, key, plan)" and "pending x"
  shows "pending y"
  using assms pending_anonymous [OF assms(2), of gw app]
  by (auto simp: legacy_identity_def intro: pending_intros split: option.splits prod.splits)

lemma legacy_owner_Some:
  assumes "legacy_owner gw ep claims x = Some y" and "pending x"
  shows "settled y \<and> \<not> x_forwarded y"
  using assms(1) pending_reply [OF assms(2)] pending_reply [OF pending_steps(4) [OF assms(2)]]
  by (auto simp: legacy_owner_def simp del: exchange_simps split: if_splits option.splits)

lemma legacy_owner_None:
  "legacy_owner gw ep claims x = None \<longleftrightarrow>
     ep_owner_param ep = [] \<or>
     (\<exists>tc. claims = Some tc \<and> (get_header x (cfg_is_admin_header (gw_config gw)) = ''true'' \<or>
        owner_matches (extract_owner ep (x_req x)) (tc_user_id tc) (tc_subject tc)))"
  by (auto simp: legacy_owner_def split: option.split)

lemma legacy_admit_settles:
  assumes "pending x"
  shows "settled (legacy_admit lib gw env app ep claims x)"
proof -
  obtain y key plan where id: "legacy_identity gw env app claims x = (y, key, plan)"
    by (cases "legacy_identity gw env app claims x") auto
  then have y: "pending y" using assms by (rule legacy_identity_pending)
  obtain z ok where rl: "apply_rate_limit lib gw env ep key plan y = (z, ok)"
    by (cases "apply_rate_limit lib gw env ep key plan y")
  show ?thesis
    using legacy_owner_Some [OF _ y] apply_rate_limit_settles [OF y rl] pending_forward [of z]
    by (auto simp: legacy_admit_def id legacy_rate_limit_eq rl split: option.split if_splits)
qed

lemma serve_legacy_settles: "pending x \<Longrightarrow> settled (serve_legacy lib gw env app x)"
proof -
  assume x: "pending x"
  have cred: "pending y" if "legacy_credential lib gw env ep app x = Inr (y, claims)" for y ep claims
    using legacy_credential_Inr [OF that] x by blast
  show ?thesis
    unfolding serve_legacy_def
    by (auto split: sum.splits option.splits prod.splits
        dest: legacy_credential_Inl [OF _ x] legacy_permission_Some [OF _ cred]
        intro!: legacy_admit_settles pending_forward [OF x] cred)
qed

interpretation legacy_engine: request_handler "serve_legacy lib gw env app" for lib gw env app
  by unfold_locales (rule serve_legacy_settles)

section \<open>What a forwarded request has passed\<close>

lemma legacy_stamp_target: "same_target (x_req (legacy_stamp gw plan tc x)) (x_req x)"
  by (simp add: legacy_stamp_def stamp_authz_headers_def Let_def)

lemma legacy_identity_target:
  "same_target (x_req (fst (legacy_identity gw env app claims x))) (x_req x)"
proof (cases claims)
  case None
  with anonymous_target [of gw app x] show ?thesis by (simp add: legacy_identity_def)
next
  case (Some tc)
  obtain p ps where "resolve_plan (en_plan env) app (tc_user_id tc) (cfg_default_plan_name (gw_config gw)) (x_plans x) = (p, ps)"
    by fastforce
  with Some legacy_stamp_target [of gw p tc "x\<lparr>x_plans := ps\<rparr>"] show ?thesis by (simp add: legacy_identity_def)
qed

lemma legacy_admit_forwarded:
  assumes "pending x" and "x_forwarded (legacy_admit lib gw env app ep claims x)"
  shows "x_req (legacy_admit lib gw env app ep claims x) = x_req (fst (legacy_identity gw env app claims x)) \<and>
    (ep_owner_param ep = [] \<or>
     (\<exists>tc. claims = Some tc \<and>
        (get_header (fst (legacy_identity gw env app claims x)) (cfg_is_admin_header (gw_config gw)) = ''true'' \<or>
         owner_matches (extract_owner ep (x_req x)) (tc_user_id tc) (tc_subject tc))))"
proof -
  obtain y key plan where id: "legacy_identity gw env app claims x = (y, key, plan)"
    by (cases "legacy_identity gw env app claims x") auto
  then have y: "pending y" using assms(1) by (rule legacy_identity_pending)
  have owner: "legacy_owner gw ep claims y = None"
    using assms(2) by (cases "legacy_owner gw ep claims y")
      (auto simp: legacy_admit_def id dest: legacy_owner_Some [OF _ y])
  have "same_target (x_req y) (x_req x)"
    using legacy_identity_target [of gw env app claims x] by (simp add: id)
  then have "extract_owner ep (x_req y) = extract_owner ep (x_req x)"
    by (intro extract_owner_cong) simp_all
  with owner have "ep_owner_param ep = [] \<or>
     (\<exists>tc. claims = Some tc \<and>
        (get_header y (cfg_is_admin_header (gw_config gw)) = ''true'' \<or>
         owner_matches (extract_owner ep (x_req x)) (tc_user_id tc) (tc_subject tc)))"
    by (simp add: legacy_owner_None)
  moreover have "x_req (legacy_admit lib gw env app ep claims x) = x_req y"
    using apply_rate_limit_req [of lib gw env ep key plan y]
    by (auto simp: legacy_admit_def id owner legacy_rate_limit_eq split: prod.split)
  ultimately show ?thesis by (simp add: id)
qed

lemma serve_legacy_forwarded:
  assumes x: "pending x" and fwd: "x_forwarded (serve_legacy lib gw env app x)"
    and ep: "match_endpoint (en_match_snapshot env) app (req_method (x_req x)) (req_path (x_req x)) = Some ep"
  shows "\<exists>x1 claims. legacy_credential lib gw env ep app x = Inr (x1, claims) \<and>
    (legacy_required gw ep = [] \<or> (\<exists>tc. claims = Some tc \<and> tc_is_admin tc)) \<and>
    x_req (serve_legacy lib gw env app x) = x_req (fst (legacy_identity gw env app claims x1)) \<and>
    (ep_owner_param ep = [] \<or>
     (\<exists>tc. claims = Some tc \<and>
        (get_header (fst (legacy_identity gw env app claims x1)) (cfg_is_admin_header (gw_config gw)) = ''true'' \<or>
         owner_matches (extract_owner ep (x_req x)) (tc_user_id tc) (tc_subject tc))))"
proof -
  obtain x1 claims where c: "legacy_credential lib gw env ep app x = Inr (x1, claims)"
    using fwd by (cases "legacy_credential lib gw env ep app x")
      (auto simp: serve_legacy_def ep dest: legacy_credential_Inl [OF _ x])
  note ci = legacy_credential_Inr [OF c]
  then have x1: "pending x1" using x by blast
  have perm: "legacy_permission gw ep claims x1 = None"
    using fwd by (cases "legacy_permission gw ep claims x1")
      (auto simp: serve_legacy_def ep c dest: legacy_permission_Some [OF _ x1])
  then have run: "serve_legacy lib gw env app x = legacy_admit lib gw env app ep claims x1"
    by (simp add: serve_legacy_def ep c)
  note adm = legacy_admit_forwarded [OF x1 fwd [unfolded run]]
  from ci have "x_req x1 = x_req x" by blast
  with adm perm c show ?thesis
    unfolding run legacy_permission_None by (intro exI [of _ x1] exI [of _ claims]) simp
qed

end
