(* ===== verification/Plugin.thy ===== *)
theory Plugin
  imports Legacy
begin

text \<open>
  \<^verbatim>\<open>ServeHTTP\<close> of \<^verbatim>\<open>plugin.go\<close>: the prelude every request runs through (request id, CORS, removal of
  spoofed trust headers, host resolution, cold-snapshot check), then introspection or one of the two
  engines.
\<close>

section \<open>The prelude\<close>

text \<open>0. CORS: \<open>Inl\<close> is the answered preflight.\<close>

definition preflight :: "gateway \<Rightarrow> 's exchange \<Rightarrow> 's exchange" where
  "preflight gw x =
     (let cfg = gw_config gw;
          x1 = set_reply_header ''Access-Control-Allow-Methods'' (join '', '' (cfg_cors_allowed_methods cfg)) x;
          x2 = set_reply_header ''Access-Control-Allow-Headers'' (join '', '' (cfg_cors_allowed_headers cfg)) x1;
          x3 = (if cfg_cors_max_age cfg > 0
                then set_reply_header ''Access-Control-Max-Age'' (format_int (cfg_cors_max_age cfg)) x2 else x2)
      in x3\<lparr>x_rw := write_header 204 (x_rw x3)\<rparr>)"

definition serve_cors :: "gateway \<Rightarrow> 's exchange \<Rightarrow> 's exchange + 's exchange" where
  "serve_cors gw x =
     (if cfg_cors_allowed_origins (gw_config gw) = [] then Inr x
      else (let origin = get_header x ''Origin'';
                x1 = (if origin \<noteq> [] then x\<lparr>x_rw := fst (apply_cors_headers gw origin (x_rw x))\<rparr> else x)
            in if req_method (x_req x1) = ''OPTIONS'' then Inl (preflight gw x1) else Inr x1))"

text \<open>The gateway-owned headers removed from every inbound request, in the code's order.\<close>

definition trust_headers :: "config \<Rightarrow> string list" where
  "trust_headers cfg =
     [cfg_app_id_header cfg, cfg_user_id_header cfg, cfg_user_plan_header cfg, cfg_is_admin_header cfg,
      cfg_user_roles_header cfg, legacy_api_key_uid_header, cfg_user_uid_header cfg] @
     (if cfg_user_email_header cfg \<noteq> [] then [cfg_user_email_header cfg] else [])"

definition strip_trust_headers :: "gateway \<Rightarrow> 's exchange \<Rightarrow> 's exchange" where
  "strip_trust_headers gw x = fold del_header (trust_headers (gw_config gw)) x"

text \<open>1a. The application of the request host.\<close>

definition resolve_app ::
  "('ev, 's, 'e) libs \<Rightarrow> gateway \<Rightarrow> 'ev env \<Rightarrow> 's exchange \<Rightarrow> 's exchange + 's exchange \<times> string" where
  "resolve_app lib gw env x =
     (let cfg = gw_config gw in
      if cfg_app_resolution_mode cfg = ''disabled'' \<or> \<not> gw_has_registry gw then Inr (x, [])
      else (case resolve_host (lib_uni lib) (en_resolve_registry env) (resolution_host gw (x_req x)) of
              Some app \<Rightarrow> Inr (set_header (cfg_app_id_header cfg) app x, app)
            | None \<Rightarrow>
                if cfg_app_resolution_mode cfg = ''enforce'' then
                  Inl (if cold_start (en_cold_registry env)
                       then reply 503 (ErrorDoc ''registry_unavailable'' (Text ''application registry is not ready'')) x
                       else reply 403 (ErrorDoc ''unknown_app'' (Text ''host is not mapped to an active application'')) x)
                else Inr (x, [])))"

definition snapshot_cold :: "gateway \<Rightarrow> 'ev env \<Rightarrow> bool" where
  "snapshot_cold gw env \<longleftrightarrow>
     cfg_app_resolution_mode (gw_config gw) = ''enforce'' \<and> \<not> sc_loaded (en_loaded_snapshot env)"

section \<open>ServeHTTP\<close>

text \<open>Past the cold-snapshot check: introspection or an engine.\<close>

definition dispatch ::
  "('ev, 's, 'e) libs \<Rightarrow> gateway \<Rightarrow> 'ev env \<Rightarrow> string \<Rightarrow> string \<Rightarrow> 's exchange \<Rightarrow> 's exchange" where
  "dispatch lib gw env app requested x =
     (if req_path (x_req x) = iam_me_path then serve_iam_me lib gw env app x
      else if gw_policy_mode gw then serve_policy lib gw env app requested x
      else serve_legacy lib gw env app x)"

definition serve_http :: "('ev, 's, 'e) libs \<Rightarrow> gateway \<Rightarrow> 'ev env \<Rightarrow> 's exchange \<Rightarrow> 's exchange" where
  "serve_http lib gw env x =
     (case serve_cors gw (ensure_request_id env x) of
        Inl done1 \<Rightarrow> done1
      | Inr x1 \<Rightarrow>
          (let requested = trim_space (get_header x1 (cfg_app_id_header (gw_config gw))) in
           case resolve_app lib gw env (strip_trust_headers gw x1) of
             Inl done2 \<Rightarrow> done2
           | Inr (x2, app) \<Rightarrow>
               if snapshot_cold gw env
               then reply 503 (ErrorDoc ''snapshot_unavailable'' (Text ''registry snapshot is not loaded'')) x2
               else dispatch lib gw env app requested x2))"

text \<open>A request as it arrives: an untouched response writer, nothing logged, nothing forwarded.\<close>

definition fresh_response :: "doc response" where
  "fresh_response = \<lparr>rsp_header = Map.empty, rsp_status = None, rsp_body = []\<rparr>"

definition arrives :: "request \<Rightarrow> (string \<rightharpoonup> jwks_cache) \<Rightarrow> plan_resolver \<Rightarrow> 's \<Rightarrow> 's exchange" where
  "arrives req jwks plans limiter =
     \<lparr>x_rw = fresh_response, x_req = req, x_jwks = jwks, x_plans = plans, x_limiter = limiter,
      x_reasons = [], x_shadows = [], x_forwarded = False, x_panicked = False\<rparr>"


section \<open>Every request comes to one end\<close>

lemma pending_arrives: "pending (arrives req jwks plans limiter)"
  by (simp add: arrives_def fresh_response_def pending_def answered_def)

lemma fold_del_header:
  "fold del_header ks x =
     x\<lparr>x_req := (x_req x)\<lparr>req_header :=
       (\<lambda>c. if c \<in> canonical_key ` set ks then None else req_header (x_req x) c)\<rparr>\<rparr>"
proof (induction ks arbitrary: x)
  case (Cons k ks)
  show ?case
    by (simp add: Cons.IH) (auto simp: del_header_def del_req_header_def h_del_def fun_eq_iff intro!: exchange.equality request.equality)
qed simp

lemma strip_trust_headers_eq:
  "strip_trust_headers gw x =
     x\<lparr>x_req := (x_req x)\<lparr>req_header :=
       (\<lambda>c. if c \<in> canonical_key ` set (trust_headers (gw_config gw)) then None else req_header (x_req x) c)\<rparr>\<rparr>"
  by (simp only: strip_trust_headers_def fold_del_header)

lemma pending_strip [pending_intros]: "pending x \<Longrightarrow> pending (strip_trust_headers gw x)"
  by (simp add: strip_trust_headers_eq pending_def answered_def)

lemma apply_cors_status: "rsp_status (fst (apply_cors_headers gw origin rw)) = rsp_status rw"
  by (simp add: apply_cors_headers_def Let_def)

lemma serve_cors_Inr:
  assumes "serve_cors gw x = Inr y"
  shows "x_req y = x_req x \<and> x_jwks y = x_jwks x \<and> x_plans y = x_plans x \<and> (pending x \<longrightarrow> pending y)"
  using assms
  by (auto simp: serve_cors_def Let_def pending_def answered_def apply_cors_status split: if_splits)

lemma preflight_settled:
  "pending x \<Longrightarrow> settled (preflight gw x) \<and> \<not> x_forwarded (preflight gw x) \<and> rsp_status (x_rw (preflight gw x)) = Some 204"
  by (simp add: preflight_def Let_def pending_def settled_def answered_def)

lemma serve_cors_Inl:
  assumes "serve_cors gw x = Inl y" and "pending x"
  shows "settled y \<and> \<not> x_forwarded y \<and> rsp_status (x_rw y) = Some 204 \<and> req_method (x_req x) = ''OPTIONS''"
proof -
  have "pending (x\<lparr>x_rw := fst (apply_cors_headers gw origin (x_rw x))\<rparr>)" for origin
    using assms(2) by (simp add: pending_def answered_def apply_cors_status)
  with assms preflight_settled [of x gw] preflight_settled [of _ gw] show ?thesis
    by (auto simp: serve_cors_def Let_def split: if_splits)
qed

lemma resolve_app_Inl:
  "resolve_app lib gw env x = Inl y \<Longrightarrow> pending x \<Longrightarrow> settled y \<and> \<not> x_forwarded y"
  using pending_reply [of x]
  by (auto simp: resolve_app_def Let_def simp del: exchange_simps split: if_splits option.splits)

lemma resolve_app_Inr:
  "resolve_app lib gw env x = Inr (y, app) \<Longrightarrow>
     (y = x \<and> app = [] \<and> cfg_app_resolution_mode (gw_config gw) \<noteq> ''enforce'' \<or>
      y = x \<and> app = [] \<and> \<not> gw_has_registry gw \<or>
      y = set_header (cfg_app_id_header (gw_config gw)) app x \<and>
      resolve_host (lib_uni lib) (en_resolve_registry env) (resolution_host gw (x_req x)) = Some app)"
  by (auto simp: resolve_app_def Let_def split: if_splits option.splits)

lemma dispatch_settles: "pending x \<Longrightarrow> settled (dispatch lib gw env app requested x)"
  by (simp add: dispatch_def introspection.settles policy_engine.settles legacy_engine.settles)

lemma serve_http_settles:
  assumes "pending x"
  shows "settled (serve_http lib gw env x)"
proof -
  have e: "pending (ensure_request_id env x)" using assms by (rule pending_ensure_request_id)
  have c: "pending (strip_trust_headers gw y)" if "serve_cors gw (ensure_request_id env x) = Inr y" for y
    using serve_cors_Inr [OF that] e by (auto intro: pending_intros)
  have r: "pending z" if "serve_cors gw (ensure_request_id env x) = Inr y"
    and "resolve_app lib gw env (strip_trust_headers gw y) = Inr (z, app)" for y z app
    using resolve_app_Inr [OF that(2)] c [OF that(1)] by (auto intro: pending_intros)
  show ?thesis
    unfolding serve_http_def Let_def
    by (auto split: sum.splits prod.splits dest: serve_cors_Inl [OF _ e] resolve_app_Inl [OF _ c]
        intro!: dispatch_settles r pending_reply [THEN conjunct1])
qed

text \<open>
  C9: every request that arrives comes to exactly one end: it is forwarded with nothing written to the
  response, or answered with one status and not forwarded, or a panic of the Redis client ends it.
\<close>

theorem every_request_settles: "settled (serve_http lib gw env (arrives req jwks plans limiter))"
  by (rule serve_http_settles [OF pending_arrives])

text \<open>The path of a forwarded request through the prelude.\<close>

lemma serve_http_forwarded:
  assumes "pending x" and "x_forwarded (serve_http lib gw env x)"
  shows "\<exists>x1 x2 app. serve_cors gw (ensure_request_id env x) = Inr x1 \<and>
    resolve_app lib gw env (strip_trust_headers gw x1) = Inr (x2, app) \<and> \<not> snapshot_cold gw env \<and> pending x2 \<and>
    req_path (x_req x2) \<noteq> iam_me_path \<and>
    serve_http lib gw env x = dispatch lib gw env app (trim_space (get_header x1 (cfg_app_id_header (gw_config gw)))) x2"
proof -
  have e: "pending (ensure_request_id env x)" using assms(1) by (rule pending_ensure_request_id)
  obtain x1 where x1: "serve_cors gw (ensure_request_id env x) = Inr x1"
    using assms(2) by (cases "serve_cors gw (ensure_request_id env x)")
      (auto simp: serve_http_def dest: serve_cors_Inl [OF _ e])
  then have s: "pending (strip_trust_headers gw x1)"
    using serve_cors_Inr [OF x1] e by (auto intro: pending_intros)
  obtain x2 app where x2: "resolve_app lib gw env (strip_trust_headers gw x1) = Inr (x2, app)"
    using assms(2) by (cases "resolve_app lib gw env (strip_trust_headers gw x1)")
      (auto simp: serve_http_def x1 Let_def dest: resolve_app_Inl [OF _ s])
  have p2: "pending x2" using resolve_app_Inr [OF x2] s by (auto intro: pending_intros)
  have warm: "\<not> snapshot_cold gw env"
    using assms(2) pending_reply [OF p2] by (auto simp: serve_http_def x1 x2 Let_def simp del: exchange_simps split: if_splits)
  then have run: "serve_http lib gw env x =
      dispatch lib gw env app (trim_space (get_header x1 (cfg_app_id_header (gw_config gw)))) x2"
    by (simp add: serve_http_def x1 x2 Let_def)
  with assms(2) have "req_path (x_req x2) \<noteq> iam_me_path"
    by (auto simp: dispatch_def dest: serve_iam_me_settles [OF p2, THEN conjunct2, THEN notE])
  with x1 x2 warm p2 run show ?thesis by blast
qed

end
