(* ===== verification/Samples.thy ===== *)
theory Samples
  imports Plugin
begin

text \<open>
  One deployment and one request on which the theorems about whole requests are instantiated: an
  application \<^verbatim>\<open>a\<close> with a realm of its own, an endpoint \<^verbatim>\<open>GET /x\<close> that demands a permission, and
  an editor's bearer token, sent together with forged identity headers.
\<close>

definition demo_payload :: json_object where
  "demo_payload = [(''iss'', JStr ''i''), (''sub'', JStr ''s''), (''app_id'', JStr ''a''), (''luid'', JStr ''42''),
     (''realm_access'', JObj [(''roles'', JArr [JStr ''editor''])])]"

definition demo_libs :: "(unit, unit, unit) libs" where
  "demo_libs = \<lparr>lib_uni = (\<lambda>s. s),
     lib_unmarshal = (\<lambda>s. if s = ''h'' then Some (JObj [(''alg'', JStr ''RS256''), (''kid'', JStr ''k'')])
                         else if s = ''c'' then Some (JObj demo_payload) else None),
     lib_verify = (\<lambda>_ _ sig _. sig = ''s''), lib_check = (\<lambda>_ _ _ _ _ l. (CheckError (), l))\<rparr>"

definition demo_config :: config where
  "demo_config = create_config\<lparr>cfg_keycloak_admin_roles := [''editor'']\<rparr>"

definition demo_gateway :: "bool \<Rightarrow> gateway" where
  "demo_gateway policy_mode = \<lparr>gw_config = demo_config, gw_log = LevelWarn, gw_policy_mode = policy_mode,
     gw_has_registry = True, gw_has_limiter = False, gw_realms = [''a'' \<mapsto> \<lparr>rlm_issuer = ''i'', rlm_jwks_url = ''u''\<rparr>],
     gw_leeway = 0, gw_operator = None\<rparr>"

text \<open>The registry maps \<^verbatim>\<open>a.example\<close> to \<^verbatim>\<open>a\<close>; editors may read documents of their own application.\<close>

definition demo_registry :: app_registry where
  "demo_registry = new_app_registry\<lparr>reg_by_host := [(''a.example'', ''a'')], reg_active := [''a''], reg_loaded := True\<rparr>"

definition demo_endpoint :: compiled_endpoint where
  "demo_endpoint = (sample_endpoint ''a'')\<lparr>ep_required_permission := ''doc.read''\<rparr>"

definition demo_snapshot :: snapshot_cache where
  "demo_snapshot = new_snapshot_cache\<lparr>sc_loaded := True, sc_compiled := [demo_endpoint],
     sc_policies := Some (new_policy_index
       [\<lparr>pol_name = ''p'', pol_statements = [\<lparr>st_actions = [''doc.*''], st_apps = [app_home]\<rparr>]\<rparr>]
       [\<lparr>bnd_role = ''editor'', bnd_policy = ''p''\<rparr>])\<rparr>"

definition demo_env :: "unit env" where
  "demo_env = \<lparr>en_random = None, en_nano = 26, en_resolve_registry = demo_registry, en_cold_registry = demo_registry,
     en_active_registry = demo_registry, en_ids_registry = demo_registry, en_loaded_snapshot = demo_snapshot,
     en_match_snapshot = demo_snapshot, en_host_match_snapshot = demo_snapshot, en_policy_snapshot = demo_snapshot,
     en_jwt_now = 0, en_jwks = \<lparr>je_now = 0, je_refresh_now = 0, je_fetch = \<lambda>_. TransportFailed\<rparr>,
     en_plan = \<lparr>ple_now = 0, ple_store_now = 0, ple_fetch = \<lambda>_. TransportFailed\<rparr>, en_limit = (), en_retry_now = 0\<rparr>"

definition demo_jwks :: "string \<rightharpoonup> jwks_cache" where
  "demo_jwks = [''u'' \<mapsto> (new_jwks_cache ''u'' 10)\<lparr>jc_keys := [''k'' \<mapsto> \<lparr>rsa_n = 23, rsa_e = 3\<rparr>]\<rparr>]"

definition demo_request :: request where
  "demo_request = \<lparr>req_method = ''GET'', req_host = ''a.example'', req_path = ''/x'', req_raw_query = [],
     req_remote_addr = ''10.0.0.1:99'',
     req_header = [''Authorization'' \<mapsto> [''Bearer aA.Yw.cw''], ''X-User-Id'' \<mapsto> [''1''], ''X-Is-Admin'' \<mapsto> [''true'']]\<rparr>"

abbreviation demo_run :: "bool \<Rightarrow> unit exchange" where
  "demo_run policy_mode \<equiv> serve_http demo_libs (demo_gateway policy_mode) demo_env
     (arrives demo_request demo_jwks (new_plan_resolver []) ())"

text \<open>Both engines forward it.\<close>

lemma demo_forwarded: "x_forwarded (demo_run True)" "x_forwarded (demo_run False)"
  by code_simp+

end
