(* ===== verification/Admission.thy ===== *)
theory Admission
  imports Samples
begin

text \<open>
  Laws of the stages the engines share: what the rate limit admits and answers, which keys it counts
  under, what the shadow verdict of the legacy engine says, and the reasons logged with a denial.
\<close>

section \<open>The rate limit\<close>

text \<open>The verdict on a request that is subject to a limit.\<close>

definition limit_admits ::
  "('ev, 's, 'e) libs \<Rightarrow> gateway \<Rightarrow> 'ev env \<Rightarrow> compiled_endpoint \<Rightarrow> string \<Rightarrow> string \<Rightarrow> 's \<Rightarrow> bool" where
  "limit_admits lib gw env ep key plan limiter \<longleftrightarrow>
     (case resolve_rate_limit gw ep plan of
        (limit, window) \<Rightarrow> limit \<le> 0 \<or>
          (case fst (lib_check lib (en_limit env) key (ep_uid ep) limit window limiter) of
             CheckPanic \<Rightarrow> False | CheckError _ \<Rightarrow> True | Checked r \<Rightarrow> rlr_allowed r))"

text \<open>
  C18: \<^verbatim>\<open>applyRateLimit\<close> lets a request on exactly when rate limiting is off, the plan's limit is not positive,
  the limiter fails (it fails open) or the limiter allows it; otherwise the request is answered with 429 and
  a \<^verbatim>\<open>Retry-After\<close> header, or a panic of the Redis client ended it.  A request let on is unanswered.
\<close>

theorem rate_limit_admits_iff:
  assumes "pending x" and "apply_rate_limit lib gw env ep key plan x = (y, ok)"
  shows "(ok \<longleftrightarrow> cfg_disable_rate_limit (gw_config gw) \<or> \<not> gw_has_limiter gw \<or>
      limit_admits lib gw env ep key plan (x_limiter x)) \<and>
    (if ok then pending y
     else x_panicked y \<or> rsp_status (x_rw y) = Some 429 \<and> rsp_header (x_rw y) (canonical_key ''Retry-After'') \<noteq> None)"
proof
  show "ok \<longleftrightarrow> cfg_disable_rate_limit (gw_config gw) \<or> \<not> gw_has_limiter gw \<or>
      limit_admits lib gw env ep key plan (x_limiter x)"
    using assms(2) by (auto simp: apply_rate_limit_def limit_admits_def Let_def split: if_splits prod.splits check_result.splits)
  have "rsp_status (x_rw x) = None" using assms(1) by (simp add: pending_def answered_def)
  then show "if ok then pending y
     else x_panicked y \<or> rsp_status (x_rw y) = Some 429 \<and> rsp_header (x_rw y) (canonical_key ''Retry-After'') \<noteq> None"
    using assms(2) apply_rate_limit_settles [OF assms]
    by (auto simp: apply_rate_limit_def too_many_requests_def rate_limit_headers_def write_json_def h_set_apply Let_def
        split: if_splits prod.splits check_result.splits)
qed

theorem rate_limit_admits_iff_witness:
  "let lib = demo_libs\<lparr>lib_check := \<lambda>_ _ _ _ _ l. (Checked \<lparr>rlr_allowed = False, rlr_remaining = 0, rlr_limit = 3, rlr_reset_at = 60\<rparr>, l)\<rparr>;
       gw = (demo_gateway True)\<lparr>gw_has_limiter := True\<rparr>;
       x = arrives demo_request demo_jwks (new_plan_resolver []) ()
   in \<not> snd (apply_rate_limit lib gw demo_env demo_endpoint ''k'' ''free'' x) \<and>
      rsp_status (x_rw (fst (apply_rate_limit lib gw demo_env demo_endpoint ''k'' ''free'' x))) = Some 429"
proof -
  let ?lib = "demo_libs\<lparr>lib_check := \<lambda>_ _ _ _ _ l. (Checked \<lparr>rlr_allowed = False, rlr_remaining = 0, rlr_limit = 3, rlr_reset_at = 60\<rparr>, l)\<rparr>"
  let ?gw = "(demo_gateway True)\<lparr>gw_has_limiter := True\<rparr>"
  let ?x = "arrives demo_request demo_jwks (new_plan_resolver []) ()"
  have "apply_rate_limit ?lib ?gw demo_env demo_endpoint ''k'' ''free'' ?x =
      (fst (apply_rate_limit ?lib ?gw demo_env demo_endpoint ''k'' ''free'' ?x),
       snd (apply_rate_limit ?lib ?gw demo_env demo_endpoint ''k'' ''free'' ?x))"
    by simp
  note rate_limit_admits_iff [OF pending_arrives this]
  moreover have "\<not> limit_admits ?lib ?gw demo_env demo_endpoint ''k'' ''free'' (x_limiter ?x)"
    and "\<not> cfg_disable_rate_limit (gw_config ?gw)" and "gw_has_limiter ?gw"
    and "\<not> x_panicked (fst (apply_rate_limit ?lib ?gw demo_env demo_endpoint ''k'' ''free'' ?x))"
    by code_simp+
  ultimately show ?thesis unfolding Let_def by auto
qed

text \<open>
  a holder of the wildcard on the target application passes the owner gate and is exempt from rate
  limiting: its requests are forwarded without consulting or changing the limiter.
\<close>

theorem wildcard_exempt_from_rate_limit:
  assumes "pending x" and "is_wildcard (Some pr) target"
  shows "let y = policy_admit lib gw env target ep (Some (tc, pr)) x
    in x_limiter y = x_limiter x \<and> x_forwarded y"
proof -
  obtain p ps where "resolve_plan (en_plan env) target (tc_user_id tc) (cfg_default_plan_name (gw_config gw)) (x_plans x) = (p, ps)"
    by fastforce
  with assms(2) show ?thesis
    by (simp add: policy_admit_def policy_identity_def policy_owner_def policy_stamp_def Let_def)
qed

theorem wildcard_exempt_from_rate_limit_witness:
  "let pr = \<lparr>pr_subject = ''s'', pr_user_id = ''1'', pr_home_app = ''a'', pr_email = [], pr_roles = [''r''],
         pr_statements = [\<lparr>st_actions = [''*''], st_apps = [app_home]\<rparr>], pr_bound_roles = [''r''], pr_policies = [''p'']\<rparr>;
       y = policy_admit demo_libs (demo_gateway True) demo_env ''a'' demo_endpoint (Some (sample_claims, pr))
             (arrives demo_request demo_jwks (new_plan_resolver []) ())
   in x_limiter y = x_limiter (arrives demo_request demo_jwks (new_plan_resolver []) ()) \<and> x_forwarded y"
  unfolding Let_def by (rule wildcard_exempt_from_rate_limit [unfolded Let_def, OF pending_arrives]) code_simp

section \<open>Counting keys\<close>

lemma app_key_inj:
  fixes t t' :: string
  assumes "CHR ''|'' \<notin> set t" and "CHR ''|'' \<notin> set t'"
    and "''app:'' @ t @ CHR ''|'' # u = ''app:'' @ t' @ CHR ''|'' # u'"
  shows "t = t' \<and> u = u'"
proof -
  have "index_byte (t @ CHR ''|'' # u) (CHR ''|'') = Some (length t)"
    and "index_byte (t' @ CHR ''|'' # u') (CHR ''|'') = Some (length t')"
    using assms(1,2) by (simp_all add: index_byte_append)
  with assms(3) show ?thesis by simp
qed

lemma anonymous_key_shape:
  "fst (snd (anonymous_identity gw t x)) =
     ''app:'' @ t @ CHR ''|'' # anonymous_rate_limit_key (get_header x (cfg_device_id_header (gw_config gw)))
       (get_header x (cfg_session_id_header (gw_config gw))) (client_ip (x_req (fst (anonymous_identity gw t x))))"
  by (simp add: anonymous_identity_def Let_def)

text \<open>
  C25: the keys requests are counted under keep callers apart: users of different applications, different
  users of one application, and users and anonymous callers never share a counter, whatever device and session ids
  an anonymous caller sends (application ids do not contain a vertical bar).
\<close>

theorem limit_keys_separate:
  assumes "CHR ''|'' \<notin> set t" and "CHR ''|'' \<notin> set t'"
  shows "(user_limit_key t u = user_limit_key t' u' \<longleftrightarrow> t = t' \<and> u = u') \<and>
    user_limit_key t u \<noteq> fst (snd (anonymous_identity gw t' x)) \<and>
    (fst (snd (anonymous_identity gw t x)) = fst (snd (anonymous_identity gw' t' x')) \<longrightarrow> t = t')"
proof -
  have u: "user_limit_key t u = ''app:'' @ t @ CHR ''|'' # ''user:'' @ u" for t u
    by (simp add: user_limit_key_def)
  have "anonymous_rate_limit_key d s ip \<noteq> ''user:'' @ u" for d s ip
    by (simp add: anonymous_rate_limit_key_def)
  then show ?thesis
    unfolding anonymous_key_shape u using app_key_inj [OF assms] by (metis append_same_eq same_append_eq)
qed

theorem limit_keys_separate_witness:
  "user_limit_key ''a'' ''1'' \<noteq> user_limit_key ''b'' ''1'' \<and>
   user_limit_key ''a'' ''1'' \<noteq>
     fst (snd (anonymous_identity (demo_gateway True) ''b'' (arrives demo_request demo_jwks (new_plan_resolver []) ())))"
  using limit_keys_separate [of "''a''" "''b''" "''1''" "''1''" "demo_gateway True"
      "arrives demo_request demo_jwks (new_plan_resolver []) ()" "demo_gateway True"
      "arrives demo_request demo_jwks (new_plan_resolver []) ()"]
  by simp

section \<open>Shadow verdicts\<close>

text \<open>
  C24: the verdict the legacy engine logs is the decision of the policy engine: a shadow entry is written for
  every authenticated caller when the level is at least \<^verbatim>\<open>info\<close>; it says allowed exactly when the permission stage of the policy
  engine would let the caller pass, for the permission the legacy engine demands, and admin exactly when the caller
  holds the wildcard on the target.  Nothing else of the exchange changes.
\<close>

theorem shadow_is_policy_verdict:
  assumes "log_enabled (Some (gw_log gw)) LevelInfo"
  shows "\<exists>sh. log_shadow gw env ep target (Some tc) x = x\<lparr>x_shadows := x_shadows x @ [sh]\<rparr> \<and>
    sh_required sh = legacy_required gw ep \<and>
    (sh_allowed sh \<longleftrightarrow>
       policy_permission gw (ep\<lparr>ep_required_permission := legacy_required gw ep\<rparr>) target
         (principal_for (en_policy_snapshot env) (Some tc)) y = None) \<and>
    (sh_admin sh \<longleftrightarrow> is_wildcard (principal_for (en_policy_snapshot env) (Some tc)) target)"
proof -
  obtain pr where "principal_for (en_policy_snapshot env) (Some tc) = Some pr"
    using principal_for_None [of "en_policy_snapshot env" "Some tc"] by auto
  with assms show ?thesis
    by (auto simp: log_shadow_def Let_def policy_permission_None)
qed

theorem shadow_is_policy_verdict_witness:
  "\<exists>sh. log_shadow ((demo_gateway False)\<lparr>gw_log := LevelInfo\<rparr>) demo_env demo_endpoint ''a'' (Some sample_claims)
        (arrives demo_request demo_jwks (new_plan_resolver []) ()) =
      (arrives demo_request demo_jwks (new_plan_resolver []) ())\<lparr>x_shadows :=
        x_shadows (arrives demo_request demo_jwks (new_plan_resolver []) ()) @ [sh]\<rparr>"
proof -
  have "log_enabled (Some (gw_log ((demo_gateway False)\<lparr>gw_log := LevelInfo\<rparr>))) LevelInfo"
    by (simp add: log_enabled_def)
  from shadow_is_policy_verdict [OF this, of demo_env demo_endpoint "''a''" sample_claims
      "arrives demo_request demo_jwks (new_plan_resolver []) ()"]
  show ?thesis by blast
qed

section \<open>Reasons\<close>

text \<open>A denial is accounted for: an answer 401 or 403 goes with exactly one logged reason.\<close>

definition accounted :: "'s exchange \<Rightarrow> bool" where
  "accounted y \<longleftrightarrow> (rsp_status (x_rw y) \<in> {Some 401, Some 403} \<longrightarrow> length (x_reasons y) = 1)"

definition unlogged :: "'s exchange \<Rightarrow> bool" where
  "unlogged x \<longleftrightarrow> pending x \<and> x_reasons x = []"

lemma unlogged_accounted: "unlogged x \<Longrightarrow> accounted x"
  by (simp add: unlogged_def accounted_def pending_def answered_def)

lemma deny_accounted:
  "log_enabled (Some (gw_log gw)) LevelWarn \<Longrightarrow> unlogged x \<Longrightarrow> accounted (deny gw st d r x)"
  by (simp add: accounted_def unlogged_def deny_def log_reason_def)

lemma warn_error: "log_enabled (Some lv) LevelWarn \<Longrightarrow> log_enabled (Some lv) LevelError"
  by (cases lv) (simp_all add: log_enabled_def less_eq_log_level_def)

lemma reply_reason_accounted:
  "log_enabled (Some (gw_log gw)) lv \<Longrightarrow> unlogged x \<Longrightarrow> accounted (reply st d (log_reason gw lv r x))"
  by (simp add: accounted_def unlogged_def log_reason_def)

lemma unlogged_steps:
  "unlogged x \<Longrightarrow> unlogged (set_header k v x)" "unlogged x \<Longrightarrow> unlogged (x\<lparr>x_jwks := j\<rparr>)"
  "unlogged x \<Longrightarrow> unlogged (x\<lparr>x_plans := p\<rparr>)" "unlogged x \<Longrightarrow> unlogged (del_header k x)"
  by (simp_all add: unlogged_def pending_intros)

lemma forward_accounted: "unlogged x \<Longrightarrow> accounted (forward x)"
  by (simp add: unlogged_def accounted_def pending_def answered_def)

lemma policy_target_accounted:
  assumes "log_enabled (Some (gw_log gw)) LevelWarn" and "unlogged x"
  shows "policy_target gw env app requested x = Inl y \<Longrightarrow> accounted y"
    and "policy_target gw env app requested x = Inr (y, target) \<Longrightarrow> unlogged y"
  using deny_accounted [OF assms] unlogged_steps(1) [OF assms(2)] assms(2)
  by (auto simp: policy_target_def Let_def split: if_splits)

lemma policy_endpoint_accounted:
  assumes "log_enabled (Some (gw_log gw)) LevelWarn" and "unlogged x"
  shows "policy_endpoint gw env app target x = Inl y \<Longrightarrow> accounted y"
  using deny_accounted [OF assms] forward_accounted [OF assms(2)]
  by (auto simp: policy_endpoint_def split: if_splits option.splits)

lemma policy_credential_accounted:
  assumes "log_enabled (Some (gw_log gw)) LevelWarn" and "unlogged x"
  shows "policy_credential lib gw env target x = Inl y \<Longrightarrow> accounted y"
    and "policy_credential lib gw env target x = Inr (y, claims) \<Longrightarrow> unlogged y"
  using reply_reason_accounted [OF assms] reply_reason_accounted [OF warn_error [OF assms(1)] unlogged_steps(2) [OF assms(2)]]
    unlogged_steps(2) [OF assms(2)]
  by (auto simp: policy_credential_def reject_legacy_api_key_def split: if_splits prod.splits sum.splits)

lemma policy_permission_accounted:
  assumes "log_enabled (Some (gw_log gw)) LevelWarn" and "unlogged x"
  shows "policy_permission gw ep target pr x = Some y \<Longrightarrow> accounted y"
  using deny_accounted [OF assms] by (auto simp: policy_permission_def Let_def split: if_splits)

lemma policy_owner_accounted:
  assumes "log_enabled (Some (gw_log gw)) LevelWarn" and "unlogged x"
  shows "policy_owner gw ep claims w x = Some y \<Longrightarrow> accounted y"
  using deny_accounted [OF assms] by (auto simp: policy_owner_def split: if_splits option.splits)

lemma unlogged_policy_stamp: "unlogged x \<Longrightarrow> unlogged (policy_stamp gw plan tc pr target x)"
  by (simp add: policy_stamp_def Let_def unlogged_steps)

lemma policy_identity_unlogged:
  "policy_identity gw env target caller x = (y, key, plan, w) \<Longrightarrow> unlogged x \<Longrightarrow> unlogged y"
  by (auto simp: policy_identity_def anonymous_identity_def Let_def unlogged_policy_stamp unlogged_steps
      split: option.splits prod.splits)

lemma rate_limit_accounted:
  assumes "unlogged x" and "apply_rate_limit lib gw env ep key plan x = (y, ok)"
  shows "accounted (if ok then forward y else y)"
proof -
  have "rsp_status (x_rw x) = None" using assms(1) by (simp add: unlogged_def pending_def answered_def)
  then show ?thesis
    using assms(2)
    by (auto simp: accounted_def apply_rate_limit_def too_many_requests_def rate_limit_headers_def Let_def
        split: if_splits prod.splits check_result.splits)
qed

lemma policy_admit_accounted:
  assumes w: "log_enabled (Some (gw_log gw)) LevelWarn" and x: "unlogged x"
  shows "accounted (policy_admit lib gw env target ep caller x)"
proof -
  obtain y key plan wc where id: "policy_identity gw env target caller x = (y, key, plan, wc)"
    by (cases "policy_identity gw env target caller x") auto
  then have y: "unlogged y" using x by (rule policy_identity_unlogged)
  obtain z ok where rl: "apply_rate_limit lib gw env ep key plan y = (z, ok)"
    by (cases "apply_rate_limit lib gw env ep key plan y")
  show ?thesis
    using policy_owner_accounted [OF w y] rate_limit_accounted [OF y rl] forward_accounted [OF y]
    by (auto simp: policy_admit_def id rl split: option.split)
qed

lemma serve_policy_accounted:
  assumes w: "log_enabled (Some (gw_log gw)) LevelWarn" and x: "unlogged x"
  shows "accounted (serve_policy lib gw env app requested x)"
  unfolding serve_policy_def Let_def
  by (auto split: sum.split option.split prod.split
      intro: policy_target_accounted(1) [OF w x] policy_endpoint_accounted [OF w policy_target_accounted(2) [OF w x]]
        policy_credential_accounted(1) [OF w policy_target_accounted(2) [OF w x]]
        policy_permission_accounted [OF w policy_credential_accounted(2) [OF w policy_target_accounted(2) [OF w x]]]
        policy_admit_accounted [OF w policy_credential_accounted(2) [OF w policy_target_accounted(2) [OF w x]]])

lemma serve_iam_me_accounted:
  assumes w: "log_enabled (Some (gw_log gw)) LevelWarn" and x: "unlogged x"
  shows "accounted (serve_iam_me lib gw env app x)"
proof -
  have "rsp_status (x_rw x) = None" using x by (simp add: unlogged_def pending_def answered_def)
  then show ?thesis
    using deny_accounted [OF w unlogged_steps(2) [OF x]]
    by (auto simp: serve_iam_me_def accounted_def [of "reply 405 _ _"] accounted_def [of "reply 200 _ _"] Let_def
        split: sum.split option.split prod.split)
qed

text \<open>
  C23: in policy mode every 401 and 403 of the engine and of the introspection endpoint goes with exactly one
  logged reason code, at any log level from \<^verbatim>\<open>warn\<close> up.
\<close>

theorem policy_denials_logged_once:
  assumes "gw_policy_mode gw" and "log_enabled (Some (gw_log gw)) LevelWarn" and "pending x" and "x_reasons x = []"
    and "rsp_status (x_rw (dispatch lib gw env app requested x)) \<in> {Some 401, Some 403}"
  shows "length (x_reasons (dispatch lib gw env app requested x)) = 1"
proof -
  have "unlogged x" using assms(3,4) by (simp add: unlogged_def)
  then have "accounted (dispatch lib gw env app requested x)"
    using assms(1,2) by (simp add: dispatch_def serve_policy_accounted serve_iam_me_accounted)
  with assms(5) show ?thesis by (simp only: accounted_def)
qed

theorem policy_denials_logged_once_witness:
  "length (x_reasons (dispatch demo_libs (demo_gateway True) demo_env ''a'' ''b''
     (arrives demo_request demo_jwks (new_plan_resolver []) ()))) = 1"
proof (rule policy_denials_logged_once [OF _ _ pending_arrives])
  show "rsp_status (x_rw (dispatch demo_libs (demo_gateway True) demo_env ''a'' ''b''
     (arrives demo_request demo_jwks (new_plan_resolver []) ()))) \<in> {Some 401, Some 403}"
    by code_simp
qed (simp_all add: demo_gateway_def log_enabled_def less_eq_log_level_def arrives_def)

end
