(* ===== verification/Trust.thy ===== *)
theory Trust
  imports Samples
begin

text \<open>
  What the prelude and the engines do to the gateway-owned headers: which entries they address, what reaches
  an engine, and who a forwarded request may claim to be from.  \<open>identified\<close> is the only source of an
  identity: a bearer token that a configured realm accepts.
\<close>

section \<open>Header names\<close>

text \<open>
  The gateway-owned headers, as the documentation lists them: the seven of which a backend believes that the gateway
  wrote them, and the e-mail address's when it has a name.  This list is the specification's; that the code strips
  these very headers is \<open>trust_headers_eq\<close>.
\<close>

definition owned_headers :: "config \<Rightarrow> string list" where
  "owned_headers cfg =
     [cfg_app_id_header cfg, cfg_user_id_header cfg, cfg_user_plan_header cfg, cfg_is_admin_header cfg,
      cfg_user_roles_header cfg, cfg_user_uid_header cfg, ''X-Api-Key-Uid''] @
     (if cfg_user_email_header cfg = [] then [] else [cfg_user_email_header cfg])"

text \<open>
  The configured header names address different header entries, and none of the gateway-owned ones is a header
  that the code reads under its own name (as with the defaults).
\<close>

definition literal_headers :: "string list" where
  "literal_headers = [''Origin'', ''X-Forwarded-Host'', ''X-Forwarded-For'', ''X-Real-IP'', ''X-Api-Key'']"

definition headers_distinct :: "config \<Rightarrow> bool" where
  "headers_distinct cfg \<longleftrightarrow>
     distinct (map canonical_key (owned_headers cfg @
       [cfg_session_id_header cfg, cfg_device_id_header cfg, cfg_jwt_header_key cfg, request_id_header])) \<and>
     list_all (\<lambda>k. canonical_key k \<notin> canonical_key ` set (owned_headers cfg)) literal_headers"

lemma trust_headers_eq: "set (trust_headers cfg) = set (owned_headers cfg)"
  by (auto simp: trust_headers_def owned_headers_def legacy_api_key_uid_header_def)

text \<open>The same in terms of the code's list, for the proofs about the code.\<close>

lemma headers_distinct_code:
  "headers_distinct cfg \<longleftrightarrow>
     distinct (map canonical_key (trust_headers cfg @
       [cfg_session_id_header cfg, cfg_device_id_header cfg, cfg_jwt_header_key cfg, request_id_header])) \<and>
     list_all (\<lambda>k. canonical_key k \<notin> canonical_key ` set (trust_headers cfg)) literal_headers"
proof -
  have "distinct (map canonical_key (owned_headers cfg)) = distinct (map canonical_key (trust_headers cfg))"
    by (auto simp: trust_headers_def owned_headers_def legacy_api_key_uid_header_def)
  then show ?thesis
    unfolding headers_distinct_def trust_headers_eq map_append distinct_append set_map by (simp only:)
qed

lemma default_headers_distinct: "headers_distinct create_config"
  by code_simp

lemma demo_headers_distinct: "headers_distinct (gw_config (demo_gateway m))"
proof -
  have "headers_distinct demo_config" by code_simp
  then show ?thesis by (simp add: demo_gateway_def)
qed

lemma not_same_keyI: "canonical_key a \<noteq> canonical_key b \<Longrightarrow> \<not> same_key a b"
  by (simp add: same_key_def)

text \<open>The headers that the engines stamp, in a list and reversed, so that both orientations of each inequality rewrite.\<close>

lemma stamped_keys:
  assumes "headers_distinct cfg"
  shows "distinct (map canonical_key
      [cfg_app_id_header cfg, cfg_user_id_header cfg, cfg_user_plan_header cfg, cfg_is_admin_header cfg,
       cfg_user_roles_header cfg, cfg_user_uid_header cfg, legacy_api_key_uid_header, cfg_session_id_header cfg])"
    and "distinct (map canonical_key
      [cfg_session_id_header cfg, legacy_api_key_uid_header, cfg_user_uid_header cfg, cfg_user_roles_header cfg, cfg_is_admin_header cfg,
       cfg_user_plan_header cfg, cfg_user_id_header cfg, cfg_app_id_header cfg])"
    and "cfg_user_email_header cfg \<noteq> [] \<Longrightarrow>
      canonical_key k = canonical_key (cfg_user_email_header cfg) \<Longrightarrow>
      k \<notin> set [cfg_app_id_header cfg, cfg_user_id_header cfg, cfg_user_plan_header cfg, cfg_is_admin_header cfg,
       cfg_user_roles_header cfg, cfg_user_uid_header cfg, legacy_api_key_uid_header, cfg_session_id_header cfg]"
  using assms unfolding headers_distinct_code trust_headers_def by (auto split: if_splits)

lemmas stamped_keys_differ =
  stamped_keys(1,2) [unfolded distinct.simps list.map list.set insert_iff empty_iff de_Morgan_disj simp_thms]

lemma email_key_differs:
  assumes "headers_distinct cfg" and "cfg_user_email_header cfg \<noteq> []"
  shows "canonical_key (cfg_app_id_header cfg) \<noteq> canonical_key (cfg_user_email_header cfg)"
    and "canonical_key (cfg_user_id_header cfg) \<noteq> canonical_key (cfg_user_email_header cfg)"
    and "canonical_key (cfg_user_plan_header cfg) \<noteq> canonical_key (cfg_user_email_header cfg)"
    and "canonical_key (cfg_is_admin_header cfg) \<noteq> canonical_key (cfg_user_email_header cfg)"
    and "canonical_key (cfg_user_roles_header cfg) \<noteq> canonical_key (cfg_user_email_header cfg)"
    and "canonical_key (cfg_user_uid_header cfg) \<noteq> canonical_key (cfg_user_email_header cfg)"
    and "canonical_key legacy_api_key_uid_header \<noteq> canonical_key (cfg_user_email_header cfg)"
    and "canonical_key (cfg_session_id_header cfg) \<noteq> canonical_key (cfg_user_email_header cfg)"
  using stamped_keys(3) [OF assms] by fastforce+

lemma policy_stamp_headers:
  assumes "headers_distinct (gw_config gw)"
  shows "get_header (policy_stamp gw plan tc pr target x) (cfg_user_id_header (gw_config gw)) = tc_user_id tc"
    and "get_header (policy_stamp gw plan tc pr target x) (cfg_user_plan_header (gw_config gw)) = plan"
    and "tc_keycloak tc \<Longrightarrow> get_header (policy_stamp gw plan tc pr target x) (cfg_user_uid_header (gw_config gw)) = tc_subject tc"
    and "get_header (policy_stamp gw plan tc pr target x) (cfg_is_admin_header (gw_config gw)) =
      (if is_wildcard (Some pr) target then ''true'' else get_header x (cfg_is_admin_header (gw_config gw)))"
    and "get_header (policy_stamp gw plan tc pr target x) (cfg_user_roles_header (gw_config gw)) =
      (if pr_bound_roles pr \<noteq> [] then join '','' (pr_bound_roles pr) else get_header x (cfg_user_roles_header (gw_config gw)))"
    and "get_header (policy_stamp gw plan tc pr target x) (cfg_app_id_header (gw_config gw)) =
      get_header x (cfg_app_id_header (gw_config gw))"
    and "get_header (policy_stamp gw plan tc pr target x) legacy_api_key_uid_header = get_header x legacy_api_key_uid_header"
    and "cfg_user_email_header (gw_config gw) \<noteq> [] \<Longrightarrow> tc_keycloak tc \<Longrightarrow>
      get_header (policy_stamp gw plan tc pr target x) (cfg_user_email_header (gw_config gw)) =
      (if tc_email tc \<noteq> [] then tc_email tc else get_header x (cfg_user_email_header (gw_config gw)))"
  by (simp_all add: policy_stamp_def Let_def same_key_def stamped_keys_differ [OF assms] email_key_differs [OF assms]
      email_key_differs [OF assms, symmetric])

lemma legacy_stamp_headers:
  assumes "headers_distinct (gw_config gw)"
  shows "get_header (legacy_stamp gw plan tc x) (cfg_user_id_header (gw_config gw)) = tc_user_id tc"
    and "get_header (legacy_stamp gw plan tc x) (cfg_user_plan_header (gw_config gw)) = plan"
    and "get_header (legacy_stamp gw plan tc x) (cfg_user_uid_header (gw_config gw)) = tc_subject tc"
    and "get_header (legacy_stamp gw plan tc x) (cfg_is_admin_header (gw_config gw)) =
      (if tc_is_admin tc then ''true'' else get_header x (cfg_is_admin_header (gw_config gw)))"
    and "get_header (legacy_stamp gw plan tc x) (cfg_user_roles_header (gw_config gw)) =
      (if tc_roles tc \<noteq> [] then join '','' (tc_roles tc) else get_header x (cfg_user_roles_header (gw_config gw)))"
    and "get_header (legacy_stamp gw plan tc x) (cfg_app_id_header (gw_config gw)) =
      get_header x (cfg_app_id_header (gw_config gw))"
    and "get_header (legacy_stamp gw plan tc x) legacy_api_key_uid_header = get_header x legacy_api_key_uid_header"
    and "cfg_user_email_header (gw_config gw) \<noteq> [] \<Longrightarrow> tc_keycloak tc \<Longrightarrow>
      get_header (legacy_stamp gw plan tc x) (cfg_user_email_header (gw_config gw)) =
      (if tc_email tc \<noteq> [] then tc_email tc else get_header x (cfg_user_email_header (gw_config gw)))"
  by (simp_all add: legacy_stamp_def stamp_authz_headers_def authz_from_token_roles_def Let_def same_key_def
      stamped_keys_differ [OF assms] email_key_differs [OF assms]
      email_key_differs [OF assms, symmetric])

lemma anonymous_headers:
  assumes "headers_distinct (gw_config gw)" and "k \<in> set (trust_headers (gw_config gw))"
  shows "get_header (fst (anonymous_identity gw target x)) k = get_header x k"
proof -
  have "canonical_key k \<noteq> canonical_key (cfg_session_id_header (gw_config gw))"
    and "canonical_key k \<noteq> canonical_key (cfg_device_id_header (gw_config gw))"
    using assms(1) imageI [OF assms(2), of canonical_key] unfolding headers_distinct_code by auto
  then show ?thesis by (simp add: anonymous_identity_def Let_def same_key_def)
qed

text \<open>After the strip a gateway-owned header is absent, and other headers are as they came.\<close>

lemma strip_headers:
  "k \<in> set (trust_headers (gw_config gw)) \<Longrightarrow> get_header (strip_trust_headers gw x) k = []"
  "canonical_key k \<notin> canonical_key ` set (trust_headers (gw_config gw)) \<Longrightarrow>
     get_header (strip_trust_headers gw x) k = get_header x k"
  by (simp_all add: strip_trust_headers_eq h_get_def)

lemma trust_headers_mem [simp]:
  "cfg_app_id_header cfg \<in> set (trust_headers cfg)" "cfg_user_id_header cfg \<in> set (trust_headers cfg)"
  "cfg_user_plan_header cfg \<in> set (trust_headers cfg)" "cfg_is_admin_header cfg \<in> set (trust_headers cfg)"
  "cfg_user_roles_header cfg \<in> set (trust_headers cfg)" "cfg_user_uid_header cfg \<in> set (trust_headers cfg)"
  by (simp_all add: trust_headers_def)

lemma jwt_header_kept:
  assumes "headers_distinct (gw_config gw)"
  shows "canonical_key (cfg_jwt_header_key (gw_config gw)) \<notin> canonical_key ` set (trust_headers (gw_config gw))"
    and "\<not> same_key (cfg_jwt_header_key (gw_config gw)) request_id_header"
    and "\<not> same_key (cfg_jwt_header_key (gw_config gw)) (cfg_app_id_header (gw_config gw))"
  using assms by (auto simp: headers_distinct_code trust_headers_def same_key_def split: if_splits)

lemma ensure_request_id_frame:
  "\<not> same_key k request_id_header \<Longrightarrow> get_header (ensure_request_id env x) k = get_header x k"
  "same_target (x_req (ensure_request_id env x)) (x_req x)"
  "x_jwks (ensure_request_id env x) = x_jwks x" "x_plans (ensure_request_id env x) = x_plans x"
  by (simp_all add: ensure_request_id_def Let_def)

text \<open>What reaches the engines: identity headers absent, the application stamped, the credential untouched.\<close>

lemma prelude_headers:
  assumes d: "headers_distinct (gw_config gw)"
    and x1: "serve_cors gw (ensure_request_id env x) = Inr x1"
    and x2: "resolve_app lib gw env (strip_trust_headers gw x1) = Inr (x2, app)"
  shows "get_header x2 (cfg_app_id_header (gw_config gw)) = app"
    and "k \<in> set (trust_headers (gw_config gw)) \<Longrightarrow> canonical_key k \<noteq> canonical_key (cfg_app_id_header (gw_config gw)) \<Longrightarrow>
      get_header x2 k = []"
    and "get_header x2 (cfg_jwt_header_key (gw_config gw)) = get_header x (cfg_jwt_header_key (gw_config gw))"
    and "same_target (x_req x2) (x_req x)"
    and "x_jwks x2 = x_jwks x" and "x_plans x2 = x_plans x"
proof -
  note c = serve_cors_Inr [OF x1]
  let ?s = "strip_trust_headers gw x1"
  have x2': "x2 = ?s \<and> app = [] \<or> x2 = set_header (cfg_app_id_header (gw_config gw)) app ?s"
    using resolve_app_Inr [OF x2] by auto
  then show "get_header x2 (cfg_app_id_header (gw_config gw)) = app"
    by (auto simp: strip_headers)
  show "get_header x2 k = []" if "k \<in> set (trust_headers (gw_config gw))"
    and "canonical_key k \<noteq> canonical_key (cfg_app_id_header (gw_config gw))"
    using x2' that by (auto simp: strip_headers same_key_def)
  show "get_header x2 (cfg_jwt_header_key (gw_config gw)) = get_header x (cfg_jwt_header_key (gw_config gw))"
    using x2' jwt_header_kept [OF d] c ensure_request_id_frame(1) [OF jwt_header_kept(2) [OF d], of env x]
    by (auto simp: strip_headers)
  have "same_target (x_req ?s) (x_req x1)" and "x_jwks ?s = x_jwks x1" and "x_plans ?s = x_plans x1"
    by (simp_all add: strip_trust_headers_eq)
  then show "same_target (x_req x2) (x_req x)" and "x_jwks x2 = x_jwks x" and "x_plans x2 = x_plans x"
    using x2' c ensure_request_id_frame(2,3,4) [of env x] by auto
qed

section \<open>Who a forwarded request is from\<close>

text \<open>
  A caller the gateway has authenticated: the claims of a bearer token that one of the configured realms
  (an application's, or the operators') accepts.
\<close>

definition identified ::
  "('ev, 's, 'e) libs \<Rightarrow> gateway \<Rightarrow> 'ev env \<Rightarrow> (string \<rightharpoonup> jwks_cache) \<Rightarrow> string \<Rightarrow> token_claims \<Rightarrow> bool" where
  "identified lib gw env jwks auth tc \<longleftrightarrow>
     (\<exists>rlm j. (rlm \<in> ran (gw_realms gw) \<or> gw_operator gw = Some rlm) \<and>
        parse_keycloak_auth lib gw env rlm auth jwks = (Inr (Some tc), j))"

lemma identifiedI:
  "rlm \<in> ran (gw_realms gw) \<or> gw_operator gw = Some rlm \<Longrightarrow>
   parse_keycloak_auth lib gw env rlm auth jwks = (Inr (Some tc), j) \<Longrightarrow> identified lib gw env jwks auth tc"
  unfolding identified_def by blast

lemma keycloak_realm_for_configured: "keycloak_realm_for gw app = Some rlm \<Longrightarrow> rlm \<in> ran (gw_realms gw)"
  by (auto simp: keycloak_realm_for_def ran_def split: if_splits)

lemma chosen_realm_configured:
  "chosen_realm gw app iss = Some rlm \<Longrightarrow> rlm \<in> ran (gw_realms gw) \<or> gw_operator gw = Some rlm"
  using keycloak_realm_for_configured [of gw app]
  by (auto simp: chosen_realm_def split: option.splits if_splits)

lemma authenticate_identified:
  "authenticate lib gw env app auth jwks = (Inr (Some tc), j) \<Longrightarrow> identified lib gw env jwks auth tc"
  by (auto simp: authenticate_def dest: chosen_realm_configured intro: identifiedI
      split: if_splits option.splits prod.splits sum.splits)

lemma legacy_parse_identified:
  "legacy_parse lib gw env app auth jwks = (Inr (Some tc), j) \<Longrightarrow> identified lib gw env jwks auth tc"
  by (auto simp: legacy_parse_def dest: keycloak_realm_for_configured intro: identifiedI
      split: if_splits option.splits prod.splits sum.splits)

lemma identified_keycloak: "identified lib gw env jwks auth tc \<Longrightarrow> tc_keycloak tc"
  by (auto simp: identified_def parse_keycloak_auth_def dest!: parse_keycloak_jwt_Inr claims_of_token_fields(10)
      split: if_splits)

text \<open>
  The same caller in terms of the token: a bearer token of three segments, signed with RS256 under a key that
  the realm's JWKS document publishes for the \<^verbatim>\<open>kid\<close> of its header, fresh at the time of the check, whose
  payload \<open>m\<close> says what the claims say.
\<close>

definition vouched_caller ::
  "('ev, 's, 'e) libs \<Rightarrow> gateway \<Rightarrow> 'ev env \<Rightarrow> (string \<rightharpoonup> jwks_cache) \<Rightarrow> string \<Rightarrow> token_claims \<Rightarrow> bool" where
  "vouched_caller lib gw env jwks auth tc \<longleftrightarrow>
     (\<exists>rlm m. (rlm \<in> ran (gw_realms gw) \<or> gw_operator gw = Some rlm) \<and>
        vouched (lib_unmarshal lib) (lib_verify lib) (realm_trusted (rlm_jwks_url rlm) jwks (en_jwks env))
          (gw_leeway gw) (en_jwt_now env) auth m \<and>
        claims_of_token (rlm_issuer rlm) (cfg_keycloak_user_id_claim (gw_config gw))
          (cfg_keycloak_admin_roles (gw_config gw)) m = Inr tc)"

lemma identified_vouched: "identified lib gw env jwks auth tc \<Longrightarrow> vouched_caller lib gw env jwks auth tc"
  unfolding identified_def vouched_caller_def by (blast dest: parse_keycloak_auth_Some)

text \<open>What an engine stamps about a caller: the administrator flag and the roles.\<close>

definition holds_admin :: "gateway \<Rightarrow> 'ev env \<Rightarrow> token_claims \<Rightarrow> string \<Rightarrow> bool" where
  "holds_admin gw env tc target =
     (if gw_policy_mode gw then is_wildcard (principal_for (en_policy_snapshot env) (Some tc)) target
      else tc_is_admin tc)"

definition stamped_roles :: "gateway \<Rightarrow> 'ev env \<Rightarrow> token_claims \<Rightarrow> string list" where
  "stamped_roles gw env tc =
     (if gw_policy_mode gw
      then (case principal_for (en_policy_snapshot env) (Some tc) of None \<Rightarrow> [] | Some pr \<Rightarrow> pr_bound_roles pr)
      else tc_roles tc)"

text \<open>
  The gateway-owned headers of a request, the application's apart: all absent, or those of one caller for
  the application the request carries.  The plan is the one that the resolver, as it was when the request arrived
  (\<open>plans\<close>), gives this caller for that application.
\<close>

definition anonymous_request :: "config \<Rightarrow> request \<Rightarrow> bool" where
  "anonymous_request cfg r \<longleftrightarrow>
     get_req_header r (cfg_user_id_header cfg) = [] \<and>
     get_req_header r (cfg_user_plan_header cfg) = [] \<and>
     get_req_header r (cfg_is_admin_header cfg) = [] \<and>
     get_req_header r (cfg_user_roles_header cfg) = [] \<and>
     get_req_header r (cfg_user_uid_header cfg) = [] \<and>
     get_req_header r ''X-Api-Key-Uid'' = [] \<and>
     (cfg_user_email_header cfg = [] \<or> get_req_header r (cfg_user_email_header cfg) = [])"

definition stamped_request :: "gateway \<Rightarrow> 'ev env \<Rightarrow> plan_resolver \<Rightarrow> token_claims \<Rightarrow> request \<Rightarrow> bool" where
  "stamped_request gw env plans tc r \<longleftrightarrow>
     (let cfg = gw_config gw in
      get_req_header r (cfg_user_id_header cfg) = tc_user_id tc \<and>
      get_req_header r (cfg_user_plan_header cfg) =
        fst (resolve_plan (en_plan env) (get_req_header r (cfg_app_id_header cfg)) (tc_user_id tc)
          (cfg_default_plan_name cfg) plans) \<and>
      get_req_header r (cfg_user_uid_header cfg) = tc_subject tc \<and>
      get_req_header r (cfg_is_admin_header cfg) =
        (if holds_admin gw env tc (get_req_header r (cfg_app_id_header cfg)) then ''true'' else []) \<and>
      get_req_header r (cfg_user_roles_header cfg) = join '','' (stamped_roles gw env tc) \<and>
      get_req_header r ''X-Api-Key-Uid'' = [] \<and>
      (cfg_user_email_header cfg = [] \<or> get_req_header r (cfg_user_email_header cfg) = tc_email tc))"

text \<open>A request as it reaches an engine.\<close>

definition clean :: "config \<Rightarrow> string \<Rightarrow> request \<Rightarrow> bool" where
  "clean cfg app r \<longleftrightarrow> anonymous_request cfg r \<and> get_req_header r (cfg_app_id_header cfg) = app"

lemma anonymous_request_code:
  assumes "headers_distinct cfg"
  shows "anonymous_request cfg r \<longleftrightarrow>
    list_all (\<lambda>k. same_key k (cfg_app_id_header cfg) \<or> get_req_header r k = []) (trust_headers cfg)"
  using email_key_differs(1) [OF assms]
  by (auto simp: anonymous_request_def trust_headers_def legacy_api_key_uid_header_def same_key_def
      stamped_keys_differ [OF assms, unfolded legacy_api_key_uid_header_def])

lemma clean_absent:
  assumes "clean cfg app r" and "headers_distinct cfg"
  shows "get_req_header r (cfg_user_id_header cfg) = []" "get_req_header r (cfg_user_plan_header cfg) = []"
    "get_req_header r (cfg_is_admin_header cfg) = []" "get_req_header r (cfg_user_roles_header cfg) = []"
    "get_req_header r (cfg_user_uid_header cfg) = []" "get_req_header r legacy_api_key_uid_header = []"
    "cfg_user_email_header cfg \<noteq> [] \<Longrightarrow> get_req_header r (cfg_user_email_header cfg) = []"
    "get_req_header r (cfg_app_id_header cfg) = app"
  using assms(1) by (auto simp: clean_def anonymous_request_def legacy_api_key_uid_header_def)

lemma policy_stamp_stamped:
  assumes d: "headers_distinct (gw_config gw)" and c: "clean (gw_config gw) target (x_req x)"
    and kc: "tc_keycloak tc" and m: "gw_policy_mode gw"
    and pr: "principal_for (en_policy_snapshot env) (Some tc) = Some pr"
    and plan: "resolve_plan (en_plan env) target (tc_user_id tc) (cfg_default_plan_name (gw_config gw)) plans = (plan, ps)"
  shows "stamped_request gw env plans tc (x_req (policy_stamp gw plan tc pr target x))"
  using kc m pr plan
  by (cases "cfg_user_email_header (gw_config gw) = []")
    (simp_all add: stamped_request_def Let_def legacy_api_key_uid_header_def [symmetric] policy_stamp_headers [OF d] clean_absent [OF c d]
      holds_admin_def stamped_roles_def)

lemma legacy_stamp_stamped:
  assumes d: "headers_distinct (gw_config gw)" and c: "clean (gw_config gw) app (x_req x)"
    and kc: "tc_keycloak tc" and m: "\<not> gw_policy_mode gw"
    and plan: "resolve_plan (en_plan env) app (tc_user_id tc) (cfg_default_plan_name (gw_config gw)) plans = (plan, ps)"
  shows "stamped_request gw env plans tc (x_req (legacy_stamp gw plan tc x))"
  using kc m plan
  by (cases "cfg_user_email_header (gw_config gw) = []")
    (simp_all add: stamped_request_def Let_def legacy_api_key_uid_header_def [symmetric] legacy_stamp_headers [OF d] clean_absent [OF c d]
      holds_admin_def stamped_roles_def)

lemma anonymous_identity_anonymous:
  assumes "headers_distinct (gw_config gw)" and "clean (gw_config gw) app (x_req x)"
  shows "anonymous_request (gw_config gw) (x_req (fst (anonymous_identity gw target x)))"
  using assms(2) by (auto simp: clean_def anonymous_request_code [OF assms(1)] list_all_iff anonymous_headers [OF assms(1)])

lemma resolved_target_clean:
  assumes d: "headers_distinct (gw_config gw)" and c: "clean (gw_config gw) app (x_req x)"
  shows "clean (gw_config gw) target (x_req (set_header (cfg_app_id_header (gw_config gw)) target x))"
  using c by (auto simp: clean_def anonymous_request_code [OF d] list_all_iff)

lemma prelude_clean:
  assumes "headers_distinct (gw_config gw)"
    and "serve_cors gw (ensure_request_id env x) = Inr x1"
    and "resolve_app lib gw env (strip_trust_headers gw x1) = Inr (x2, app)"
  shows "clean (gw_config gw) app (x_req x2)"
  using prelude_headers [OF assms]
  by (auto simp: clean_def anonymous_request_code [OF assms(1)] list_all_iff same_key_def)

text \<open>A request forwarded by an engine, from a clean one: who it claims to be from, and its application.\<close>

lemma serve_policy_provenance:
  assumes d: "headers_distinct (gw_config gw)" and x: "pending x" and c: "clean (gw_config gw) app (x_req x)"
    and m: "gw_policy_mode gw" and fwd: "x_forwarded (serve_policy lib gw env app requested x)"
  shows "anonymous_request (gw_config gw) (x_req (serve_policy lib gw env app requested x)) \<or>
    (\<exists>tc. identified lib gw env (x_jwks x) (get_header x (cfg_jwt_header_key (gw_config gw))) tc \<and>
       stamped_request gw env (x_plans x) tc (x_req (serve_policy lib gw env app requested x)))"
proof -
  let ?cfg = "gw_config gw" and ?y = "serve_policy lib gw env app requested x"
  obtain x1 target where t: "policy_target gw env app requested x = Inr (x1, target)"
    and r: "case match_endpoint (en_match_snapshot env) target (req_method (x_req x)) (req_path (x_req x)) of
       None \<Rightarrow> x_req ?y = x_req x1 \<and>
         (target = app \<or>
          match_endpoint (en_host_match_snapshot env) app (req_method (x_req x)) (req_path (x_req x)) = None)
     | Some ep \<Rightarrow>
         \<exists>claims j. authenticate lib gw env target (get_header x1 (cfg_jwt_header_key ?cfg)) (x_jwks x) = (Inr claims, j) \<and>
           policy_authorizes (en_policy_snapshot env) ep target (x_req x) claims \<and>
           x_req ?y = x_req (fst (policy_identity gw env target
               (case (claims, principal_for (en_policy_snapshot env) claims) of (Some tc, Some p) \<Rightarrow> Some (tc, p) | _ \<Rightarrow> None)
               (x1\<lparr>x_jwks := j\<rparr>)))"
    using serve_policy_forwarded [OF x fwd] by blast
  note x1 = policy_target_cases(2) [OF t]
  have c1: "clean ?cfg target (x_req x1)"
    using x1 c resolved_target_clean [OF d c, of target] by (auto simp: clean_def)
  have jwt: "get_header x1 (cfg_jwt_header_key ?cfg) = get_header x (cfg_jwt_header_key ?cfg)"
    using x1 jwt_header_kept(3) [OF d] by auto
  show ?thesis
  proof (cases "match_endpoint (en_match_snapshot env) target (req_method (x_req x)) (req_path (x_req x))")
    case None
    with r c1 show ?thesis by (simp add: clean_def)
  next
    case (Some ep)
    with r jwt obtain claims j where a: "authenticate lib gw env target (get_header x (cfg_jwt_header_key ?cfg)) (x_jwks x) = (Inr claims, j)"
      and y: "x_req ?y = x_req (fst (policy_identity gw env target
               (case (claims, principal_for (en_policy_snapshot env) claims) of (Some tc, Some p) \<Rightarrow> Some (tc, p) | _ \<Rightarrow> None)
               (x1\<lparr>x_jwks := j\<rparr>)))"
      by auto
    show ?thesis
    proof (cases claims)
      case None
      with y have "x_req ?y = x_req (fst (anonymous_identity gw target (x1\<lparr>x_jwks := j\<rparr>)))"
        by (simp add: policy_identity_def split: prod.split)
      with c1 anonymous_identity_anonymous [OF d, of target "x1\<lparr>x_jwks := j\<rparr>" target] show ?thesis by simp
    next
      case (Some tc)
      with a have id: "identified lib gw env (x_jwks x) (get_header x (cfg_jwt_header_key ?cfg)) tc"
        by (auto intro: authenticate_identified)
      obtain pr where pr: "principal_for (en_policy_snapshot env) (Some tc) = Some pr"
        using principal_for_None [of "en_policy_snapshot env" "Some tc"] by auto
      have "x_plans x1 = x_plans x" using x1 by auto
      then obtain p ps where p: "resolve_plan (en_plan env) target (tc_user_id tc) (cfg_default_plan_name ?cfg) (x_plans x) = (p, ps)"
        and "x_req ?y = x_req (policy_stamp gw p tc pr target (x1\<lparr>x_jwks := j, x_plans := ps\<rparr>))"
        using y Some pr by (auto simp: policy_identity_def split: prod.splits)
      with policy_stamp_stamped [OF d _ identified_keycloak [OF id] m pr p, of "x1\<lparr>x_jwks := j, x_plans := ps\<rparr>"] c1 id
      show ?thesis by auto
    qed
  qed
qed

lemma serve_legacy_provenance:
  assumes d: "headers_distinct (gw_config gw)" and x: "pending x" and c: "clean (gw_config gw) app (x_req x)"
    and m: "\<not> gw_policy_mode gw" and fwd: "x_forwarded (serve_legacy lib gw env app x)"
  shows "anonymous_request (gw_config gw) (x_req (serve_legacy lib gw env app x)) \<or>
    (\<exists>tc. identified lib gw env (x_jwks x) (get_header x (cfg_jwt_header_key (gw_config gw))) tc \<and>
       stamped_request gw env (x_plans x) tc (x_req (serve_legacy lib gw env app x)))"
proof (cases "match_endpoint (en_match_snapshot env) app (req_method (x_req x)) (req_path (x_req x))")
  case None
  with c show ?thesis by (simp add: serve_legacy_def clean_def)
next
  case (Some ep)
  let ?y = "serve_legacy lib gw env app x"
  obtain x1 claims where l: "legacy_credential lib gw env ep app x = Inr (x1, claims)"
    and y: "x_req ?y = x_req (fst (legacy_identity gw env app claims x1))"
    using serve_legacy_forwarded [OF x fwd Some] by blast
  note cr = legacy_credential_Inr [OF l]
  with c have c1: "clean (gw_config gw) app (x_req x1)" by simp
  show ?thesis
  proof (cases claims)
    case None
    with y c1 show ?thesis by (simp add: legacy_identity_def anonymous_identity_anonymous [OF d])
  next
    case (Some tc)
    with cr have id: "identified lib gw env (x_jwks x) (get_header x (cfg_jwt_header_key (gw_config gw))) tc"
      by (auto intro: legacy_parse_identified)
    have "x_plans x1 = x_plans x" using cr by simp
    then obtain p ps where p: "resolve_plan (en_plan env) app (tc_user_id tc) (cfg_default_plan_name (gw_config gw)) (x_plans x) = (p, ps)"
      and "x_req ?y = x_req (legacy_stamp gw p tc (x1\<lparr>x_plans := ps\<rparr>))"
      using y Some by (auto simp: legacy_identity_def split: prod.splits)
    with legacy_stamp_stamped [OF d _ identified_keycloak [OF id] m p, of "x1\<lparr>x_plans := ps\<rparr>"] c1 id
    show ?thesis by auto
  qed
qed

end
