(* ===== verification/Gate.thy ===== *)
theory Gate
  imports Trust
begin

text \<open>
  The path of a forwarded request from arrival to the next handler: what it has passed in either engine,
  which application it carries, and that the gateway-owned headers of the inbound request have no
  influence on it.
\<close>

section \<open>Inside the engines\<close>

lemma policy_authorizes_cong:
  "same_target r r' \<Longrightarrow> policy_authorizes sc ep target r claims = policy_authorizes sc ep target r' claims"
  using extract_owner_cong [of r r' ep] by (simp add: policy_authorizes_def)

text \<open>A request that carries the identity and the plan of a caller, or none.\<close>

definition carries :: "gateway \<Rightarrow> 'ev env \<Rightarrow> plan_resolver \<Rightarrow> token_claims option \<Rightarrow> request \<Rightarrow> bool" where
  "carries gw env plans claims r \<longleftrightarrow>
     (case claims of None \<Rightarrow> anonymous_request (gw_config gw) r | Some tc \<Rightarrow> stamped_request gw env plans tc r)"

lemma policy_identity_carries:
  assumes d: "headers_distinct (gw_config gw)" and c: "clean (gw_config gw) target (x_req x)" and m: "gw_policy_mode gw"
    and kc: "\<And>tc. claims = Some tc \<Longrightarrow> tc_keycloak tc"
  shows "carries gw env (x_plans x) claims (x_req (fst (policy_identity gw env target
     (case (claims, principal_for (en_policy_snapshot env) claims) of (Some tc, Some p) \<Rightarrow> Some (tc, p) | _ \<Rightarrow> None) x)))"
proof (cases claims)
  case None
  then show ?thesis
    using anonymous_identity_anonymous [OF d c, of target] by (simp add: carries_def policy_identity_def prod.case_eq_if)
next
  case (Some tc)
  obtain pr where pr: "principal_for (en_policy_snapshot env) (Some tc) = Some pr"
    using principal_for_None [of "en_policy_snapshot env" "Some tc"] by auto
  obtain p ps where r: "resolve_plan (en_plan env) target (tc_user_id tc) (cfg_default_plan_name (gw_config gw)) (x_plans x) = (p, ps)"
    by fastforce
  with policy_stamp_stamped [OF d _ kc [OF Some] m pr r, of "x\<lparr>x_plans := ps\<rparr>"] c Some pr
  show ?thesis by (simp add: carries_def policy_identity_def)
qed

lemma legacy_identity_carries:
  assumes d: "headers_distinct (gw_config gw)" and c: "clean (gw_config gw) app (x_req x)" and m: "\<not> gw_policy_mode gw"
    and kc: "\<And>tc. claims = Some tc \<Longrightarrow> tc_keycloak tc"
  shows "carries gw env (x_plans x) claims (x_req (fst (legacy_identity gw env app claims x)))"
proof (cases claims)
  case None
  then show ?thesis
    using anonymous_identity_anonymous [OF d c, of app] by (simp add: carries_def legacy_identity_def)
next
  case (Some tc)
  obtain p ps where r: "resolve_plan (en_plan env) app (tc_user_id tc) (cfg_default_plan_name (gw_config gw)) (x_plans x) = (p, ps)"
    by fastforce
  with legacy_stamp_stamped [OF d _ kc [OF Some] m r, of "x\<lparr>x_plans := ps\<rparr>"] c Some
  show ?thesis by (simp add: carries_def legacy_identity_def)
qed

lemma serve_policy_gate:
  assumes d: "headers_distinct (gw_config gw)" and x: "pending x" and c: "clean (gw_config gw) app (x_req x)"
    and m: "gw_policy_mode gw" and fwd: "x_forwarded (serve_policy lib gw env app requested x)"
  shows "\<exists>target. get_header (serve_policy lib gw env app requested x) (cfg_app_id_header (gw_config gw)) = target \<and>
    (target = app \<or> target = requested \<and> requested \<noteq> [] \<and> is_active_app (en_active_registry env) requested) \<and>
    (\<forall>ep. match_endpoint (en_match_snapshot env) target (req_method (x_req x)) (req_path (x_req x)) = Some ep \<longrightarrow>
       (\<exists>claims. policy_authorizes (en_policy_snapshot env) ep target (x_req x) claims \<and>
          carries gw env (x_plans x) claims (x_req (serve_policy lib gw env app requested x)) \<and>
          (\<forall>tc. claims = Some tc \<longrightarrow>
             identified lib gw env (x_jwks x) (get_header x (cfg_jwt_header_key (gw_config gw))) tc)))"
proof -
  let ?cfg = "gw_config gw" and ?y = "serve_policy lib gw env app requested x"
  obtain x1 target where t: "policy_target gw env app requested x = Inr (x1, target)"
    and r: "case match_endpoint (en_match_snapshot env) target (req_method (x_req x)) (req_path (x_req x)) of
       None \<Rightarrow> x_req ?y = x_req x1 \<and>
         (target = app \<or>
          match_endpoint (en_host_match_snapshot env) app (req_method (x_req x)) (req_path (x_req x)) = None)
     | Some ep \<Rightarrow>
         \<exists>claims j. authenticate lib gw env target (get_header x1 (cfg_jwt_header_key ?cfg)) (x_jwks x) = (Inr claims, j) \<and>
           policy_authorizes (en_policy_snapshot env) ep target (x_req x) claims \<and>
           x_req ?y = x_req (fst (policy_identity gw env target
               (case (claims, principal_for (en_policy_snapshot env) claims) of (Some tc, Some p) \<Rightarrow> Some (tc, p) | _ \<Rightarrow> None)
               (x1\<lparr>x_jwks := j\<rparr>)))"
    using serve_policy_forwarded [OF x fwd] by blast
  note x1 = policy_target_cases(2) [OF t]
  have app1: "get_header x1 (cfg_app_id_header ?cfg) = target"
    using x1 c by (auto simp: clean_def)
  have c1: "clean ?cfg target (x_req x1)"
    using x1 c resolved_target_clean [OF d c, of target] by (auto simp: clean_def)
  have jwt: "get_header x1 (cfg_jwt_header_key ?cfg) = get_header x (cfg_jwt_header_key ?cfg)"
    using x1 jwt_header_kept(3) [OF d] by auto
  have stamped: "get_header (fst (policy_identity gw env target caller (x1\<lparr>x_jwks := j\<rparr>))) (cfg_app_id_header ?cfg) = target"
    for caller j
    by (cases caller)
      (auto simp: policy_identity_def policy_stamp_headers [OF d] anonymous_headers [OF d] app1 prod.case_eq_if)
  have "get_header ?y (cfg_app_id_header ?cfg) = target"
  proof (cases "match_endpoint (en_match_snapshot env) target (req_method (x_req x)) (req_path (x_req x))")
    case None
    with r app1 show ?thesis by simp
  next
    case (Some ep)
    with r obtain caller j where "x_req ?y = x_req (fst (policy_identity gw env target caller (x1\<lparr>x_jwks := j\<rparr>)))"
      by simp blast
    then show ?thesis using stamped by (simp only:)
  qed
  moreover have "\<exists>claims. policy_authorizes (en_policy_snapshot env) ep target (x_req x) claims \<and>
          carries gw env (x_plans x) claims (x_req ?y) \<and>
          (\<forall>tc. claims = Some tc \<longrightarrow> identified lib gw env (x_jwks x) (get_header x (cfg_jwt_header_key ?cfg)) tc)"
    if "match_endpoint (en_match_snapshot env) target (req_method (x_req x)) (req_path (x_req x)) = Some ep" for ep
  proof -
    from r that jwt obtain claims j where
      a: "authenticate lib gw env target (get_header x (cfg_jwt_header_key ?cfg)) (x_jwks x) = (Inr claims, j)"
      and "policy_authorizes (en_policy_snapshot env) ep target (x_req x) claims"
      and y: "x_req ?y = x_req (fst (policy_identity gw env target
               (case (claims, principal_for (en_policy_snapshot env) claims) of (Some tc, Some p) \<Rightarrow> Some (tc, p) | _ \<Rightarrow> None)
               (x1\<lparr>x_jwks := j\<rparr>)))"
      by auto
    moreover have id: "identified lib gw env (x_jwks x) (get_header x (cfg_jwt_header_key ?cfg)) tc" if "claims = Some tc" for tc
      using a that authenticate_identified by blast
    moreover have "carries gw env (x_plans x) claims (x_req ?y)"
    proof -
      have pl: "x_plans x = x_plans (x1\<lparr>x_jwks := j\<rparr>)" using x1 by auto
      show ?thesis unfolding y pl using c1 id by (intro policy_identity_carries [OF d _ m]) (auto intro: identified_keycloak)
    qed
    ultimately show ?thesis by blast
  qed
  ultimately show ?thesis using x1 by blast
qed

text \<open>What the legacy engine demands of a caller.\<close>

definition legacy_authorizes :: "gateway \<Rightarrow> compiled_endpoint \<Rightarrow> string \<Rightarrow> request \<Rightarrow> token_claims option \<Rightarrow> bool" where
  "legacy_authorizes gw ep app req claims \<longleftrightarrow>
     (legacy_required gw ep = [] \<or> (\<exists>tc. claims = Some tc \<and> tc_is_admin tc)) \<and>
     (ep_owner_param ep = [] \<or>
      (\<exists>tc. claims = Some tc \<and>
         (tc_is_admin tc \<or> owner_matches (extract_owner ep req) (tc_user_id tc) (tc_subject tc)))) \<and>
     (\<forall>tc. claims = Some tc \<longrightarrow> \<not> app_mismatch tc app)"

lemma legacy_authorizes_cong:
  "same_target r r' \<Longrightarrow> legacy_authorizes gw ep app r claims = legacy_authorizes gw ep app r' claims"
  using extract_owner_cong [of r r' ep] by (simp add: legacy_authorizes_def)

lemma serve_legacy_gate:
  assumes d: "headers_distinct (gw_config gw)" and x: "pending x" and c: "clean (gw_config gw) app (x_req x)"
    and m: "\<not> gw_policy_mode gw" and fwd: "x_forwarded (serve_legacy lib gw env app x)"
  shows "get_header (serve_legacy lib gw env app x) (cfg_app_id_header (gw_config gw)) = app \<and>
    (\<forall>ep. match_endpoint (en_match_snapshot env) app (req_method (x_req x)) (req_path (x_req x)) = Some ep \<longrightarrow>
       (\<exists>claims. legacy_authorizes gw ep app (x_req x) claims \<and>
          carries gw env (x_plans x) claims (x_req (serve_legacy lib gw env app x)) \<and>
          (\<forall>tc. claims = Some tc \<longrightarrow>
             identified lib gw env (x_jwks x) (get_header x (cfg_jwt_header_key (gw_config gw))) tc)))"
proof (cases "match_endpoint (en_match_snapshot env) app (req_method (x_req x)) (req_path (x_req x))")
  case None
  with c show ?thesis by (simp add: serve_legacy_def clean_def)
next
  case (Some ep)
  let ?y = "serve_legacy lib gw env app x" and ?cfg = "gw_config gw"
  obtain x1 claims where l: "legacy_credential lib gw env ep app x = Inr (x1, claims)"
    and req: "legacy_required gw ep = [] \<or> (\<exists>tc. claims = Some tc \<and> tc_is_admin tc)"
    and y: "x_req ?y = x_req (fst (legacy_identity gw env app claims x1))"
    and own: "ep_owner_param ep = [] \<or>
     (\<exists>tc. claims = Some tc \<and>
        (get_header (fst (legacy_identity gw env app claims x1)) (cfg_is_admin_header ?cfg) = ''true'' \<or>
         owner_matches (extract_owner ep (x_req x)) (tc_user_id tc) (tc_subject tc)))"
    using serve_legacy_forwarded [OF x fwd Some] by blast
  note cr = legacy_credential_Inr [OF l]
  with c have c1: "clean ?cfg app (x_req x1)" by simp
  have adm: "tc_is_admin tc"
    if "get_header (fst (legacy_identity gw env app (Some tc) x1)) (cfg_is_admin_header ?cfg) = ''true''" for tc
    using that clean_absent(3) [OF c1 d]
    by (auto simp: legacy_identity_def legacy_stamp_headers [OF d] prod.case_eq_if split: if_splits)
  have "get_header (fst (legacy_identity gw env app claims x1)) (cfg_app_id_header ?cfg) = app"
    using clean_absent(8) [OF c1 d]
    by (cases claims) (auto simp: legacy_identity_def legacy_stamp_headers [OF d] anonymous_headers [OF d] prod.case_eq_if)
  moreover have "legacy_authorizes gw ep app (x_req x) claims"
    using req own adm cr by (auto simp: legacy_authorizes_def)
  moreover have id: "identified lib gw env (x_jwks x) (get_header x (cfg_jwt_header_key ?cfg)) tc" if "claims = Some tc" for tc
    using cr that by (auto intro: legacy_parse_identified)
  moreover have "carries gw env (x_plans x) claims (x_req ?y)"
    using legacy_identity_carries [OF d c1 m, of claims env] id cr y by (auto intro: identified_keycloak)
  ultimately show ?thesis using Some y by auto
qed

section \<open>From arrival\<close>

lemma literal_not_request_id: "list_all (\<lambda>k. canonical_key k \<noteq> canonical_key request_id_header) literal_headers"
  by code_simp

lemma not_request_id:
  assumes "headers_distinct (gw_config gw)" and "k \<in> set (trust_headers (gw_config gw)) \<or> k \<in> set literal_headers"
  shows "\<not> same_key k request_id_header"
proof
  assume "same_key k request_id_header"
  then have k: "canonical_key request_id_header = canonical_key k" by (simp add: same_key_def)
  show False using assms(2)
  proof
    assume "k \<in> set (trust_headers (gw_config gw))"
    then have "canonical_key request_id_header \<in> canonical_key ` set (trust_headers (gw_config gw))"
      unfolding k by (rule imageI)
    with assms(1) show False by (simp add: headers_distinct_code)
  next
    assume "k \<in> set literal_headers"
    with literal_not_request_id k show False by (auto simp: list_all_iff)
  qed
qed

lemma literal_not_stripped:
  assumes "headers_distinct (gw_config gw)" and "k \<in> set literal_headers"
  shows "get_header (strip_trust_headers gw x) k = get_header x k"
  using assms by (intro strip_headers(2)) (auto simp: headers_distinct_code list_all_iff)

lemma prelude_resolution_host:
  assumes d: "headers_distinct (gw_config gw)" and x1: "serve_cors gw (ensure_request_id env x) = Inr x1"
  shows "resolution_host gw (x_req (strip_trust_headers gw x1)) = resolution_host gw (x_req x)"
proof -
  have lit: "''X-Forwarded-Host'' \<in> set literal_headers" by (simp add: literal_headers_def)
  have "req_host (x_req (strip_trust_headers gw x1)) = req_host (x_req x)"
    using serve_cors_Inr [OF x1] by (simp add: strip_trust_headers_eq ensure_request_id_def Let_def)
  moreover have "get_header (strip_trust_headers gw x1) ''X-Forwarded-Host'' = get_header x ''X-Forwarded-Host''"
    using literal_not_stripped [OF d lit, of x1] serve_cors_Inr [OF x1]
      ensure_request_id_frame(1) [OF not_request_id [OF d disjI2 [OF lit]], of env x]
    by simp
  ultimately show ?thesis by (simp only: resolution_host_def)
qed

text \<open>A forwarded request, with what the prelude handed to its engine.\<close>

lemma forwarded_engine:
  assumes d: "headers_distinct (gw_config gw)"
    and fwd: "x_forwarded (serve_http lib gw env (arrives req jwks plans limiter))"
  shows "\<exists>x2 app requested. serve_http lib gw env (arrives req jwks plans limiter) =
      (if gw_policy_mode gw then serve_policy lib gw env app requested x2 else serve_legacy lib gw env app x2) \<and>
    pending x2 \<and> clean (gw_config gw) app (x_req x2) \<and> same_target (x_req x2) req \<and> x_jwks x2 = jwks \<and> x_plans x2 = plans \<and>
    get_header x2 (cfg_jwt_header_key (gw_config gw)) = get_req_header req (cfg_jwt_header_key (gw_config gw)) \<and>
    requested = trim_space (get_req_header req (cfg_app_id_header (gw_config gw))) \<and>
    \<not> snapshot_cold gw env \<and> req_path req \<noteq> iam_me_path \<and>
    (app = [] \<and> \<not> (cfg_app_resolution_mode (gw_config gw) = ''enforce'' \<and> gw_has_registry gw) \<or>
     resolve_host (lib_uni lib) (en_resolve_registry env) (resolution_host gw req) = Some app)"
proof -
  let ?x = "arrives req jwks plans limiter" and ?cfg = "gw_config gw"
  obtain x1 x2 app where x1: "serve_cors gw (ensure_request_id env ?x) = Inr x1"
    and x2: "resolve_app lib gw env (strip_trust_headers gw x1) = Inr (x2, app)"
    and warm: "\<not> snapshot_cold gw env" and p2: "pending x2" and path: "req_path (x_req x2) \<noteq> iam_me_path"
    and run: "serve_http lib gw env ?x = dispatch lib gw env app (trim_space (get_header x1 (cfg_app_id_header ?cfg))) x2"
    using serve_http_forwarded [OF pending_arrives fwd] by blast
  have ax: "x_req ?x = req" "x_jwks ?x = jwks" "x_plans ?x = plans" by (simp_all add: arrives_def)
  note ph = prelude_headers [OF d x1 x2]
  have same1: "get_header x1 k = get_req_header req k" if "k \<in> set (trust_headers ?cfg) \<or> k \<in> set literal_headers" for k
    using serve_cors_Inr [OF x1] ensure_request_id_frame(1) [OF not_request_id [OF d that], of env ?x] ax by simp
  have host: "resolution_host gw (x_req (strip_trust_headers gw x1)) = resolution_host gw req"
    using prelude_resolution_host [OF d x1] ax by simp
  have "serve_http lib gw env ?x =
      (if gw_policy_mode gw then serve_policy lib gw env app (trim_space (get_header x1 (cfg_app_id_header ?cfg))) x2
       else serve_legacy lib gw env app x2)"
    using path by (simp add: run dispatch_def)
  moreover have "app = [] \<and> \<not> (cfg_app_resolution_mode ?cfg = ''enforce'' \<and> gw_has_registry gw) \<or>
     resolve_host (lib_uni lib) (en_resolve_registry env) (resolution_host gw req) = Some app"
    using resolve_app_Inr [OF x2] host by auto
  ultimately show ?thesis
    using p2 warm path ph prelude_clean [OF d x1 x2] same1 [of "cfg_app_id_header ?cfg"] ax
    by (intro exI [of _ x2] exI [of _ app] exI [of _ "trim_space (get_header x1 (cfg_app_id_header ?cfg))"]) simp
qed

text \<open>What a forwarded request has passed, and whose identity it carries.\<close>

lemma forwarded_policy:
  assumes "headers_distinct (gw_config gw)" and "gw_policy_mode gw"
    and y: "y = serve_http lib gw env (arrives req jwks plans limiter)" and "x_forwarded y"
    and "match_endpoint (en_match_snapshot env) (get_header y (cfg_app_id_header (gw_config gw))) (req_method req) (req_path req) = Some ep"
  shows "\<exists>claims. policy_authorizes (en_policy_snapshot env) ep (get_header y (cfg_app_id_header (gw_config gw))) req claims \<and>
    carries gw env plans claims (x_req y) \<and>
    (\<forall>tc. claims = Some tc \<longrightarrow> vouched_caller lib gw env jwks (get_req_header req (cfg_jwt_header_key (gw_config gw))) tc)"
proof -
  obtain x2 app requested where run: "y = serve_policy lib gw env app requested x2"
    and x2: "pending x2" "clean (gw_config gw) app (x_req x2)" and st: "same_target (x_req x2) req" and j: "x_jwks x2 = jwks" "x_plans x2 = plans"
      "get_header x2 (cfg_jwt_header_key (gw_config gw)) = get_req_header req (cfg_jwt_header_key (gw_config gw))"
    using forwarded_engine [OF assms(1) assms(4) [unfolded y]] assms(2) y by auto
  from serve_policy_gate [OF assms(1) x2 assms(2), of lib env requested] assms(4,5) st show ?thesis
    using identified_vouched [of lib gw env jwks] policy_authorizes_cong [OF st] unfolding run [symmetric] j by metis
qed

lemma forwarded_legacy:
  assumes "headers_distinct (gw_config gw)" and "\<not> gw_policy_mode gw"
    and y: "y = serve_http lib gw env (arrives req jwks plans limiter)" and "x_forwarded y"
    and "match_endpoint (en_match_snapshot env) (get_header y (cfg_app_id_header (gw_config gw))) (req_method req) (req_path req) = Some ep"
  shows "\<exists>claims. legacy_authorizes gw ep (get_header y (cfg_app_id_header (gw_config gw))) req claims \<and>
    carries gw env plans claims (x_req y) \<and>
    (\<forall>tc. claims = Some tc \<longrightarrow> vouched_caller lib gw env jwks (get_req_header req (cfg_jwt_header_key (gw_config gw))) tc)"
proof -
  obtain x2 app where run: "y = serve_legacy lib gw env app x2"
    and x2: "pending x2" "clean (gw_config gw) app (x_req x2)" and st: "same_target (x_req x2) req" and j: "x_jwks x2 = jwks" "x_plans x2 = plans"
      "get_header x2 (cfg_jwt_header_key (gw_config gw)) = get_req_header req (cfg_jwt_header_key (gw_config gw))"
    using forwarded_engine [OF assms(1) assms(4) [unfolded y]] assms(2) y by auto
  from serve_legacy_gate [OF assms(1) x2 assms(2), of lib env] assms(4,5) st show ?thesis
    using identified_vouched [of lib gw env jwks] legacy_authorizes_cong [OF st] unfolding run [symmetric] j by metis
qed

text \<open>The application a forwarded request carries.\<close>

lemma forwarded_application:
  assumes "headers_distinct (gw_config gw)"
    and y: "y = serve_http lib gw env (arrives req jwks plans limiter)" and "x_forwarded y"
    and "app = get_header y (cfg_app_id_header (gw_config gw))"
  shows "app = [] \<or> resolve_host (lib_uni lib) (en_resolve_registry env) (resolution_host gw req) = Some app \<or>
    (gw_policy_mode gw \<and> app = trim_space (get_req_header req (cfg_app_id_header (gw_config gw))) \<and>
     is_active_app (en_active_registry env) app)"
proof -
  obtain x2 app1 requested where run: "y =
      (if gw_policy_mode gw then serve_policy lib gw env app1 requested x2 else serve_legacy lib gw env app1 x2)"
    and x2: "pending x2" "clean (gw_config gw) app1 (x_req x2)"
    and rq: "requested = trim_space (get_req_header req (cfg_app_id_header (gw_config gw)))"
    and app: "app1 = [] \<or> resolve_host (lib_uni lib) (en_resolve_registry env) (resolution_host gw req) = Some app1"
    using forwarded_engine [OF assms(1) assms(3) [unfolded y]] unfolding y by blast
  show ?thesis
    using assms(3,4) app rq serve_policy_gate [OF assms(1) x2, of lib env requested] serve_legacy_gate [OF assms(1) x2, of lib env]
    unfolding run by (cases "gw_policy_mode gw") auto
qed

text \<open>Who the gateway-owned headers of a forwarded request are from.\<close>

lemma forwarded_provenance:
  assumes "headers_distinct (gw_config gw)"
    and "x_forwarded (serve_http lib gw env (arrives req jwks plans limiter))"
  shows "anonymous_request (gw_config gw) (x_req (serve_http lib gw env (arrives req jwks plans limiter))) \<or>
    (\<exists>tc. vouched_caller lib gw env jwks (get_req_header req (cfg_jwt_header_key (gw_config gw))) tc \<and>
       stamped_request gw env plans tc (x_req (serve_http lib gw env (arrives req jwks plans limiter))))"
proof -
  obtain x2 app requested where run: "serve_http lib gw env (arrives req jwks plans limiter) =
      (if gw_policy_mode gw then serve_policy lib gw env app requested x2 else serve_legacy lib gw env app x2)"
    and x2: "pending x2" "clean (gw_config gw) app (x_req x2)" and j: "x_jwks x2 = jwks" "x_plans x2 = plans"
      "get_header x2 (cfg_jwt_header_key (gw_config gw)) = get_req_header req (cfg_jwt_header_key (gw_config gw))"
    using forwarded_engine [OF assms] by blast
  show ?thesis
    using assms(2) serve_policy_provenance [OF assms(1) x2, of lib env requested, unfolded j]
      serve_legacy_provenance [OF assms(1) x2, of lib env, unfolded j] identified_vouched [of lib gw env jwks]
    unfolding run by (cases "gw_policy_mode gw"; simp; blast)
qed

section \<open>Spoofed headers\<close>

text \<open>
  Two requests that differ at most in the gateway-owned headers other than the application's, and two
  exchanges with the same outcome: everything but the request itself is the same, and the request too when
  it is forwarded.
\<close>

definition spoof_equivalent :: "config \<Rightarrow> request \<Rightarrow> request \<Rightarrow> bool" where
  "spoof_equivalent cfg r r' \<longleftrightarrow>
     (\<exists>h. r' = r\<lparr>req_header := h\<rparr> \<and>
        (\<forall>c. c \<notin> canonical_key ` (set (owned_headers cfg) - {cfg_app_id_header cfg}) \<longrightarrow> h c = req_header r c))"

lemmas spoof_equivalent_code = spoof_equivalent_def [unfolded trust_headers_eq [symmetric]]

definition same_outcome :: "'s exchange \<Rightarrow> 's exchange \<Rightarrow> bool" where
  "same_outcome y y' \<longleftrightarrow> y' = y\<lparr>x_req := x_req y'\<rparr> \<and> (x_forwarded y \<longrightarrow> x_req y' = x_req y)"

definition spoofed :: "config \<Rightarrow> 's exchange \<Rightarrow> 's exchange \<Rightarrow> bool" where
  "spoofed cfg x x' \<longleftrightarrow> (\<exists>r'. x' = x\<lparr>x_req := r'\<rparr> \<and> spoof_equivalent cfg (x_req x) r')"

lemma spoofed_get_header:
  assumes "spoofed cfg x x'" and "canonical_key k \<notin> canonical_key ` (set (trust_headers cfg) - {cfg_app_id_header cfg})"
  shows "get_header x' k = get_header x k"
  using assms by (auto simp: spoofed_def spoof_equivalent_code h_get_def)

lemma spoofed_steps:
  assumes "spoofed cfg x x'"
  shows "spoofed cfg (set_header k v x) (set_header k v x')" "spoofed cfg (set_reply_header k v x) (set_reply_header k v x')"
    "spoofed cfg (x\<lparr>x_rw := f (x_rw x)\<rparr>) (x'\<lparr>x_rw := f (x_rw x')\<rparr>)" "req_method (x_req x') = req_method (x_req x)"
    "x_rw x' = x_rw x" "x_forwarded x' = x_forwarded x"
proof -
  obtain h where x': "x' = x\<lparr>x_req := (x_req x)\<lparr>req_header := h\<rparr>\<rparr>"
    and h: "\<And>c. c \<notin> canonical_key ` (set (trust_headers cfg) - {cfg_app_id_header cfg}) \<Longrightarrow> h c = req_header (x_req x) c"
    using assms by (auto simp: spoofed_def spoof_equivalent_code)
  show "spoofed cfg (set_header k v x) (set_header k v x')"
    unfolding spoofed_def spoof_equivalent_code
    by (intro exI [of _ "x_req (set_header k v x')"] conjI exI [of _ "h_set h k v"])
      (auto simp: x' set_header_def set_req_header_def h_set_apply h)
  show "spoofed cfg (set_reply_header k v x) (set_reply_header k v x')"
    and "spoofed cfg (x\<lparr>x_rw := f (x_rw x)\<rparr>) (x'\<lparr>x_rw := f (x_rw x')\<rparr>)"
    unfolding spoofed_def spoof_equivalent_code
    by (intro exI [of _ "(x_req x)\<lparr>req_header := h\<rparr>"] conjI exI [of _ h]; simp add: x' h set_reply_header_def)+
  show "req_method (x_req x') = req_method (x_req x)" "x_rw x' = x_rw x" "x_forwarded x' = x_forwarded x"
    by (simp_all add: x')
qed

lemma spoofed_strip:
  assumes "spoofed (gw_config gw) x x'"
  shows "strip_trust_headers gw x' = strip_trust_headers gw x"
  using assms by (auto simp: strip_trust_headers_eq spoofed_def spoof_equivalent_code fun_eq_iff image_iff)

lemma spoofed_ensure_request_id:
  assumes d: "headers_distinct (gw_config gw)" and "spoofed (gw_config gw) x x'"
  shows "spoofed (gw_config gw) (ensure_request_id env x) (ensure_request_id env x')"
proof -
  have "canonical_key request_id_header \<notin> canonical_key ` set (trust_headers (gw_config gw))"
    using d by (simp add: headers_distinct_code)
  then have "get_header x' request_id_header = get_header x request_id_header"
    by (intro spoofed_get_header [OF assms(2)]) auto
  then show ?thesis
    using assms(2) by (simp add: ensure_request_id_def Let_def spoofed_steps)
qed

lemma spoofed_serve_cors:
  assumes d: "headers_distinct (gw_config gw)" and s: "spoofed (gw_config gw) x x'"
  shows "(\<exists>y y'. serve_cors gw x = Inl y \<and> serve_cors gw x' = Inl y' \<and> spoofed (gw_config gw) y y') \<or>
    (\<exists>y y'. serve_cors gw x = Inr y \<and> serve_cors gw x' = Inr y' \<and> spoofed (gw_config gw) y y')"
proof -
  have "canonical_key ''Origin'' \<notin> canonical_key ` set (trust_headers (gw_config gw))"
    using d by (simp add: headers_distinct_code literal_headers_def)
  then have o: "get_header x' ''Origin'' = get_header x ''Origin''"
    by (intro spoofed_get_header [OF s]) auto
  have p: "spoofed (gw_config gw) z z' \<Longrightarrow> spoofed (gw_config gw) (preflight gw z) (preflight gw z')" for z z' :: "'a exchange"
    by (simp add: preflight_def Let_def spoofed_steps)
  show ?thesis
    using s p o spoofed_steps(4) [OF s]
      spoofed_steps(3) [OF s, of "\<lambda>rw. fst (apply_cors_headers gw (get_header x ''Origin'') rw)"]
    by (simp add: serve_cors_def Let_def)
qed

lemma serve_http_spoofed:
  assumes d: "headers_distinct (gw_config gw)" and s: "spoofed (gw_config gw) x x'" and p: "pending x"
  shows "same_outcome (serve_http lib gw env x) (serve_http lib gw env x')"
proof -
  note e = spoofed_ensure_request_id [OF d s, of env]
  show ?thesis
    using spoofed_serve_cors [OF d e]
  proof (elim disjE exE conjE)
    fix y y' assume y: "serve_cors gw (ensure_request_id env x) = Inl y" "serve_cors gw (ensure_request_id env x') = Inl y'"
      and sy: "spoofed (gw_config gw) y y'"
    have "\<not> x_forwarded y"
      using serve_cors_Inl [OF y(1) pending_ensure_request_id [OF p]] by blast
    with sy y show ?thesis by (auto simp: serve_http_def same_outcome_def spoofed_def)
  next
    fix y y' assume y: "serve_cors gw (ensure_request_id env x) = Inr y" "serve_cors gw (ensure_request_id env x') = Inr y'"
      and sy: "spoofed (gw_config gw) y y'"
    have "canonical_key (cfg_app_id_header (gw_config gw)) \<notin>
        canonical_key ` (set (trust_headers (gw_config gw)) - {cfg_app_id_header (gw_config gw)})"
      using d by (auto simp: headers_distinct_code distinct_map inj_on_def)
    with sy have "get_header y' (cfg_app_id_header (gw_config gw)) = get_header y (cfg_app_id_header (gw_config gw))"
      by (rule spoofed_get_header)
    with y spoofed_strip [OF sy] show ?thesis by (simp add: serve_http_def same_outcome_def)
  qed
qed

end
