(* ===== verification/Wiring.thy ===== *)
theory Wiring
  imports Gateway
begin

text \<open>
  Properties of the construction of a plugin instance (\<^verbatim>\<open>New\<close>, \<^verbatim>\<open>buildKeycloakAppSet\<close>) and of the
  CORS origin patterns.
\<close>

section \<open>Origins\<close>

lemma https_pattern: "has_prefix (''https://*.'' @ d) ''https://*.''" "drop (length ''https://*'') (''https://*.'' @ d) = CHR ''.'' # d"
  "\<not> has_prefix (''https://*.'' @ d) ''http://*.''"
  by (simp_all add: has_prefix_def)

lemma prefix_suffix_split:
  assumes "prefix p s" and "suffix (c # d) s" and "c \<notin> set p"
  shows "\<exists>m. s = p @ m @ c # d"
proof -
  obtain r where r: "s = p @ r" using assms(1) by (auto simp: prefix_def)
  from assms(2) consider "suffix (c # d) r" | xs where "c # d = xs @ r" "suffix xs p"
    unfolding r suffix_append by blast
  then show ?thesis
  proof cases
    case 1
    then show ?thesis by (auto simp: r suffix_def)
  next
    case 2
    have "xs = []"
      using 2 assms(3) set_mono_suffix [OF 2(2)] by (cases xs) auto
    with 2 show ?thesis by (auto simp: r intro: exI [of _ "[]"])
  qed
qed

text \<open>
  a wildcard origin pattern \<^verbatim>\<open>https://*.d\<close> admits exactly the literal pattern and the origins that are
  \<^verbatim>\<open>https://\<close>, some host prefix, and \<^verbatim>\<open>.d\<close>: never \<^verbatim>\<open>https://d\<close>, never another scheme, never a host that
  merely ends in the characters of \<^verbatim>\<open>d\<close>.
\<close>

theorem wildcard_origins:
  "origin_matches (''https://*.'' @ d) origin \<longleftrightarrow>
     origin = ''https://*.'' @ d \<or> (\<exists>s. origin = ''https://'' @ s @ ''.'' @ d)"
proof -
  have "prefix ''https://'' origin \<and> suffix (CHR ''.'' # d) origin \<longleftrightarrow> (\<exists>s. origin = ''https://'' @ s @ CHR ''.'' # d)"
    using prefix_suffix_split [of "''https://''" origin "CHR ''.''" d]
    by (auto simp: suffix_def simp del: append_Cons)
  moreover have "origin_matches (''https://*.'' @ d) origin \<longleftrightarrow>
      origin = ''https://*.'' @ d \<or> prefix ''https://'' origin \<and> suffix (CHR ''.'' # d) origin"
    unfolding origin_matches_def using https_pattern [of d] by (auto simp: has_prefix_def has_suffix_def)
  ultimately show ?thesis by simp
qed

section \<open>The Keycloak applications\<close>

text \<open>The realm an application ends up with: the last \<^verbatim>\<open>keycloakRealms\<close> entry that names it, else the shared realm.\<close>

definition listed_realm :: "config \<Rightarrow> string \<Rightarrow> keycloak_realm option" where
  "listed_realm cfg app =
     (case filter (\<lambda>r. trim_space (kr_app_id r) = app) (cfg_keycloak_realms cfg) of
        [] \<Rightarrow> if app \<noteq> [] \<and> app \<in> trim_space ` set (cfg_keycloak_apps cfg)
              then Some \<lparr>kr_app_id = app, kr_issuer = cfg_keycloak_issuer cfg, kr_jwks_url = cfg_keycloak_jwks_url cfg\<rparr>
              else None
      | rs \<Rightarrow> Some ((last rs)\<lparr>kr_app_id := app\<rparr>))"

lemma add_keycloak_apps_Inr:
  "add_keycloak_apps cfg as realms = Inr realms1 \<Longrightarrow>
   map_of realms1 app =
     (if app \<noteq> [] \<and> app \<in> trim_space ` set as
      then Some \<lparr>kr_app_id = app, kr_issuer = cfg_keycloak_issuer cfg, kr_jwks_url = cfg_keycloak_jwks_url cfg\<rparr>
      else map_of realms app)"
  by (induction as arbitrary: realms) (auto simp: Let_def update_conv' split: if_splits)

lemma add_keycloak_realms_Inr:
  "add_keycloak_realms rs realms = Inr realms1 \<Longrightarrow>
   map_of realms1 app =
     (case filter (\<lambda>r. trim_space (kr_app_id r) = app) rs of
        [] \<Rightarrow> map_of realms app | xs \<Rightarrow> Some ((last xs)\<lparr>kr_app_id := app\<rparr>))"
  by (induction rs arbitrary: realms) (auto simp: Let_def update_conv' split: if_splits list.splits)

text \<open>An entry of the set: a named application with an issuer and a JWKS URL.\<close>

definition complete_entry :: "string \<times> keycloak_realm \<Rightarrow> bool" where
  "complete_entry e \<longleftrightarrow> fst e \<noteq> [] \<and> kr_app_id (snd e) = fst e \<and> kr_issuer (snd e) \<noteq> [] \<and> kr_jwks_url (snd e) \<noteq> []"

definition app_set_wf :: "(string \<times> keycloak_realm) list \<Rightarrow> bool" where
  "app_set_wf realms \<longleftrightarrow> list_all complete_entry realms \<and> distinct (map fst realms)"

lemma app_set_wf_update:
  "app_set_wf realms \<Longrightarrow> complete_entry (k, v) \<Longrightarrow> app_set_wf (AList.update k v realms)"
proof -
  have "list_all complete_entry realms \<Longrightarrow> complete_entry (k, v) \<Longrightarrow> list_all complete_entry (AList.update k v realms)"
    by (induction realms) auto
  then show "app_set_wf realms \<Longrightarrow> complete_entry (k, v) \<Longrightarrow> app_set_wf (AList.update k v realms)"
    by (simp add: app_set_wf_def distinct_update)
qed

lemma add_keycloak_apps_wf: "add_keycloak_apps cfg as realms = Inr realms1 \<Longrightarrow> app_set_wf realms \<Longrightarrow> app_set_wf realms1"
  by (induction as arbitrary: realms)
    (fastforce simp: Let_def complete_entry_def split: if_splits intro: app_set_wf_update)+

lemma add_keycloak_realms_wf: "add_keycloak_realms rs realms = Inr realms1 \<Longrightarrow> app_set_wf realms \<Longrightarrow> app_set_wf realms1"
  by (induction rs arbitrary: realms)
    (fastforce simp: Let_def complete_entry_def split: if_splits intro: app_set_wf_update)+

lemma build_keycloak_app_set_Inr:
  assumes "build_keycloak_app_set cfg = Inr realms"
  shows "map_of realms app = listed_realm cfg app" and "app_set_wf realms"
proof -
  obtain realms0 where *: "add_keycloak_apps cfg (cfg_keycloak_apps cfg) [] = Inr realms0"
    "add_keycloak_realms (cfg_keycloak_realms cfg) realms0 = Inr realms"
    using assms by (auto simp: build_keycloak_app_set_def split: sum.splits)
  then show "map_of realms app = listed_realm cfg app"
    by (simp add: listed_realm_def add_keycloak_apps_Inr add_keycloak_realms_Inr split: list.split)
  have "app_set_wf []" by (simp add: app_set_wf_def)
  with * show "app_set_wf realms" using add_keycloak_apps_wf add_keycloak_realms_wf by blast
qed

text \<open>
  a successful \<^verbatim>\<open>buildKeycloakAppSet\<close> gives every application at most one realm, with an issuer and a
  JWKS URL: the last explicit entry that names the application (white space trimmed) wins over earlier ones
  and over the shared realm of \<^verbatim>\<open>keycloakApps\<close>; an application in neither list has none.
\<close>

theorem keycloak_app_set_spec:
  assumes "build_keycloak_app_set cfg = Inr realms"
  shows "map_of realms app = listed_realm cfg app \<and> app_set_wf realms"
  using build_keycloak_app_set_Inr [OF assms] by blast

theorem keycloak_app_set_spec_witness:
  "map_of [(''a'', \<lparr>kr_app_id = ''a'', kr_issuer = ''j'', kr_jwks_url = ''v''\<rparr>)] ''a'' =
     listed_realm (create_config\<lparr>cfg_keycloak_apps := [''a''], cfg_keycloak_issuer := ''i'', cfg_keycloak_jwks_url := ''u'',
       cfg_keycloak_realms := [\<lparr>kr_app_id = '' a'', kr_issuer = ''j'', kr_jwks_url = ''v''\<rparr>]\<rparr>) ''a'' \<and>
   app_set_wf [(''a'', \<lparr>kr_app_id = ''a'', kr_issuer = ''j'', kr_jwks_url = ''v''\<rparr>)]"
  by (rule keycloak_app_set_spec) code_simp

section \<open>The caches of the realms\<close>

text \<open>The process-wide map of JWKS caches, keyed by URL, holds under each URL a cache of that URL.\<close>

definition jwks_consistent :: "(string \<rightharpoonup> jwks_cache) \<Rightarrow> bool" where
  "jwks_consistent sh \<longleftrightarrow> (\<forall>url jc. sh url = Some jc \<longrightarrow> jc_url jc = url)"

definition has_jwks_cache :: "(string \<rightharpoonup> jwks_cache) \<Rightarrow> string \<Rightarrow> bool" where
  "has_jwks_cache sh url \<longleftrightarrow> (\<exists>jc. sh url = Some jc \<and> jc_url jc = url)"

lemma jwks_refresh_url [simp]: "jc_url (snd (jwks_refresh ev jc)) = jc_url jc"
  by (simp add: jwks_refresh_def Let_def split: sum.split)

lemma get_shared_jwks_consistent:
  assumes "jwks_consistent sh"
  shows "jwks_consistent (get_shared_jwks_cache url cooldown ev sh)"
    and "has_jwks_cache (get_shared_jwks_cache url cooldown ev sh) url"
    and "has_jwks_cache sh url' \<Longrightarrow> has_jwks_cache (get_shared_jwks_cache url cooldown ev sh) url'"
  using assms
  by (auto simp: get_shared_jwks_cache_def jwks_consistent_def has_jwks_cache_def new_jwks_cache_def split: option.splits)

lemma wire_realms_spec:
  assumes "jwks_consistent jwks" and "wire_realms ne cooldown realms jwks = (m, jwks1)"
  shows "m = map_option (\<lambda>r. \<lparr>rlm_issuer = kr_issuer r, rlm_jwks_url = kr_jwks_url r\<rparr>) \<circ> map_of (rev realms)"
    and "jwks_consistent jwks1" and "\<forall>(app, r) \<in> set realms. has_jwks_cache jwks1 (kr_jwks_url r)"
proof -
  have "m = map_option (\<lambda>r. \<lparr>rlm_issuer = kr_issuer r, rlm_jwks_url = kr_jwks_url r\<rparr>) \<circ> map_of (rev realms) \<and>
      jwks_consistent jwks1 \<and> (\<forall>(app, r) \<in> set realms. has_jwks_cache jwks1 (kr_jwks_url r))"
    using assms(2)
  proof (induction realms arbitrary: m jwks1 rule: rev_induct)
    case Nil
    with assms(1) show ?case by (auto simp: wire_realms_def)
  next
    case (snoc e realms)
    obtain m0 jwks0 where w: "wire_realms ne cooldown realms jwks = (m0, jwks0)" by fastforce
    note ih = snoc.IH [OF w]
    obtain app r where e: "e = (app, r)" by (cases e)
    from w snoc.prems have m: "m = m0(app \<mapsto> \<lparr>rlm_issuer = kr_issuer r, rlm_jwks_url = kr_jwks_url r\<rparr>)"
      and j: "jwks1 = get_shared_jwks_cache (kr_jwks_url r) cooldown (ne_jwks ne (kr_jwks_url r)) jwks0"
      by (auto simp: wire_realms_def e)
    have "m = map_option (\<lambda>r. \<lparr>rlm_issuer = kr_issuer r, rlm_jwks_url = kr_jwks_url r\<rparr>) \<circ> map_of (rev (realms @ [e]))"
      using ih by (auto simp: m e fun_eq_iff)
    moreover have "\<forall>(app, r) \<in> set (realms @ [e]). has_jwks_cache jwks1 (kr_jwks_url r)" and "jwks_consistent jwks1"
      using ih by (auto simp: j e intro: get_shared_jwks_consistent)
    ultimately show ?case by blast
  qed
  then show "m = map_option (\<lambda>r. \<lparr>rlm_issuer = kr_issuer r, rlm_jwks_url = kr_jwks_url r\<rparr>) \<circ> map_of (rev realms)"
    and "jwks_consistent jwks1" and "\<forall>(app, r) \<in> set realms. has_jwks_cache jwks1 (kr_jwks_url r)"
    by blast+
qed

text \<open>The check passes exactly when every built realm is bound to the cache of the URL configured for it.\<close>

lemma miswired_None_iff:
  "miswired realms rmap jwks = None \<longleftrightarrow> (\<forall>(app, r) \<in> set realms. bound_cache_url rmap jwks app = Some (kr_jwks_url r))"
  by (auto simp: miswired_def find_None_iff)

lemma wired_realms_pass:
  assumes "jwks_consistent jwks" and "wire_realms ne cooldown realms jwks = (m, jwks1)" and "distinct (map fst realms)"
  shows "miswired realms m jwks1 = None"
proof -
  note ws = wire_realms_spec [OF assms(1,2)]
  have "bound_cache_url m jwks1 app = Some (kr_jwks_url r)" if "(app, r) \<in> set realms" for app r
  proof -
    have "map_of (rev realms) app = Some r" using that map_of_rev_distinct [OF assms(3)] by simp
    then have "m app = Some \<lparr>rlm_issuer = kr_issuer r, rlm_jwks_url = kr_jwks_url r\<rparr>" by (simp add: ws(1))
    moreover have "has_jwks_cache jwks1 (kr_jwks_url r)" using ws(3) that by blast
    ultimately show ?thesis by (auto simp: bound_cache_url_def has_jwks_cache_def)
  qed
  then show ?thesis unfolding miswired_None_iff by blast
qed

text \<open>What an instance relies on to verify the tokens of a realm.\<close>

definition realm_wired :: "(string \<rightharpoonup> jwks_cache) \<Rightarrow> realm \<Rightarrow> bool" where
  "realm_wired sh rlm \<longleftrightarrow> rlm_issuer rlm \<noteq> [] \<and> rlm_jwks_url rlm \<noteq> [] \<and> has_jwks_cache sh (rlm_jwks_url rlm)"

definition realm_of :: "keycloak_realm \<Rightarrow> realm" where
  "realm_of r = \<lparr>rlm_issuer = kr_issuer r, rlm_jwks_url = kr_jwks_url r\<rparr>"

lemma app_set_wired:
  assumes "app_set_wf realms" and "\<forall>(app, r) \<in> set realms. has_jwks_cache sh (kr_jwks_url r)"
    and "map_of realms app = Some r"
  shows "realm_wired sh (realm_of r)"
  using assms map_of_SomeD [OF assms(3)]
  by (fastforce simp: app_set_wf_def complete_entry_def list_all_iff realm_wired_def realm_of_def)

lemma build_keycloak_app_set_Inl: "build_keycloak_app_set cfg = Inl e \<Longrightarrow> e \<noteq> WrongJwksCache app"
proof -
  have "add_keycloak_apps cfg as realms = Inl e \<Longrightarrow> e \<noteq> WrongJwksCache app" for as realms
    by (induction as arbitrary: realms) (auto simp: Let_def split: if_splits)
  moreover have "add_keycloak_realms rs realms = Inl e \<Longrightarrow> e \<noteq> WrongJwksCache app" for rs realms
    by (induction rs arbitrary: realms) (auto simp: Let_def split: if_splits)
  ultimately show "build_keycloak_app_set cfg = Inl e \<Longrightarrow> e \<noteq> WrongJwksCache app"
    by (auto simp: build_keycloak_app_set_def split: sum.splits)
qed

text \<open>The construction past the realms: the operator realm joins the wired ones.\<close>

definition operator_of :: "config \<Rightarrow> realm option" where
  "operator_of cfg =
     (if kr_issuer (cfg_operator_realm cfg) = [] \<and> kr_jwks_url (cfg_operator_realm cfg) = [] then None
      else Some (realm_of (cfg_operator_realm cfg)))"

lemma new_gateway_cases:
  assumes n: "new_gateway uni rx parse_url ne (Some cfg) sh = (res, sh1)"
  shows "(\<exists>e. res = Inl e \<and> (\<forall>app. e \<noteq> WrongJwksCache app) \<and> sh_jwks sh1 = sh_jwks sh) \<or>
    (\<exists>realms m jwks cooldown.
       build_keycloak_app_set cfg = Inr realms \<and> wire_realms ne cooldown realms (sh_jwks sh) = (m, jwks) \<and>
       (sh_jwks sh1 = jwks \<and> (res = Inl IncompleteOperatorRealm \<or> (\<exists>app. miswired realms m jwks = Some app \<and> res = Inl (WrongJwksCache app))) \<or>
        (\<exists>gw limiter plans. res = Inr (gw, limiter, plans) \<and> gw_realms gw = m \<and> gw_operator gw = operator_of cfg \<and>
           (case operator_of cfg of
              None \<Rightarrow> sh_jwks sh1 = jwks
            | Some rlm \<Rightarrow> rlm_issuer rlm \<noteq> [] \<and> rlm_jwks_url rlm \<noteq> [] \<and>
                sh_jwks sh1 = get_shared_jwks_cache (rlm_jwks_url rlm) cooldown (ne_jwks ne (rlm_jwks_url rlm)) jwks))))"
proof (cases "\<exists>e. res = Inl e \<and> (\<forall>app. e \<noteq> WrongJwksCache app) \<and> sh_jwks sh1 = sh_jwks sh")
  case False
  then obtain realms where b: "build_keycloak_app_set cfg = Inr realms"
    using n build_keycloak_app_set_Inl [of cfg]
    by (fastforce simp: new_gateway_def Let_def split: if_splits sum.splits)
  define cooldown where "cooldown = parse_duration (cfg_jwks_refetch_cooldown cfg) 30000000000"
  obtain m jwks where w: "wire_realms ne cooldown realms (sh_jwks sh) = (m, jwks)" by fastforce
  from False n b w show ?thesis
    by (intro disjI2 exI [of _ realms] exI [of _ m] exI [of _ jwks] exI [of _ cooldown])
      (auto simp: new_gateway_def Let_def cooldown_def operator_of_def realm_of_def split: if_splits sum.splits option.splits)
qed blast

lemma new_gateway_wired:
  assumes c: "jwks_consistent (sh_jwks sh)"
    and n: "new_gateway uni rx parse_url ne (Some cfg) sh = (res, sh1)"
  shows "jwks_consistent (sh_jwks sh1)"
    and "res \<noteq> Inl (WrongJwksCache app)"
    and "res = Inr (gw, limiter, plans) \<Longrightarrow> gw_realms gw app = map_option realm_of (listed_realm cfg app) \<and>
      (gw_realms gw app = Some rlm \<or> gw_operator gw = Some rlm \<longrightarrow> realm_wired (sh_jwks sh1) rlm)"
proof -
  have "jwks_consistent (sh_jwks sh1) \<and> res \<noteq> Inl (WrongJwksCache app) \<and>
    (res = Inr (gw, limiter, plans) \<longrightarrow> gw_realms gw app = map_option realm_of (listed_realm cfg app) \<and>
      (gw_realms gw app = Some rlm \<or> gw_operator gw = Some rlm \<longrightarrow> realm_wired (sh_jwks sh1) rlm))"
    using new_gateway_cases [OF n]
  proof (elim disjE exE conjE)
    fix realms m jwks cooldown
    assume b: "build_keycloak_app_set cfg = Inr realms" and w: "wire_realms ne cooldown realms (sh_jwks sh) = (m, jwks)"
    note ws = wire_realms_spec [OF c w] and wf = build_keycloak_app_set_Inr [OF b]
    have "distinct (map fst realms)" using wf(2) by (simp add: app_set_wf_def)
    then have mw: "miswired realms m jwks = None" by (rule wired_realms_pass [OF c w])
    {
      assume "sh_jwks sh1 = jwks" "res = Inl IncompleteOperatorRealm"
      with ws(2) show ?thesis by simp
    next
      fix app assume "miswired realms m jwks = Some app"
      with mw show ?thesis by simp
    next
      fix gw' limiter' plans'
      assume r: "res = Inr (gw', limiter', plans')" and gm: "gw_realms gw' = m" and go: "gw_operator gw' = operator_of cfg"
        and sh: "case operator_of cfg of
              None \<Rightarrow> sh_jwks sh1 = jwks
            | Some rlm \<Rightarrow> rlm_issuer rlm \<noteq> [] \<and> rlm_jwks_url rlm \<noteq> [] \<and>
                sh_jwks sh1 = get_shared_jwks_cache (rlm_jwks_url rlm) cooldown (ne_jwks ne (rlm_jwks_url rlm)) jwks"
      have "map_of (rev realms) k = Some v \<longleftrightarrow> map_of realms k = Some v" for k v
        using wf(2) map_of_rev_distinct [of realms k v] by (simp add: app_set_wf_def)
      then have "map_of (rev realms) k = map_of realms k" for k
        by (metis not_Some_eq)
      then have m: "m = map_option realm_of \<circ> map_of realms"
        unfolding ws(1) by (simp add: fun_eq_iff realm_of_def [abs_def])
      have keep: "has_jwks_cache jwks url \<Longrightarrow> has_jwks_cache (sh_jwks sh1) url" for url
        using sh get_shared_jwks_consistent(3) [OF ws(2)] by (auto split: option.splits)
      have cons: "jwks_consistent (sh_jwks sh1)"
        using sh ws(2) get_shared_jwks_consistent(1) [OF ws(2)] by (auto split: option.splits)
      have all: "\<forall>(app, r) \<in> set realms. has_jwks_cache (sh_jwks sh1) (kr_jwks_url r)"
        using ws(3) keep by auto
      have "realm_wired (sh_jwks sh1) rlm" if "gw_realms gw' app = Some rlm"
        using that app_set_wired [OF wf(2) all] by (auto simp: gm m)
      moreover have "realm_wired (sh_jwks sh1) rlm" if "gw_operator gw' = Some rlm"
        using that sh get_shared_jwks_consistent(2) [OF ws(2)] by (auto simp: go realm_wired_def)
      moreover have "gw_realms gw' app = map_option realm_of (listed_realm cfg app)"
        by (simp add: gm m wf(1))
      ultimately show ?thesis using cons unfolding r sum.inject prod.inject by blast
    }
  qed (use c in auto)
  then show "jwks_consistent (sh_jwks sh1)" and "res \<noteq> Inl (WrongJwksCache app)"
    and "res = Inr (gw, limiter, plans) \<Longrightarrow> gw_realms gw app = map_option realm_of (listed_realm cfg app) \<and>
      (gw_realms gw app = Some rlm \<or> gw_operator gw = Some rlm \<longrightarrow> realm_wired (sh_jwks sh1) rlm)"
    by blast+
qed

text \<open>
  C19: a plugin instance never verifies an application's tokens against another realm's keys: with the shared
  JWKS caches filed under their own URLs, \<^verbatim>\<open>New\<close> keeps them so, never reports a wrong cache, and an instance it
  builds has for each configured application exactly the realm configured for it, and for every realm (the
  operators' included) an issuer and the cache of its own JWKS URL.
\<close>

theorem new_gateway_wires_realms:
  assumes "jwks_consistent (sh_jwks sh)" and "new_gateway uni rx parse_url ne (Some cfg) sh = (res, sh1)"
  shows "jwks_consistent (sh_jwks sh1) \<and> (\<forall>app. res \<noteq> Inl (WrongJwksCache app)) \<and>
    (\<forall>gw limiter plans. res = Inr (gw, limiter, plans) \<longrightarrow>
       (\<forall>app. gw_realms gw app = map_option realm_of (listed_realm cfg app)) \<and>
       (\<forall>rlm \<in> ran (gw_realms gw) \<union> set_option (gw_operator gw). realm_wired (sh_jwks sh1) rlm))"
proof (intro conjI allI impI ballI)
  show "jwks_consistent (sh_jwks sh1)" using assms by (rule new_gateway_wired(1))
  show "res \<noteq> Inl (WrongJwksCache app)" for app using assms by (rule new_gateway_wired(2))
  fix gw limiter plans assume r: "res = Inr (gw, limiter, plans)"
  show "gw_realms gw app = map_option realm_of (listed_realm cfg app)" for app
    using new_gateway_wired(3) [OF assms r] by blast
  fix rlm assume "rlm \<in> ran (gw_realms gw) \<union> set_option (gw_operator gw)"
  then obtain app where "gw_realms gw app = Some rlm \<or> gw_operator gw = Some rlm" by (auto simp: ran_def)
  then show "realm_wired (sh_jwks sh1) rlm" using new_gateway_wired(3) [OF assms r] by blast
qed

text \<open>A deployment of one application realm and the operators' realm, on empty caches.\<close>

definition wiring_config :: config where
  "wiring_config = create_config\<lparr>cfg_disable_rate_limit := True, cfg_jwks_refetch_cooldown := [],
     cfg_authorization_mode := '' policy '',
     cfg_keycloak_realms := [\<lparr>kr_app_id = ''a'', kr_issuer = ''i'', kr_jwks_url = ''u''\<rparr>],
     cfg_operator_realm := \<lparr>kr_app_id = [], kr_issuer = ''o'', kr_jwks_url = ''w''\<rparr>\<rparr>"

definition wiring_env :: new_env where
  "wiring_env = \<lparr>ne_snapshot = TransportFailed, ne_registry = TransportFailed,
     ne_jwks = (\<lambda>_. \<lparr>je_now = 0, je_refresh_now = 0, je_fetch = \<lambda>_. TransportFailed\<rparr>),
     ne_dial = \<lparr>de_now = 0, de_fail_now = 0, de_dial = NoRoute\<rparr>\<rparr>"

definition no_caches :: shared_caches where
  "no_caches = \<lparr>sh_snapshots = Map.empty, sh_registries = Map.empty, sh_jwks = Map.empty\<rparr>"

abbreviation wiring_new :: "(new_error + gateway \<times> rate_limiter option \<times> plan_resolver) \<times> shared_caches" where
  "wiring_new \<equiv> new_gateway (\<lambda>s. s) (\<lambda>_. None) (\<lambda>_. None) wiring_env (Some wiring_config) no_caches"

lemma wiring_built: "case fst wiring_new of Inl _ \<Rightarrow> False | Inr _ \<Rightarrow> True"
  by code_simp

lemma wiring_result: "\<exists>gw limiter plans. wiring_new = (Inr (gw, limiter, plans), snd wiring_new)"
  using wiring_built by (cases "fst wiring_new") (auto simp: prod_eq_iff)

theorem new_gateway_wires_realms_witness:
  "\<exists>gw limiter plans. fst wiring_new = Inr (gw, limiter, plans) \<and>
     gw_realms gw ''a'' = Some \<lparr>rlm_issuer = ''i'', rlm_jwks_url = ''u''\<rparr> \<and> gw_realms gw ''b'' = None \<and>
     realm_wired (sh_jwks (snd wiring_new)) \<lparr>rlm_issuer = ''i'', rlm_jwks_url = ''u''\<rparr>"
proof -
  obtain gw limiter plans where new: "wiring_new = (Inr (gw, limiter, plans), snd wiring_new)"
    using wiring_result by blast
  have "map_option realm_of (listed_realm wiring_config ''a'') = Some \<lparr>rlm_issuer = ''i'', rlm_jwks_url = ''u''\<rparr>"
    and "map_option realm_of (listed_realm wiring_config ''b'') = None"
    by code_simp+
  moreover have "jwks_consistent (sh_jwks no_caches)" by (simp add: jwks_consistent_def no_caches_def)
  from new_gateway_wires_realms [OF this new] have
    "\<forall>app. gw_realms gw app = map_option realm_of (listed_realm wiring_config app)"
    and "\<forall>rlm \<in> ran (gw_realms gw). realm_wired (sh_jwks (snd wiring_new)) rlm"
    by blast+
  ultimately show ?thesis
    using arg_cong [OF new, of fst] by (intro exI [of _ gw] exI [of _ limiter] exI [of _ plans]) (auto simp: ran_def)
qed

text \<open>
  the check of \<^verbatim>\<open>authorizationMode\<close> trims white space, the switch does not: \<^verbatim>\<open>" policy "\<close> is accepted,
  and every instance built with it runs the legacy engine.
\<close>

theorem padded_policy_mode_is_legacy:
  assumes "cfg_authorization_mode cfg = '' policy ''"
    and "new_gateway uni rx parse_url ne (Some cfg) sh = (Inr (gw, limiter, plans), sh1)"
  shows "authorization_mode_valid uni (cfg_authorization_mode cfg) \<and> \<not> gw_policy_mode gw"
proof -
  have "trim_space '' policy '' = ''policy''" and "is_ascii ''policy''" and "map lower_char ''policy'' = ''policy''"
    and "\<not> equal_fold '' policy '' ''policy''"
    by code_simp+
  moreover have "gw_policy_mode gw = equal_fold (cfg_authorization_mode cfg) ''policy''"
    using assms(2) by (auto simp: new_gateway_def Let_def split: if_splits sum.splits prod.splits option.splits)
  ultimately show ?thesis using assms(1) by (simp add: authorization_mode_valid_def to_lower_def)
qed

theorem padded_policy_mode_is_legacy_witness:
  "\<exists>gw limiter plans. fst wiring_new = Inr (gw, limiter, plans) \<and>
     authorization_mode_valid (\<lambda>s. s) (cfg_authorization_mode wiring_config) \<and> \<not> gw_policy_mode gw"
proof -
  obtain gw limiter plans where new: "wiring_new = (Inr (gw, limiter, plans), snd wiring_new)"
    using wiring_result by blast
  have "cfg_authorization_mode wiring_config = '' policy ''" by (simp add: wiring_config_def)
  from padded_policy_mode_is_legacy [OF this new] new show ?thesis
    by (intro exI [of _ gw] exI [of _ limiter] exI [of _ plans] conjI) (auto dest: arg_cong [of _ _ fst])
qed

end
