(* ===== verification/Lifetime.thy ===== *)
theory Lifetime
  imports Gate Wiring
begin

text \<open>
  The life of a Traefik process as far as the key sets are concerned: instances are built, key sets are
  polled, requests are served, in any order and number, all on the shared JWKS caches.  A key that is
  cached under a URL has been published by that URL, so an identity can be traced to a publication.
\<close>

section \<open>Histories\<close>

text \<open>
  The shared caches after some history, and what the JWKS endpoints have answered in it.  \<open>built\<close> is the
  construction of an instance (for a router, or after a reload), \<open>polled\<close> one refresh by the loop of a cache,
  \<open>served\<close> one request at any instance, whatever its plans and its limiter.
\<close>

inductive process :: "('ev, 's, 'e) libs \<Rightarrow> jwks_event set \<Rightarrow> (string \<rightharpoonup> jwks_cache) \<Rightarrow> bool"
  for lib :: "('ev, 's, 'e) libs" where
  boot: "process lib {} Map.empty"
| built: "process lib answers (sh_jwks sh) \<Longrightarrow> new_gateway uni rx parse_url ne cfg sh = (res, sh1) \<Longrightarrow>
   process lib (answers \<union> range (ne_jwks ne)) (sh_jwks sh1)"
| polled: "process lib answers jwks \<Longrightarrow> jwks url = Some jc \<Longrightarrow>
   process lib (insert ev answers) (jwks(url \<mapsto> snd (jwks_refresh ev jc)))"
| served: "process lib answers jwks \<Longrightarrow>
   process lib (insert (en_jwks env) answers) (x_jwks (serve_http lib gw env (arrives req jwks plans limiter)))"

text \<open>A key that some answer published at a URL for a \<^verbatim>\<open>kid\<close>, and caches that hold such keys only.\<close>

definition published_by :: "jwks_event set \<Rightarrow> string \<Rightarrow> string \<Rightarrow> rsa_key \<Rightarrow> bool" where
  "published_by answers url kid key \<longleftrightarrow> (\<exists>ev \<in> answers. \<exists>m. published_keys url ev = Some m \<and> m kid = Some key)"

definition keys_published :: "jwks_event set \<Rightarrow> (string \<rightharpoonup> jwks_cache) \<Rightarrow> bool" where
  "keys_published answers jwks \<longleftrightarrow>
     (\<forall>url jc. jwks url = Some jc \<longrightarrow>
        jc_url jc = url \<and> (\<forall>kid key. jc_keys jc kid = Some key \<longrightarrow> published_by answers url kid key))"

lemma published_by_mono: "published_by answers url kid key \<Longrightarrow> answers \<subseteq> answers' \<Longrightarrow> published_by answers' url kid key"
  by (auto simp: published_by_def)

lemma keys_published_mono: "keys_published answers jwks \<Longrightarrow> answers \<subseteq> answers' \<Longrightarrow> keys_published answers' jwks"
  unfolding keys_published_def by (blast intro: published_by_mono)

lemma published_by_sound: "published_by answers url kid key \<Longrightarrow> sound_key key"
  by (auto simp: published_by_def intro: published_sound)

section \<open>Refreshes\<close>

lemma keys_published_refresh:
  assumes "keys_published answers jwks" and "ev \<in> answers" and "jc_url jc = url"
    and "\<And>kid key. jc_keys jc kid = Some key \<Longrightarrow> published_by answers url kid key"
  shows "keys_published answers (jwks(url \<mapsto> snd (jwks_refresh ev jc)))"
proof -
  have "published_by answers url kid key" if "jc_keys (snd (jwks_refresh ev jc)) kid = Some key" for kid key
    using that assms(2-4) by (auto simp: jwks_refresh_keys published_by_def split: option.splits)
  with assms(1,3) show ?thesis by (auto simp: keys_published_def)
qed

lemma keys_published_cached:
  assumes "keys_published answers jwks" and "jwks url = Some jc"
  shows "jc_url jc = url" and "jc_keys jc kid = Some key \<Longrightarrow> published_by answers url kid key"
  using assms by (auto simp: keys_published_def)

lemma keys_published_lookup:
  assumes "keys_published answers jwks" and "ev \<in> answers"
  shows "keys_published answers (snd (realm_key_for ev url kid jwks))"
proof (cases "jwks url")
  case (Some jc)
  have "jwks(url \<mapsto> jc) = jwks" using Some by auto
  with Some keys_published_refresh [OF assms, of jc url] keys_published_cached [OF assms(1) Some] assms(1) show ?thesis
    by (auto simp: realm_key_for_def key_for_kid_cases Let_def split: prod.split option.split)
qed (simp add: realm_key_for_def assms(1))

lemma keys_published_shared:
  assumes "keys_published answers jwks" and "ev \<in> answers"
  shows "keys_published answers (get_shared_jwks_cache url cooldown ev jwks)"
  using keys_published_refresh [OF assms, of "new_jwks_cache url cooldown" url] assms(1)
  by (auto simp: get_shared_jwks_cache_def new_jwks_cache_def split: option.split)

section \<open>Requests\<close>

text \<open>Stages that leave the caches alone.\<close>

lemma jwks_frames:
  "x_jwks (deny gw st d r x) = x_jwks x" "x_jwks (reject_legacy_api_key gw x) = x_jwks x"
  "x_jwks (rate_limit_headers rl m x) = x_jwks x" "x_jwks (too_many_requests env rl x) = x_jwks x"
  "x_jwks (ensure_request_id env x) = x_jwks x" "x_jwks (strip_trust_headers gw x) = x_jwks x"
  "x_jwks (policy_stamp gw plan tc pr target x) = x_jwks x" "x_jwks (legacy_stamp gw plan tc x) = x_jwks x"
  "x_jwks (fst (anonymous_identity gw target x)) = x_jwks x"
  by (simp_all add: deny_def reject_legacy_api_key_def rate_limit_headers_def too_many_requests_def ensure_request_id_frame
      strip_trust_headers_eq policy_stamp_def legacy_stamp_def stamp_authz_headers_def anonymous_identity_def Let_def)

lemma apply_rate_limit_jwks: "x_jwks (fst (apply_rate_limit lib gw env ep key plan x)) = x_jwks x"
  by (simp add: apply_rate_limit_def Let_def jwks_frames split: prod.split check_result.split)

lemma policy_target_jwks:
  "policy_target gw env app requested x = Inl y \<Longrightarrow> x_jwks y = x_jwks x"
  "policy_target gw env app requested x = Inr (y, target) \<Longrightarrow> x_jwks y = x_jwks x"
  by (auto simp: policy_target_def Let_def jwks_frames split: if_splits)

lemma policy_endpoint_jwks: "policy_endpoint gw env app target x = Inl y \<Longrightarrow> x_jwks y = x_jwks x"
  by (auto simp: policy_endpoint_def jwks_frames split: if_splits option.splits)

lemma policy_permission_jwks: "policy_permission gw ep target pr x = Some y \<Longrightarrow> x_jwks y = x_jwks x"
  by (auto simp: policy_permission_def Let_def jwks_frames split: if_splits)

lemma legacy_permission_jwks: "legacy_permission gw ep claims x = Some y \<Longrightarrow> x_jwks y = x_jwks x"
  by (auto simp: legacy_permission_def Let_def split: if_splits option.splits)

lemma policy_admit_jwks: "x_jwks (policy_admit lib gw env target ep caller x) = x_jwks x"
proof -
  obtain y key plan w where id: "policy_identity gw env target caller x = (y, key, plan, w)"
    by (cases "policy_identity gw env target caller x") auto
  then have "x_jwks y = x_jwks x"
    using jwks_frames(9) [of gw target x] by (auto simp: policy_identity_def jwks_frames(7) split: option.splits prod.splits)
  then show ?thesis
    using apply_rate_limit_jwks [of lib gw env ep key plan y]
    by (auto simp: policy_admit_def id policy_owner_def jwks_frames split: option.split prod.split)
qed

lemma legacy_admit_jwks: "x_jwks (legacy_admit lib gw env app ep claims x) = x_jwks x"
proof -
  obtain y key plan where id: "legacy_identity gw env app claims x = (y, key, plan)"
    by (cases "legacy_identity gw env app claims x") auto
  then have "x_jwks y = x_jwks x"
    using jwks_frames(9) [of gw app x] by (auto simp: legacy_identity_def jwks_frames(8) split: option.splits prod.splits)
  then show ?thesis
    using apply_rate_limit_jwks [of lib gw env ep key plan y]
    by (auto simp: legacy_admit_def id legacy_owner_def legacy_rate_limit_eq split: option.split prod.split)
qed

text \<open>A property of the shared caches that key lookups keep is kept by whole requests: nothing else touches them.\<close>

locale jwks_invariant =
  fixes ev :: jwks_event and P :: "(string \<rightharpoonup> jwks_cache) \<Rightarrow> bool"
  assumes lookup: "P jwks \<Longrightarrow> P (snd (realm_key_for ev url kid jwks))"
begin

lemma parse_auth:
  assumes "en_jwks env = ev" and "P jwks"
  shows "P (snd (parse_keycloak_auth lib gw env rlm auth jwks))"
proof -
  have keyfunc: "P (snd (keycloak_keyfunc (realm_key_for ev url) tok jwks))" for url tok
    using lookup [OF assms(2), of url] assms(2)
    by (auto simp: keycloak_keyfunc_def Let_def split: prod.split sum.split option.split) (metis snd_conv)+
  have "P (snd (parse_with_claims p un ve (keycloak_keyfunc (realm_key_for ev url)) now s jwks))" for p un ve url now s
    using keyfunc [of url] assms(2)
    by (auto simp: parse_with_claims_def Let_def split: prod.split sum.split option.split) (metis snd_conv)+
  then show ?thesis using assms
    by (auto simp: parse_keycloak_auth_def parse_keycloak_jwt_def Let_def split: prod.split sum.split) (metis snd_conv)+
qed

lemma authenticates:
  assumes "en_jwks env = ev" and "P jwks"
  shows "P (snd (authenticate lib gw env app auth jwks))" and "P (snd (legacy_parse lib gw env app auth jwks))"
  using parse_auth [OF assms, of lib gw _ auth] assms(2)
  by (auto simp: authenticate_def legacy_parse_def split: prod.split sum.split option.split) (metis snd_conv)+


text \<open>The credential is the one stage of an engine that looks keys up.\<close>

lemma through_policy:
  assumes "en_jwks env = ev" and "P (x_jwks x)"
  shows "P (x_jwks (serve_policy lib gw env app requested x))"
proof -
  have cred: "case policy_credential lib gw env target y of Inl z \<Rightarrow> P (x_jwks z) | Inr (z, claims) \<Rightarrow> P (x_jwks z)"
    if "x_jwks y = x_jwks x" for target y
    using authenticates(1) [OF assms, of lib gw target "get_header y (cfg_jwt_header_key (gw_config gw))"] assms(2) that
    by (auto simp: policy_credential_def jwks_frames split: prod.split sum.split)
  show ?thesis
  proof (cases "policy_target gw env app requested x")
    case (Inl y)
    with assms(2) policy_target_jwks(1) [OF Inl] show ?thesis by (simp add: serve_policy_def)
  next
    case (Inr r)
    then obtain y target where t: "policy_target gw env app requested x = Inr (y, target)" by (cases r) auto
    with cred [OF policy_target_jwks(2) [OF t], of target] policy_target_jwks(2) [OF t] assms(2) show ?thesis
      by (auto simp: serve_policy_def t Let_def jwks_frames policy_admit_jwks policy_permission_jwks
          dest: policy_endpoint_jwks split: sum.splits option.splits prod.splits)
  qed
qed

lemma through_legacy:
  assumes "en_jwks env = ev" and "P (x_jwks x)"
  shows "P (x_jwks (serve_legacy lib gw env app x))"
proof -
  have "case legacy_credential lib gw env ep app x of Inl z \<Rightarrow> P (x_jwks z) | Inr (z, claims) \<Rightarrow> P (x_jwks z)" for ep
    using authenticates(2) [OF assms, of lib gw app "get_header x (cfg_jwt_header_key (gw_config gw))"] assms(2)
    by (auto simp: legacy_credential_def jwks_frames split: prod.split sum.split option.split)
  then show ?thesis using assms(2)
    by (auto simp: serve_legacy_def legacy_admit_jwks legacy_permission_jwks split: sum.splits option.splits prod.splits)
      (force split: sum.splits prod.splits)+
qed

lemma through_introspection:
  assumes "en_jwks env = ev" and "P (x_jwks x)"
  shows "P (x_jwks (serve_iam_me lib gw env app x))"
  using authenticates(1) [OF assms, of lib gw app "get_header x (cfg_jwt_header_key (gw_config gw))"] assms(2)
  by (auto simp: serve_iam_me_def jwks_frames Let_def split: prod.split sum.split option.split)

lemma through_serve_http:
  assumes "en_jwks env = ev" and "P (x_jwks x)"
  shows "P (x_jwks (serve_http lib gw env x))"
proof -
  have c: "case serve_cors gw (ensure_request_id env x) of Inl y \<Rightarrow> x_jwks y = x_jwks x | Inr y \<Rightarrow> x_jwks y = x_jwks x"
    by (auto simp: serve_cors_def preflight_def Let_def jwks_frames)
  have r: "case resolve_app lib gw env y of Inl z \<Rightarrow> x_jwks z = x_jwks y | Inr (z, app) \<Rightarrow> x_jwks z = x_jwks y" for y
    by (auto simp: resolve_app_def Let_def split: option.split)
  have d: "P (x_jwks (dispatch lib gw env app requested y))" if "x_jwks y = x_jwks x" for app requested y
    using that assms through_policy [OF assms(1), of y lib gw app requested]
      through_legacy [OF assms(1), of y lib gw app] through_introspection [OF assms(1), of y lib gw app]
    by (simp add: dispatch_def)
  show ?thesis
  proof (cases "serve_cors gw (ensure_request_id env x)")
    case (Inl y)
    with c assms(2) show ?thesis by (simp add: serve_http_def)
  next
    case (Inr y)
    with c have y: "x_jwks (strip_trust_headers gw y) = x_jwks x" by (simp add: jwks_frames)
    with r [of "strip_trust_headers gw y"] assms(2) d show ?thesis
      by (auto simp: serve_http_def Inr Let_def split: sum.splits)
  qed
qed

end

section \<open>The invariant\<close>

lemma published_lookups: "ev \<in> answers \<Longrightarrow> jwks_invariant ev (keys_published answers)"
  by unfold_locales (rule keys_published_lookup)

interpretation published: jwks_invariant ev "keys_published (insert ev answers)" for ev answers
  by (rule published_lookups) simp

lemma keys_published_wired:
  assumes "keys_published answers jwks" and "range (ne_jwks ne) \<subseteq> answers"
    and "wire_realms ne cooldown realms jwks = (m, jwks1)"
  shows "keys_published answers jwks1"
  using assms(3)
proof (induction realms arbitrary: m jwks1 rule: rev_induct)
  case Nil
  with assms(1) show ?case by (simp add: wire_realms_def)
next
  case (snoc e realms)
  obtain m0 jwks0 where w: "wire_realms ne cooldown realms jwks = (m0, jwks0)" by fastforce
  obtain app r where e: "e = (app, r)" by (cases e)
  from w snoc.prems have "jwks1 = get_shared_jwks_cache (kr_jwks_url r) cooldown (ne_jwks ne (kr_jwks_url r)) jwks0"
    by (simp add: wire_realms_def e)
  with keys_published_shared [OF snoc.IH [OF w]] assms(2) show ?case by blast
qed

lemma keys_published_built:
  assumes k: "keys_published answers (sh_jwks sh)" and n: "new_gateway uni rx parse_url ne cfg sh = (res, sh1)"
    and ne: "range (ne_jwks ne) \<subseteq> answers"
  shows "keys_published answers (sh_jwks sh1)"
proof -
  have "new_gateway uni rx parse_url ne (Some (case cfg of None \<Rightarrow> create_config | Some c \<Rightarrow> c)) sh = (res, sh1)"
    using n by (simp add: new_gateway_def split: option.split)
  note cases = new_gateway_cases [OF this]
  have answered: "ne_jwks ne url \<in> answers" for url using ne by blast
  show ?thesis using cases
  proof (elim disjE exE conjE)
    fix realms m jwks cooldown gw limiter plans
    assume "wire_realms ne cooldown realms (sh_jwks sh) = (m, jwks)"
    note w = keys_published_wired [OF k ne this]
    assume "case operator_of (case cfg of None \<Rightarrow> create_config | Some c \<Rightarrow> c) of
              None \<Rightarrow> sh_jwks sh1 = jwks
            | Some rlm \<Rightarrow> rlm_issuer rlm \<noteq> [] \<and> rlm_jwks_url rlm \<noteq> [] \<and>
                sh_jwks sh1 = get_shared_jwks_cache (rlm_jwks_url rlm) cooldown (ne_jwks ne (rlm_jwks_url rlm)) jwks"
    then show ?thesis using w keys_published_shared [OF w answered]
      by (cases "operator_of (case cfg of None \<Rightarrow> create_config | Some c \<Rightarrow> c)") simp_all
  qed (use k keys_published_wired [OF k ne] in auto)
qed

text \<open>Whatever the history, a cached key was published by the URL it is cached under.\<close>

lemma process_keys_published: "process lib answers jwks \<Longrightarrow> keys_published answers jwks"
proof (induction rule: process.induct)
  case boot
  show ?case by (simp add: keys_published_def)
next
  case (built answers sh uni rx parse_url ne cfg res sh1)
  have "keys_published (answers \<union> range (ne_jwks ne)) (sh_jwks sh)" by (rule keys_published_mono [OF built.IH]) simp
  then show ?case by (rule keys_published_built [OF _ built.hyps(2)]) simp
next
  case (polled answers jwks url jc ev)
  then have k: "keys_published (insert ev answers) jwks" by (auto intro: keys_published_mono)
  show ?case
    using keys_published_cached [OF k polled.hyps(2)] by (intro keys_published_refresh [OF k]) auto
next
  case (served answers jwks env gw req plans limiter)
  then have "keys_published (insert (en_jwks env) answers) jwks" by (auto intro: keys_published_mono)
  then show ?case by (intro published.through_serve_http) (simp_all add: arrives_def)
qed

section \<open>Identities\<close>

text \<open>
  A caller traced to a publication: the bearer token verifies under a sound RSA key that the JWKS URL of a
  configured realm has published for the \<^verbatim>\<open>kid\<close> of its header, and its claims say who the caller is.
\<close>

definition traced_caller ::
  "('ev, 's, 'e) libs \<Rightarrow> gateway \<Rightarrow> 'ev env \<Rightarrow> jwks_event set \<Rightarrow> string \<Rightarrow> token_claims \<Rightarrow> bool" where
  "traced_caller lib gw env answers auth tc \<longleftrightarrow>
     (\<exists>rlm m. (rlm \<in> ran (gw_realms gw) \<or> gw_operator gw = Some rlm) \<and>
        vouched (lib_unmarshal lib) (lib_verify lib)
          (\<lambda>kid key. published_by answers (rlm_jwks_url rlm) kid key \<and> sound_key key)
          (gw_leeway gw) (en_jwt_now env) auth m \<and>
        claims_of_token (rlm_issuer rlm) (cfg_keycloak_user_id_claim (gw_config gw))
          (cfg_keycloak_admin_roles (gw_config gw)) m = Inr tc)"

lemma realm_trusted_published:
  assumes "keys_published answers jwks" and "realm_trusted url jwks ev kid key" and "ev \<in> answers"
  shows "published_by answers url kid key \<and> sound_key key"
proof -
  obtain jc where jc: "jwks url = Some jc" and "jwks_trusted jc ev kid key"
    using assms(2) by (auto simp: realm_trusted_def split: option.splits)
  with keys_published_cached [OF assms(1) jc] assms(3) have "published_by answers url kid key"
    by (auto simp: jwks_trusted_def published_by_def)
  then show ?thesis using published_by_sound by blast
qed

lemma vouched_traced:
  assumes "keys_published answers jwks" and "vouched_caller lib gw env jwks auth tc" and "en_jwks env \<in> answers"
  shows "traced_caller lib gw env answers auth tc"
proof -
  obtain rlm m where rlm: "rlm \<in> ran (gw_realms gw) \<or> gw_operator gw = Some rlm"
    and v: "vouched (lib_unmarshal lib) (lib_verify lib) (realm_trusted (rlm_jwks_url rlm) jwks (en_jwks env))
          (gw_leeway gw) (en_jwt_now env) auth m"
    and c: "claims_of_token (rlm_issuer rlm) (cfg_keycloak_user_id_claim (gw_config gw))
          (cfg_keycloak_admin_roles (gw_config gw)) m = Inr tc"
    using assms(2) unfolding vouched_caller_def by blast
  from v have "vouched (lib_unmarshal lib) (lib_verify lib)
      (\<lambda>kid key. published_by answers (rlm_jwks_url rlm) kid key \<and> sound_key key) (gw_leeway gw) (en_jwt_now env) auth m"
    by (rule vouched_mono) (rule realm_trusted_published [OF assms(1) _ assms(3)])
  with rlm c show ?thesis unfolding traced_caller_def by blast
qed

text \<open>
  C2: an identity on a forwarded request can be traced to a publication.  Whatever has happened in the process
  before (instances built, key sets polled, requests served, on caches shared by all), the gateway-owned
  headers of a forwarded request are absent or those of a caller whose token verifies under an RSA key of at
  least 1024 bits that the JWKS URL of a realm configured for the instance has itself published.
\<close>

theorem identity_traced_to_publication:
  assumes "process lib answers jwks" and "headers_distinct (gw_config gw)"
    and "x_forwarded (serve_http lib gw env (arrives req jwks plans limiter))"
  shows "anonymous_request (gw_config gw) (x_req (serve_http lib gw env (arrives req jwks plans limiter))) \<or>
    (\<exists>tc. traced_caller lib gw env (insert (en_jwks env) answers)
         (get_req_header req (cfg_jwt_header_key (gw_config gw))) tc \<and>
       stamped_request gw env plans tc (x_req (serve_http lib gw env (arrives req jwks plans limiter))))"
proof -
  have "keys_published (insert (en_jwks env) answers) jwks"
    by (rule keys_published_mono [OF process_keys_published [OF assms(1)]]) blast
  then show ?thesis
    using forwarded_provenance [OF assms(2,3)] vouched_traced [of "insert (en_jwks env) answers" jwks lib gw env] by blast
qed

text \<open>A process that builds an instance, polls a key of 1024 bits and serves the sample request.\<close>

lemma bytes_val_lower: "a * 256 ^ length bs \<le> foldl (\<lambda>v b. v * 256 + of_char b) (a :: nat) bs"
proof (induction bs arbitrary: a)
  case (Cons b bs)
  have "a * 256 ^ length (b # bs) \<le> (a * 256 + of_char b) * 256 ^ length bs" by (simp add: algebra_simps)
  also have "\<dots> \<le> foldl (\<lambda>v b. v * 256 + of_char b) (a * 256 + of_char b) bs" by (rule Cons.IH)
  finally show ?case by simp
qed simp

definition trace_modulus :: string where
  "trace_modulus = CHR 0x80 # replicate 127 CHR 0x00"

definition trace_key :: rsa_key where
  "trace_key = \<lparr>rsa_n = bytes_val trace_modulus, rsa_e = 3\<rparr>"

definition trace_jwk :: jwks_key_json where
  "trace_jwk = \<lparr>k_kid = ''k'', k_kty = ''RSA'', k_alg = [], k_use = [], k_n = b64_encode trace_modulus, k_e = b64_encode [CHR 0x03]\<rparr>"

definition trace_answer :: jwks_event where
  "trace_answer = \<lparr>je_now = 0, je_refresh_now = 0,
     je_fetch = \<lambda>_. Response 200 (Some \<lparr>doc_keys = [trace_jwk], doc_jwks_uri = []\<rparr>)\<rparr>"

lemma b64_encode_nonempty: "bs \<noteq> [] \<Longrightarrow> b64_encode bs \<noteq> []"
proof
  assume "bs \<noteq> []" and "b64_encode bs = []"
  moreover have "b64_decode [] = Some []" by code_simp
  ultimately show False using b64_decode_encode [of bs] by simp
qed

lemma trace_published: "published_keys url trace_answer = Some [''k'' \<mapsto> trace_key]"
proof -
  have "2 ^ 1023 \<le> (128 :: nat) * 256 ^ 127" by simp
  also have "\<dots> \<le> bytes_val trace_modulus"
    using bytes_val_lower [of 128 "replicate 127 CHR 0x00"] by (simp add: bytes_val_def trace_modulus_def)
  finally have big: "2 ^ 1023 \<le> bytes_val trace_modulus" .
  then have "\<not> bytes_val trace_modulus < 2 ^ 1023" by linarith
  then have "\<not> bit_len (bytes_val trace_modulus) < 1024"
    using bit_len_le [of "bytes_val trace_modulus" 1023] by linarith
  moreover have "bytes_val trace_modulus \<noteq> 0" using big by (metis le_zero_eq power_not_zero zero_neq_numeral)
  moreover have "b64_encode trace_modulus \<noteq> []" "b64_encode [CHR 0x03] \<noteq> []"
    using b64_encode_nonempty by (simp_all add: trace_modulus_def)
  ultimately have "parse_rsa_jwk trace_jwk = Inr trace_key"
    by (simp add: parse_rsa_jwk_def trace_jwk_def trace_key_def b64_decode_encode Let_def) (simp add: bytes_val_def)
  then show ?thesis
    by (simp add: published_keys_def key_document_def fetch_document_def trace_answer_def parse_keys_def add_key_def
        usable_key_def trace_jwk_def fun_upd_def fun_eq_iff)
qed

lemma trace_forwarded:
  "x_forwarded (serve_http demo_libs (demo_gateway True) demo_env (arrives demo_request
     (jwks(''u'' \<mapsto> \<lparr>jc_url = url, jc_refetch_cooldown = c, jc_keys = [''k'' \<mapsto> key], jc_last_attempt = t\<rparr>)) (new_plan_resolver []) ()))"
  "get_header (serve_http demo_libs (demo_gateway True) demo_env (arrives demo_request
     (jwks(''u'' \<mapsto> \<lparr>jc_url = url, jc_refetch_cooldown = c, jc_keys = [''k'' \<mapsto> key], jc_last_attempt = t\<rparr>)) (new_plan_resolver []) ()))
     (cfg_user_id_header (gw_config (demo_gateway True))) = ''42''"
  by code_simp+

text \<open>The instance of the sample realm, on empty caches; its first fetch fails.\<close>

definition trace_config :: config where
  "trace_config = create_config\<lparr>cfg_disable_rate_limit := True, cfg_jwks_refetch_cooldown := [],
     cfg_keycloak_realms := [\<lparr>kr_app_id = ''a'', kr_issuer = ''i'', kr_jwks_url = ''u''\<rparr>]\<rparr>"

abbreviation trace_new :: "(new_error + gateway \<times> rate_limiter option \<times> plan_resolver) \<times> shared_caches" where
  "trace_new \<equiv> new_gateway (\<lambda>s. s) (\<lambda>_. None) (\<lambda>_. None) wiring_env (Some trace_config) no_caches"

lemma trace_built: "\<exists>jc. sh_jwks (snd trace_new) ''u'' = Some jc \<and> jc_url jc = ''u''"
proof -
  have "case sh_jwks (snd trace_new) ''u'' of None \<Rightarrow> False | Some jc \<Rightarrow> jc_url jc = ''u''" by code_simp
  then show ?thesis by (auto split: option.splits)
qed

theorem identity_traced_to_publication_witness:
  "\<exists>answers jwks tc. process demo_libs answers jwks \<and>
     traced_caller demo_libs (demo_gateway True) demo_env (insert (en_jwks demo_env) answers) ''Bearer aA.Yw.cw'' tc \<and>
     stamped_request (demo_gateway True) demo_env (new_plan_resolver []) tc
       (x_req (serve_http demo_libs (demo_gateway True) demo_env (arrives demo_request jwks (new_plan_resolver []) ())))"
proof -
  let ?gw = "demo_gateway True" and ?answers = "insert trace_answer (range (ne_jwks wiring_env))"
  obtain jc where jc: "sh_jwks (snd trace_new) ''u'' = Some jc" "jc_url jc = ''u''" using trace_built by blast
  let ?jwks = "(sh_jwks (snd trace_new))(''u'' \<mapsto> snd (jwks_refresh trace_answer jc))"
  have "process demo_libs {} (sh_jwks no_caches)" by (simp add: no_caches_def process.boot)
  then have "process demo_libs ({} \<union> range (ne_jwks wiring_env)) (sh_jwks (snd trace_new))"
    by (rule process.built [OF _ prod.collapse [symmetric]])
  then have p: "process demo_libs ?answers ?jwks"
    using process.polled [of demo_libs "range (ne_jwks wiring_env)" "sh_jwks (snd trace_new)" "''u''" jc trace_answer] jc(1) by simp
  have "snd (jwks_refresh trace_answer jc) =
      \<lparr>jc_url = ''u'', jc_refetch_cooldown = jc_refetch_cooldown jc, jc_keys = [''k'' \<mapsto> trace_key], jc_last_attempt = 0\<rparr>"
    by (rule jwks_cache.equality) (simp_all add: jc(2) jwks_refresh_keys trace_published, simp add: trace_answer_def)
  note run = trace_forwarded [of "sh_jwks (snd trace_new)" "''u''" "jc_refetch_cooldown jc" trace_key 0, folded this]
  have key: "get_req_header demo_request (cfg_jwt_header_key (gw_config ?gw)) = ''Bearer aA.Yw.cw''" by code_simp
  have "\<not> anonymous_request (gw_config ?gw)
      (x_req (serve_http demo_libs ?gw demo_env (arrives demo_request ?jwks (new_plan_resolver []) ())))"
  proof
    assume "anonymous_request (gw_config ?gw)
        (x_req (serve_http demo_libs ?gw demo_env (arrives demo_request ?jwks (new_plan_resolver []) ())))"
    then show False using run(2) by (simp add: anonymous_request_def)
  qed
  moreover have "headers_distinct (gw_config ?gw)"
    by (rule demo_headers_distinct)
  ultimately obtain tc where "traced_caller demo_libs ?gw demo_env (insert (en_jwks demo_env) ?answers) ''Bearer aA.Yw.cw'' tc"
    "stamped_request ?gw demo_env (new_plan_resolver []) tc
       (x_req (serve_http demo_libs ?gw demo_env (arrives demo_request ?jwks (new_plan_resolver []) ())))"
    using identity_traced_to_publication [OF p _ run(1), unfolded key] by blast
  with p show ?thesis by blast
qed

end
