(* ===== verification/Decision.thy ===== *)
theory Decision
  imports Gate
begin

text \<open>
  The decision of each engine, both ways: a request that reaches the engine, has an endpoint and carries an
  acceptable credential is let on exactly when it is authorized; otherwise it is answered with 401 (nobody is
  known) or 403.
\<close>

section \<open>Stages\<close>

text \<open>An instance that limits rates, and the answer of the limit.\<close>

definition rate_limited :: "gateway \<Rightarrow> bool" where
  "rate_limited gw \<longleftrightarrow> \<not> cfg_disable_rate_limit (gw_config gw) \<and> gw_has_limiter gw"

definition over_limit :: "'s exchange \<Rightarrow> bool" where
  "over_limit y \<longleftrightarrow> rsp_status (x_rw y) = Some 429 \<or> x_panicked y"

definition denied :: "'c option \<Rightarrow> 's exchange \<Rightarrow> bool" where
  "denied claims y \<longleftrightarrow> \<not> x_forwarded y \<and> rsp_status (x_rw y) = Some (if claims = None then 401 else 403)"

lemma apply_rate_limit_verdict:
  assumes "pending x" and "apply_rate_limit lib gw env ep key plan x = (y, ok)"
  shows "ok \<or> rate_limited gw \<and> over_limit y"
proof -
  have "rsp_status (x_rw x) = None" using assms(1) by (simp add: pending_def answered_def)
  with assms(2) show ?thesis
    by (auto simp: apply_rate_limit_def too_many_requests_def rate_limit_headers_def Let_def rate_limited_def over_limit_def
        split: if_splits prod.splits check_result.splits)
qed

lemma pending_unanswered: "pending x \<Longrightarrow> rsp_status (x_rw x) = None \<and> \<not> x_forwarded x"
  by (simp add: pending_def answered_def)

section \<open>The policy engine\<close>

lemma policy_permission_denies:
  "policy_permission gw ep target (principal_for sc claims) x = Some y \<Longrightarrow> pending x \<Longrightarrow> denied claims y"
  using principal_for_None [of sc claims] pending_unanswered [of x]
  by (auto simp: policy_permission_def deny_def denied_def Let_def split: if_splits)

lemma policy_owner_denies:
  "policy_owner gw ep claims w x = Some y \<Longrightarrow> pending x \<Longrightarrow> denied claims y"
  using pending_unanswered [of x]
  by (auto simp: policy_owner_def deny_def denied_def split: if_splits option.splits)

lemma policy_admit_decides:
  assumes "pending x"
    and y_def: "y = policy_admit lib gw env target ep caller x"
  shows "if ep_owner_param ep = [] \<or>
       (\<exists>tc pr. caller = Some (tc, pr) \<and>
          (is_wildcard (Some pr) target \<or> owner_matches (extract_owner ep (x_req x)) (tc_user_id tc) (tc_subject tc)))
    then x_forwarded y \<or> rate_limited gw \<and> \<not> is_wildcard (map_option snd caller) target \<and> over_limit y
    else denied caller y"
proof -
  obtain x1 key plan w where id: "policy_identity gw env target caller x = (x1, key, plan, w)"
    by (cases "policy_identity gw env target caller x") auto
  then have x1: "pending x1" using assms(1) by (rule policy_identity_pending)
  note frame = policy_identity_frame [OF id]
  obtain z ok where rl: "apply_rate_limit lib gw env ep key plan x1 = (z, ok)"
    by (cases "apply_rate_limit lib gw env ep key plan x1")
  have own: "extract_owner ep (x_req x1) = extract_owner ep (x_req x)"
    using frame(1) by (intro extract_owner_cong) simp_all
  have w: "w = is_wildcard (map_option snd caller) target"
    using frame(2) by (cases caller) (auto simp: is_wildcard_def)
  have owner: "policy_owner gw ep (map_option fst caller) w x1 = None \<longleftrightarrow>
      ep_owner_param ep = [] \<or>
      (\<exists>tc pr. caller = Some (tc, pr) \<and>
          (is_wildcard (Some pr) target \<or> owner_matches (extract_owner ep (x_req x)) (tc_user_id tc) (tc_subject tc)))"
    unfolding policy_owner_None own using frame(2) by (cases caller) auto
  show ?thesis
  proof (cases "policy_owner gw ep (map_option fst caller) w x1")
    case None
    then have "y = (if w then forward x1 else if ok then forward z else z)"
      by (simp add: y_def policy_admit_def id rl)
    then have "x_forwarded y \<or> rate_limited gw \<and> \<not> w \<and> over_limit y"
      using apply_rate_limit_verdict [OF x1 rl] by auto
    with None show ?thesis unfolding owner [symmetric] w by simp
  next
    case (Some d)
    then have "y = d" by (simp add: y_def policy_admit_def id)
    with Some policy_owner_denies [OF Some x1] show ?thesis
      unfolding owner [symmetric] by (simp add: denied_def)
  qed
qed

lemma serve_policy_decides:
  assumes x: "pending x" and t: "policy_target gw env app requested x = Inr (x1, target)"
    and ep: "match_endpoint (en_match_snapshot env) target (req_method (x_req x)) (req_path (x_req x)) = Some ep"
    and key: "cfg_disable_auth (gw_config gw) \<or> \<not> has_legacy_api_key (x_req x1) (cfg_jwt_header_key (gw_config gw))"
    and a: "authenticate lib gw env target (get_header x1 (cfg_jwt_header_key (gw_config gw))) (x_jwks x1) = (Inr claims, j)"
    and y_def: "y = serve_policy lib gw env app requested x"
  shows "if policy_authorizes (en_policy_snapshot env) ep target (x_req x) claims
    then x_forwarded y \<or>
      rate_limited gw \<and> \<not> is_wildcard (principal_for (en_policy_snapshot env) claims) target \<and> over_limit y
    else denied claims y"
proof -
  note tgt = policy_target_cases(2) [OF t]
  then have x1: "pending x1" and same: "same_target (x_req x1) (x_req x)"
    using x by (auto intro: pending_intros)
  have e: "policy_endpoint gw env app target x1 = Inr ep" using ep same by (simp add: policy_endpoint_Inr)
  let ?x2 = "x1\<lparr>x_jwks := j\<rparr>" and ?pr = "principal_for (en_policy_snapshot env) claims"
  let ?caller = "case (claims, ?pr) of (Some tc, Some p) \<Rightarrow> Some (tc, p) | _ \<Rightarrow> None"
  have c: "policy_credential lib gw env target x1 = Inr (?x2, claims)"
    using key a by (auto simp: policy_credential_def)
  have p2: "pending ?x2" using x1 by (intro pending_intros)
  have own: "extract_owner ep (x_req ?x2) = extract_owner ep (x_req x)"
    using same by (intro extract_owner_cong) simp_all
  show ?thesis
  proof (cases "policy_permission gw ep target ?pr ?x2")
    case (Some d)
    then have "y = d" by (simp add: y_def serve_policy_def t e c Let_def)
    moreover have "\<not> policy_authorizes (en_policy_snapshot env) ep target (x_req x) claims"
      using Some policy_permission_None [of gw ep target ?pr ?x2] principal_for_None [of "en_policy_snapshot env" claims]
      by (auto simp: policy_authorizes_def)
    ultimately show ?thesis using policy_permission_denies [OF Some p2] by simp
  next
    case None
    then have y: "y = policy_admit lib gw env target ep ?caller ?x2" by (simp add: y_def serve_policy_def t e c Let_def)
    have auth: "policy_authorizes (en_policy_snapshot env) ep target (x_req x) claims \<longleftrightarrow>
      ep_owner_param ep = [] \<or>
       (\<exists>tc pr. ?caller = Some (tc, pr) \<and>
          (is_wildcard (Some pr) target \<or> owner_matches (extract_owner ep (x_req ?x2)) (tc_user_id tc) (tc_subject tc)))"
      using None principal_for_None [of "en_policy_snapshot env" claims] unfolding own policy_permission_None
      by (cases claims; cases ?pr) (auto simp: policy_authorizes_def)
    have "map_option snd ?caller = ?pr" and "?caller = None \<longleftrightarrow> claims = None"
      using principal_for_None [of "en_policy_snapshot env" claims] by (cases claims; cases ?pr; simp)+
    then show ?thesis
      using policy_admit_decides [OF p2 y] unfolding auth
      by (auto simp: denied_def split: if_splits)
  qed
qed

section \<open>The legacy engine\<close>

lemma legacy_permission_denies:
  "legacy_permission gw ep claims x = Some y \<Longrightarrow> pending x \<Longrightarrow> denied claims y"
  using pending_unanswered [of x]
  by (auto simp: legacy_permission_def denied_def Let_def split: if_splits option.splits)

lemma legacy_owner_denies:
  "legacy_owner gw ep claims x = Some y \<Longrightarrow> pending x \<Longrightarrow> denied claims y"
  using pending_unanswered [of x]
  by (auto simp: legacy_owner_def denied_def split: if_splits option.splits)

text \<open>The credential of a request to the legacy engine, accepted for the application.\<close>

definition legacy_caller ::
  "('ev, 's, 'e) libs \<Rightarrow> gateway \<Rightarrow> 'ev env \<Rightarrow> string \<Rightarrow> request \<Rightarrow> (string \<rightharpoonup> jwks_cache) \<Rightarrow> token_claims option \<Rightarrow> bool" where
  "legacy_caller lib gw env app req jwks claims \<longleftrightarrow>
     (if cfg_disable_auth (gw_config gw) then claims = None
      else \<not> has_legacy_api_key req (cfg_jwt_header_key (gw_config gw)) \<and>
        fst (legacy_parse lib gw env app (get_req_header req (cfg_jwt_header_key (gw_config gw))) jwks) = Inr claims \<and>
        (\<forall>tc. claims = Some tc \<longrightarrow> \<not> app_mismatch tc app))"

lemma legacy_caller_credential:
  assumes "legacy_caller lib gw env app (x_req x) (x_jwks x) claims"
  shows "\<exists>x1. legacy_credential lib gw env ep app x = Inr (x1, claims)"
  using assms
  by (cases claims)
    (auto simp: legacy_caller_def legacy_credential_def split: if_splits prod.splits sum.splits option.splits)

lemma serve_legacy_decides:
  assumes d: "headers_distinct (gw_config gw)" and x: "pending x" and cl: "clean (gw_config gw) app (x_req x)"
    and ep: "match_endpoint (en_match_snapshot env) app (req_method (x_req x)) (req_path (x_req x)) = Some ep"
    and a: "legacy_caller lib gw env app (x_req x) (x_jwks x) claims"
    and y_def: "y = serve_legacy lib gw env app x"
  shows "if legacy_authorizes gw ep app (x_req x) claims then x_forwarded y \<or> rate_limited gw \<and> over_limit y
    else denied claims y"
proof -
  obtain x1 where c: "legacy_credential lib gw env ep app x = Inr (x1, claims)"
    using legacy_caller_credential [OF a] by blast
  note cr = legacy_credential_Inr [OF c]
  then have x1: "pending x1" and r1: "x_req x1 = x_req x" using x by blast+
  then have c1: "clean (gw_config gw) app (x_req x1)" using cl by simp
  have issued: "\<forall>tc. claims = Some tc \<longrightarrow> \<not> app_mismatch tc app" using cr by blast
  show ?thesis
  proof (cases "legacy_permission gw ep claims x1")
    case (Some d)
    then have "y = d" by (simp add: y_def serve_legacy_def ep c)
    moreover have "\<not> legacy_authorizes gw ep app (x_req x) claims"
      using Some legacy_permission_None [of gw ep claims x1] by (auto simp: legacy_authorizes_def)
    ultimately show ?thesis using legacy_permission_denies [OF Some x1] by simp
  next
    case None
    then have y: "y = legacy_admit lib gw env app ep claims x1" by (simp add: y_def serve_legacy_def ep c)
    obtain x2 key plan where id: "legacy_identity gw env app claims x1 = (x2, key, plan)"
      by (cases "legacy_identity gw env app claims x1") auto
    then have x2: "pending x2" using x1 by (rule legacy_identity_pending)
    obtain z ok where rl: "apply_rate_limit lib gw env ep key plan x2 = (z, ok)"
      by (cases "apply_rate_limit lib gw env ep key plan x2")
    have "same_target (x_req x2) (x_req x)"
      using legacy_identity_target [of gw env app claims x1] r1 by (simp add: id)
    then have own: "extract_owner ep (x_req x2) = extract_owner ep (x_req x)"
      by (intro extract_owner_cong) simp_all
    have adm: "get_header x2 (cfg_is_admin_header (gw_config gw)) = ''true'' \<longleftrightarrow> tc_is_admin tc" if "claims = Some tc" for tc
      using that id clean_absent(3) [OF c1 d]
      by (auto simp: legacy_identity_def legacy_stamp_headers [OF d] split: prod.splits if_splits)
    have auth: "legacy_authorizes gw ep app (x_req x) claims \<longleftrightarrow> legacy_owner gw ep claims x2 = None"
      using None issued adm unfolding legacy_authorizes_def legacy_owner_None legacy_permission_None own by auto
    show ?thesis
      using apply_rate_limit_verdict [OF x2 rl] legacy_owner_denies [OF _ x2, of gw ep claims]
      unfolding auth y by (auto simp: legacy_admit_def id legacy_rate_limit_eq rl split: option.splits)
  qed
qed

section \<open>From arrival\<close>

text \<open>
  The application the prelude hands to an engine (\<open>None\<close> when it answers the request instead), and the one
  policy mode decides for.
\<close>

definition host_application :: "('ev, 's, 'e) libs \<Rightarrow> gateway \<Rightarrow> 'ev env \<Rightarrow> request \<Rightarrow> string option" where
  "host_application lib gw env req =
     (if cfg_app_resolution_mode (gw_config gw) = ''disabled'' \<or> \<not> gw_has_registry gw then Some []
      else (case resolve_host (lib_uni lib) (en_resolve_registry env) (resolution_host gw req) of
              Some app \<Rightarrow> Some app
            | None \<Rightarrow> if cfg_app_resolution_mode (gw_config gw) = ''enforce'' then None else Some []))"

definition policy_application :: "gateway \<Rightarrow> 'ev env \<Rightarrow> string \<Rightarrow> request \<Rightarrow> string option" where
  "policy_application gw env app req =
     (let requested = trim_space (get_req_header req (cfg_app_id_header (gw_config gw))) in
      if requested = [] \<or> \<not> gw_has_registry gw then Some app
      else if is_active_app (en_active_registry env) requested then Some requested else None)"

text \<open>A request for an engine: no preflight, no introspection, and a snapshot is loaded where one is demanded.\<close>

definition for_engine :: "gateway \<Rightarrow> 'ev env \<Rightarrow> request \<Rightarrow> bool" where
  "for_engine gw env req \<longleftrightarrow>
     \<not> (cfg_cors_allowed_origins (gw_config gw) \<noteq> [] \<and> req_method req = ''OPTIONS'') \<and>
     req_path req \<noteq> iam_me_path \<and> \<not> snapshot_cold gw env"

lemma policy_target_application:
  assumes "policy_application gw env app req = Some target"
    and "requested = trim_space (get_req_header req (cfg_app_id_header (gw_config gw)))"
  shows "\<exists>x1. policy_target gw env app requested x = Inr (x1, target)"
  using assms by (auto simp: policy_application_def policy_target_def Let_def split: if_splits)

lemma same_credential:
  "get_req_header r' ''X-Api-Key'' = get_req_header r ''X-Api-Key'' \<Longrightarrow> get_req_header r' k = get_req_header r k \<Longrightarrow>
   has_legacy_api_key r' k = has_legacy_api_key r k"
  by (simp only: has_legacy_api_key_def)

lemma api_key_header:
  assumes "headers_distinct (gw_config gw)"
  shows "canonical_key ''X-Api-Key'' \<notin> canonical_key ` set (trust_headers (gw_config gw))"
    and "\<not> same_key ''X-Api-Key'' (cfg_app_id_header (gw_config gw))"
    and "\<not> same_key ''X-Api-Key'' request_id_header"
proof -
  have lit: "''X-Api-Key'' \<in> set literal_headers" by (simp add: literal_headers_def)
  then show k: "canonical_key ''X-Api-Key'' \<notin> canonical_key ` set (trust_headers (gw_config gw))"
    using assms by (auto simp: headers_distinct_code list_all_iff)
  show "\<not> same_key ''X-Api-Key'' request_id_header" by (rule not_request_id [OF assms disjI2 [OF lit]])
  have "canonical_key (cfg_app_id_header (gw_config gw)) \<in> canonical_key ` set (trust_headers (gw_config gw))"
    by (rule imageI) simp
  with k show "\<not> same_key ''X-Api-Key'' (cfg_app_id_header (gw_config gw))" by (auto simp: same_key_def)
qed

text \<open>Past the prelude: the exchange handed on, for introspection and for the engines alike.\<close>

lemma prelude_body:
  assumes "serve_cors gw (ensure_request_id env x) = Inr x1" and "resolve_app lib gw env (strip_trust_headers gw x1) = Inr (x2, app)"
  shows "rsp_body (x_rw x2) = rsp_body (x_rw x)"
proof -
  have "rsp_body (x_rw x1) = rsp_body (x_rw x)"
    using assms(1) by (auto simp: serve_cors_def ensure_request_id_def apply_cors_headers_def Let_def split: if_splits)
  then show ?thesis using resolve_app_Inr [OF assms(2)] by (auto simp: strip_trust_headers_eq)
qed

lemma prelude_reached:
  assumes d: "headers_distinct (gw_config gw)"
    and f: "\<not> (cfg_cors_allowed_origins (gw_config gw) \<noteq> [] \<and> req_method req = ''OPTIONS'')" "\<not> snapshot_cold gw env"
    and app: "host_application lib gw env req = Some app"
  shows "\<exists>x2. serve_http lib gw env (arrives req jwks plans limiter) =
      dispatch lib gw env app (trim_space (get_req_header req (cfg_app_id_header (gw_config gw)))) x2 \<and>
    pending x2 \<and> clean (gw_config gw) app (x_req x2) \<and> same_target (x_req x2) req \<and> x_jwks x2 = jwks \<and>
    get_header x2 (cfg_jwt_header_key (gw_config gw)) = get_req_header req (cfg_jwt_header_key (gw_config gw)) \<and>
    get_header x2 ''X-Api-Key'' = get_req_header req ''X-Api-Key'' \<and> rsp_body (x_rw x2) = []"
proof -
  let ?x = "arrives req jwks plans limiter" and ?cfg = "gw_config gw"
  let ?e = "ensure_request_id env ?x"
  have e: "pending ?e" by (rule pending_ensure_request_id [OF pending_arrives])
  have m: "req_method (x_req ?e) = req_method req" by (simp add: ensure_request_id_def arrives_def Let_def)
  obtain x1 where x1: "serve_cors gw ?e = Inr x1"
    using f m by (cases "serve_cors gw ?e") (auto simp: serve_cors_def Let_def split: if_splits)
  note c = serve_cors_Inr [OF x1]
  have s: "pending (strip_trust_headers gw x1)" using c e by (auto intro: pending_intros)
  have host: "resolution_host gw (x_req (strip_trust_headers gw x1)) = resolution_host gw req"
    using prelude_resolution_host [OF d x1] by (simp add: arrives_def)
  obtain x2 where x2: "resolve_app lib gw env (strip_trust_headers gw x1) = Inr (x2, app)"
    using app by (auto simp: resolve_app_def host_application_def host Let_def split: if_splits option.splits)
  note ph = prelude_headers [OF d x1 x2]
  have ax: "x_req ?x = req" "x_jwks ?x = jwks" "rsp_body (x_rw ?x) = []" by (simp_all add: arrives_def fresh_response_def)
  have p2: "pending x2" using resolve_app_Inr [OF x2] s by (auto intro: pending_intros)
  have requested: "get_header x1 (cfg_app_id_header ?cfg) = get_req_header req (cfg_app_id_header ?cfg)"
    using c ax ensure_request_id_frame(1) [OF not_request_id [OF d disjI1], of "cfg_app_id_header ?cfg" env ?x] by simp
  have api: "get_header x2 ''X-Api-Key'' = get_req_header req ''X-Api-Key''"
    using resolve_app_Inr [OF x2] api_key_header [OF d] c ax
      strip_headers(2) [OF api_key_header(1) [OF d], of x1] ensure_request_id_frame(1) [OF api_key_header(3) [OF d], of env ?x]
    by auto
  have "serve_http lib gw env ?x = dispatch lib gw env app (trim_space (get_header x1 (cfg_app_id_header ?cfg))) x2"
    using f by (simp add: serve_http_def x1 x2 Let_def)
  with p2 ph ax requested api prelude_clean [OF d x1 x2] prelude_body [OF x1 x2] show ?thesis
    by (intro exI [of _ x2]) simp
qed

lemma engine_reached:
  assumes d: "headers_distinct (gw_config gw)" and f: "for_engine gw env req"
    and app: "host_application lib gw env req = Some app"
  shows "\<exists>x2. serve_http lib gw env (arrives req jwks plans limiter) =
      (if gw_policy_mode gw
       then serve_policy lib gw env app (trim_space (get_req_header req (cfg_app_id_header (gw_config gw)))) x2
       else serve_legacy lib gw env app x2) \<and>
    pending x2 \<and> clean (gw_config gw) app (x_req x2) \<and> same_target (x_req x2) req \<and> x_jwks x2 = jwks \<and>
    get_header x2 (cfg_jwt_header_key (gw_config gw)) = get_req_header req (cfg_jwt_header_key (gw_config gw)) \<and>
    get_header x2 ''X-Api-Key'' = get_req_header req ''X-Api-Key''"
proof -
  let ?requested = "trim_space (get_req_header req (cfg_app_id_header (gw_config gw)))"
  have "\<not> (cfg_cors_allowed_origins (gw_config gw) \<noteq> [] \<and> req_method req = ''OPTIONS'')" and "\<not> snapshot_cold gw env"
    and path: "req_path req \<noteq> iam_me_path"
    using f by (auto simp: for_engine_def)
  from prelude_reached [OF d this(1,2) app, of jwks plans limiter] obtain x2 where
    "serve_http lib gw env (arrives req jwks plans limiter) = dispatch lib gw env app ?requested x2"
    and "same_target (x_req x2) req" and "pending x2 \<and> clean (gw_config gw) app (x_req x2) \<and> x_jwks x2 = jwks \<and>
      get_header x2 (cfg_jwt_header_key (gw_config gw)) = get_req_header req (cfg_jwt_header_key (gw_config gw)) \<and>
      get_header x2 ''X-Api-Key'' = get_req_header req ''X-Api-Key''"
    by blast
  with path show ?thesis by (intro exI [of _ x2]) (simp add: dispatch_def)
qed

section \<open>The decisions\<close>

text \<open>
  C6: in policy mode the decision on a request is exactly the policies'.  A request for an endpoint of the
  application it is for, whose credential authenticates (or which carries none), is forwarded if the
  policies authorize it, unless a rate limit it is subject to stops it; otherwise it is answered with 401
  when nobody is authenticated and with 403 when somebody is.
\<close>

theorem policy_mode_decides:
  assumes "headers_distinct (gw_config gw)" and "gw_policy_mode gw" and "for_engine gw env req"
    and "host_application lib gw env req = Some app" and "policy_application gw env app req = Some target"
    and "match_endpoint (en_match_snapshot env) target (req_method req) (req_path req) = Some ep"
    and "cfg_disable_auth (gw_config gw) \<or> \<not> has_legacy_api_key req (cfg_jwt_header_key (gw_config gw))"
    and "authenticate lib gw env target (get_req_header req (cfg_jwt_header_key (gw_config gw))) jwks = (Inr claims, j)"
    and "y = serve_http lib gw env (arrives req jwks plans limiter)"
  shows "if policy_authorizes (en_policy_snapshot env) ep target req claims
    then x_forwarded y \<or>
      rate_limited gw \<and> \<not> is_wildcard (principal_for (en_policy_snapshot env) claims) target \<and> over_limit y
    else denied claims y"
proof -
  let ?requested = "trim_space (get_req_header req (cfg_app_id_header (gw_config gw)))"
  obtain x2 where y: "y = serve_policy lib gw env app ?requested x2" and p2: "pending x2"
    and st: "same_target (x_req x2) req" and j: "x_jwks x2 = jwks"
    and jwt: "get_header x2 (cfg_jwt_header_key (gw_config gw)) = get_req_header req (cfg_jwt_header_key (gw_config gw))"
    and api: "get_header x2 ''X-Api-Key'' = get_req_header req ''X-Api-Key''"
    using engine_reached [OF assms(1,3,4), of jwks plans limiter] assms(2,9) by auto
  obtain x1 where t: "policy_target gw env app ?requested x2 = Inr (x1, target)"
    using policy_target_application [OF assms(5) refl] by blast
  note x1 = policy_target_cases(2) [OF t]
  have h: "get_header x1 (cfg_jwt_header_key (gw_config gw)) = get_req_header req (cfg_jwt_header_key (gw_config gw))"
    and a: "get_header x1 ''X-Api-Key'' = get_req_header req ''X-Api-Key''" and "x_jwks x1 = jwks"
    using x1 jwt api j jwt_header_kept(3) [OF assms(1)] api_key_header(2) [OF assms(1)] by auto
  with serve_policy_decides [OF p2 t _ _ _ y, of ep claims j] assms(6-8) st same_credential [OF a h]
  show ?thesis unfolding policy_authorizes_cong [OF st, symmetric] by simp
qed

text \<open>The sample request with its token, and without.\<close>

abbreviation demo_auth :: "(auth_error + token_claims option) \<times> (string \<rightharpoonup> jwks_cache)" where
  "demo_auth \<equiv> authenticate demo_libs (demo_gateway True) demo_env ''a''
     (get_req_header demo_request (cfg_jwt_header_key (gw_config (demo_gateway True)))) demo_jwks"

definition demo_anonymous :: request where
  "demo_anonymous = demo_request\<lparr>req_header := Map.empty\<rparr>"

lemma demo_prelude:
  "for_engine (demo_gateway m) demo_env demo_request" "for_engine (demo_gateway m) demo_env demo_anonymous"
  "host_application demo_libs (demo_gateway m) demo_env demo_request = Some ''a''"
  "host_application demo_libs (demo_gateway m) demo_env demo_anonymous = Some ''a''"
  "policy_application (demo_gateway m) demo_env ''a'' demo_request = Some ''a''"
  "policy_application (demo_gateway m) demo_env ''a'' demo_anonymous = Some ''a''"
  by (cases m; code_simp)+

lemma demo_match:
  "match_endpoint (en_match_snapshot demo_env) ''a'' (req_method demo_request) (req_path demo_request) = Some demo_endpoint"
  "match_endpoint (en_match_snapshot demo_env) ''a'' (req_method demo_anonymous) (req_path demo_anonymous) = Some demo_endpoint"
  by (simp_all add: demo_env_def match_endpoint_def demo_snapshot_def demo_endpoint_def sample_endpoint_def demo_request_def
      demo_anonymous_def rx_matches_def literal_regex_def)

lemma demo_unlimited: "\<not> rate_limited (demo_gateway m)"
  by (simp add: rate_limited_def demo_gateway_def)

theorem policy_mode_decides_witness:
  "x_forwarded (serve_http demo_libs (demo_gateway True) demo_env (arrives demo_request demo_jwks (new_plan_resolver []) ())) \<and>
   denied (None :: token_claims option)
     (serve_http demo_libs (demo_gateway True) demo_env (arrives demo_anonymous demo_jwks (new_plan_resolver []) ()))"
proof
  have m: "gw_policy_mode (demo_gateway True)" by (simp add: demo_gateway_def)
  have no_key: "cfg_disable_auth (gw_config (demo_gateway True)) \<or>
      \<not> has_legacy_api_key demo_request (cfg_jwt_header_key (gw_config (demo_gateway True)))"
    "cfg_disable_auth (gw_config (demo_gateway True)) \<or>
      \<not> has_legacy_api_key demo_anonymous (cfg_jwt_header_key (gw_config (demo_gateway True)))"
    by code_simp+
  have "\<not> isl (fst demo_auth)" and g: "granted (principal_for demo_snapshot (projr (fst demo_auth))) ''doc.read'' ''a''"
    and "projr (fst demo_auth) \<noteq> None"
    by code_simp+
  then have a: "demo_auth = (Inr (projr (fst demo_auth)), snd demo_auth)"
    and ok: "policy_authorizes (en_policy_snapshot demo_env) demo_endpoint ''a'' demo_request (projr (fst demo_auth))"
    by (auto simp: prod_eq_iff policy_authorizes_def demo_endpoint_def sample_endpoint_def demo_env_def)
  from policy_mode_decides [OF demo_headers_distinct m demo_prelude(1,3,5) demo_match(1) no_key(1) a refl, of "new_plan_resolver []" "()"] ok
  show "x_forwarded (serve_http demo_libs (demo_gateway True) demo_env (arrives demo_request demo_jwks (new_plan_resolver []) ()))"
    by (simp add: demo_unlimited)
  have a: "authenticate demo_libs (demo_gateway True) demo_env ''a''
      (get_req_header demo_anonymous (cfg_jwt_header_key (gw_config (demo_gateway True)))) demo_jwks = (Inr None, demo_jwks)"
    by (simp add: authenticate_def demo_anonymous_def h_get_def)
  have "\<not> policy_authorizes (en_policy_snapshot demo_env) demo_endpoint ''a'' demo_anonymous None"
    by (simp add: policy_authorizes_def demo_endpoint_def)
  with policy_mode_decides [OF demo_headers_distinct m demo_prelude(2,4,6) demo_match(2) no_key(2) a refl, of "new_plan_resolver []" "()"]
  show "denied (None :: token_claims option)
     (serve_http demo_libs (demo_gateway True) demo_env (arrives demo_anonymous demo_jwks (new_plan_resolver []) ()))"
    by simp
qed

text \<open>
  C7: in legacy mode the decision is exactly the realm's: a request for an endpoint of its host's
  application, from a caller with a token for that application or from nobody, is forwarded if the caller's
  token roles authorize it, unless a rate limit stops it; otherwise it is answered with 401 or 403.
\<close>

theorem legacy_mode_decides:
  assumes "headers_distinct (gw_config gw)" and "\<not> gw_policy_mode gw" and "for_engine gw env req"
    and "host_application lib gw env req = Some app"
    and "match_endpoint (en_match_snapshot env) app (req_method req) (req_path req) = Some ep"
    and "legacy_caller lib gw env app req jwks claims"
    and "y = serve_http lib gw env (arrives req jwks plans limiter)"
  shows "if legacy_authorizes gw ep app req claims then x_forwarded y \<or> rate_limited gw \<and> over_limit y
    else denied claims y"
proof -
  obtain x2 where y: "y = serve_legacy lib gw env app x2" and x2: "pending x2" "clean (gw_config gw) app (x_req x2)"
    and st: "same_target (x_req x2) req" and j: "x_jwks x2 = jwks"
    and jwt: "get_header x2 (cfg_jwt_header_key (gw_config gw)) = get_req_header req (cfg_jwt_header_key (gw_config gw))"
    and api: "get_header x2 ''X-Api-Key'' = get_req_header req ''X-Api-Key''"
    using engine_reached [OF assms(1,3,4), of jwks plans limiter] assms(2,7) by auto
  have "legacy_caller lib gw env app (x_req x2) (x_jwks x2) claims"
    using assms(6) unfolding legacy_caller_def j jwt same_credential [OF api jwt] .
  from serve_legacy_decides [OF assms(1) x2 _ this y] assms(5) st show ?thesis
    unfolding legacy_authorizes_cong [OF st, symmetric] by simp
qed

theorem legacy_mode_decides_witness:
  "x_forwarded (serve_http demo_libs (demo_gateway False) demo_env (arrives demo_request demo_jwks (new_plan_resolver []) ()))"
proof -
  let ?parse = "legacy_parse demo_libs (demo_gateway False) demo_env ''a''
     (get_req_header demo_request (cfg_jwt_header_key (gw_config (demo_gateway False)))) demo_jwks"
  have m: "\<not> gw_policy_mode (demo_gateway False)" by (simp add: demo_gateway_def)
  have no_key: "\<not> has_legacy_api_key demo_request (cfg_jwt_header_key (gw_config (demo_gateway False)))"
    and parse: "\<not> isl (fst ?parse)" and issued: "case projr (fst ?parse) of None \<Rightarrow> False | Some tc \<Rightarrow> tc_is_admin tc \<and> \<not> app_mismatch tc ''a''"
    by code_simp+
  then have a: "legacy_caller demo_libs (demo_gateway False) demo_env ''a'' demo_request demo_jwks (projr (fst ?parse))"
    by (auto simp: legacy_caller_def demo_gateway_def demo_config_def create_config_def split: option.splits)
  have ok: "legacy_authorizes (demo_gateway False) demo_endpoint ''a'' demo_request (projr (fst ?parse))"
    using issued by (auto simp: legacy_authorizes_def demo_endpoint_def sample_endpoint_def split: option.splits)
  from legacy_mode_decides [OF demo_headers_distinct m demo_prelude(1,3) demo_match(1) a refl, of "new_plan_resolver []" "()"] ok
  show ?thesis by (simp add: demo_unlimited)
qed

end
