(* ===== verification/World.thy ===== *)
theory World
  imports Lifetime Decision
begin

text \<open>
  The life of a whole process: instances are built, the key sets, the snapshots and the registries are polled,
  requests are served, in any order and number, all on the shared caches.  Whatever a request is decided by
  can be traced to documents that the services have published.
\<close>

section \<open>Publications\<close>

text \<open>What has been answered so far: to JWKS fetches, and with status 200 at each snapshot and registry URL.\<close>

record publications =
  pb_keys :: "jwks_event set"
  pb_snapshots :: "(string \<times> snapshot_dto) set"
  pb_registries :: "(string \<times> app_registry_dto) set"

definition nothing_published :: publications where
  "nothing_published = \<lparr>pb_keys = {}, pb_snapshots = {}, pb_registries = {}\<rparr>"

definition publishes :: "string \<Rightarrow> 'd http_outcome \<Rightarrow> (string \<times> 'd) set" where
  "publishes url e = (case good_answer e of None \<Rightarrow> {} | Some d \<Rightarrow> {(url, d)})"

definition earlier :: "publications \<Rightarrow> publications \<Rightarrow> bool" where
  "earlier p p' \<longleftrightarrow> pb_keys p \<subseteq> pb_keys p' \<and> pb_snapshots p \<subseteq> pb_snapshots p' \<and> pb_registries p \<subseteq> pb_registries p'"

section \<open>Histories\<close>

text \<open>
  \<open>snapshot_tick\<close> and \<open>registry_tick\<close> are a round of the poll loop of one cache, a version poll or a refresh.
\<close>

inductive world :: "('ev, 's, 'e) libs \<Rightarrow> (string \<Rightarrow> regex option) \<Rightarrow> publications \<Rightarrow> shared_caches \<Rightarrow> bool"
  for lib :: "('ev, 's, 'e) libs" and rx :: "string \<Rightarrow> regex option" where
  boot: "world lib rx nothing_published no_caches"
| built: "world lib rx p sh \<Longrightarrow> new_gateway (lib_uni lib) rx parse_url ne (Some cfg) sh = (res, sh1) \<Longrightarrow>
   world lib rx
     (p\<lparr>pb_keys := pb_keys p \<union> range (ne_jwks ne),
        pb_snapshots := pb_snapshots p \<union> publishes (cfg_service_service_url cfg) (ne_snapshot ne),
        pb_registries := pb_registries p \<union> publishes (cfg_application_service_url cfg) (ne_registry ne)\<rparr>) sh1"
| key_tick: "world lib rx p sh \<Longrightarrow> sh_jwks sh url = Some jc \<Longrightarrow>
   world lib rx (p\<lparr>pb_keys := insert ev (pb_keys p)\<rparr>)
     (sh\<lparr>sh_jwks := (sh_jwks sh)(url \<mapsto> snd (jwks_refresh ev jc))\<rparr>)"
| snapshot_tick: "world lib rx p sh \<Longrightarrow> sh_snapshots sh url = Some sc \<Longrightarrow>
   world lib rx (p\<lparr>pb_snapshots := pb_snapshots p \<union> publishes url (snd tick)\<rparr>)
     (sh\<lparr>sh_snapshots := (sh_snapshots sh)(url \<mapsto> poll_step (snapshot_refresh rx) (snapshot_check_version rx) tick sc)\<rparr>)"
| registry_tick: "world lib rx p sh \<Longrightarrow> sh_registries sh url = Some rc \<Longrightarrow>
   world lib rx (p\<lparr>pb_registries := pb_registries p \<union> publishes url (snd rtick)\<rparr>)
     (sh\<lparr>sh_registries := (sh_registries sh)(url \<mapsto>
        poll_step (registry_refresh (lib_uni lib)) (registry_check_version (lib_uni lib)) rtick rc)\<rparr>)"
| served: "world lib rx p sh \<Longrightarrow>
   world lib rx (p\<lparr>pb_keys := insert (en_jwks env) (pb_keys p)\<rparr>)
     (sh\<lparr>sh_jwks := x_jwks (serve_http lib gw env (arrives req (sh_jwks sh) plans limiter))\<rparr>)"

section \<open>The invariant\<close>

text \<open>Each snapshot and each registry is cold or compiled from one document published at its own URL.\<close>

definition snapshots_published ::
  "(string \<Rightarrow> regex option) \<Rightarrow> (string \<times> snapshot_dto) set \<Rightarrow> (string \<rightharpoonup> snapshot_cache) \<Rightarrow> bool" where
  "snapshots_published rx docs sh \<longleftrightarrow>
     (\<forall>url sc. sh url = Some sc \<longrightarrow> sc = new_snapshot_cache \<or> (\<exists>d. (url, d) \<in> docs \<and> sc = compile_snapshot rx d))"

definition registries_published ::
  "(string \<Rightarrow> string) \<Rightarrow> (string \<times> app_registry_dto) set \<Rightarrow> (string \<rightharpoonup> app_registry) \<Rightarrow> bool" where
  "registries_published uni docs sh \<longleftrightarrow>
     (\<forall>url rc. sh url = Some rc \<longrightarrow> rc = new_app_registry \<or> (\<exists>d. (url, d) \<in> docs \<and> rc = compile_registry uni d))"

definition documents_published ::
  "('ev, 's, 'e) libs \<Rightarrow> (string \<Rightarrow> regex option) \<Rightarrow> publications \<Rightarrow> shared_caches \<Rightarrow> bool" where
  "documents_published lib rx p sh \<longleftrightarrow>
     keys_published (pb_keys p) (sh_jwks sh) \<and> snapshots_published rx (pb_snapshots p) (sh_snapshots sh) \<and>
     registries_published (lib_uni lib) (pb_registries p) (sh_registries sh)"

lemma snapshots_published_mono:
  "snapshots_published rx docs sh \<Longrightarrow> docs \<subseteq> docs' \<Longrightarrow> snapshots_published rx docs' sh"
  unfolding snapshots_published_def by blast

lemma registries_published_mono:
  "registries_published uni docs sh \<Longrightarrow> docs \<subseteq> docs' \<Longrightarrow> registries_published uni docs' sh"
  unfolding registries_published_def by blast

lemma snapshots_published_tick:
  assumes "snapshots_published rx docs sh" and "sh url = Some sc"
  shows "snapshots_published rx (docs \<union> publishes url (snd tick))
    (sh(url \<mapsto> poll_step (snapshot_refresh rx) (snapshot_check_version rx) tick sc))"
  using assms snapshot_step_cases [of rx tick sc] by (auto simp: snapshots_published_def publishes_def)

lemma registries_published_tick:
  assumes "registries_published uni docs sh" and "sh url = Some rc"
  shows "registries_published uni (docs \<union> publishes url (snd tick))
    (sh(url \<mapsto> poll_step (registry_refresh uni) (registry_check_version uni) tick rc))"
  using assms registry_step [of uni tick rc] by (auto simp: registries_published_def publishes_def)

lemma snapshots_published_shared:
  "snapshots_published rx docs sh \<Longrightarrow>
   snapshots_published rx (docs \<union> publishes url e) (snd (get_shared_snapshot_cache rx url e sh))"
  by (auto simp: get_shared_snapshot_cache_def snapshots_published_def publishes_def snapshot_refresh_good Let_def
      split: option.splits)

lemma registries_published_shared:
  "registries_published uni docs sh \<Longrightarrow>
   registries_published uni (docs \<union> publishes url e) (snd (get_shared_app_registry uni url e sh))"
  by (auto simp: get_shared_app_registry_def registries_published_def publishes_def registry_refresh_good Let_def
      split: option.splits)

text \<open>The construction touches the snapshot and the registry of its own URLs, at most.\<close>

lemma new_gateway_documents:
  assumes "new_gateway uni rx parse_url ne (Some cfg) sh = (res, sh1)"
  shows "sh_snapshots sh1 =
      (if authorization_mode_valid uni (cfg_authorization_mode cfg)
       then snd (get_shared_snapshot_cache rx (cfg_service_service_url cfg) (ne_snapshot ne) (sh_snapshots sh))
       else sh_snapshots sh)"
    and "sh_registries sh1 =
      (if authorization_mode_valid uni (cfg_authorization_mode cfg) \<and> cfg_app_resolution_mode cfg \<noteq> ''disabled''
       then snd (get_shared_app_registry uni (cfg_application_service_url cfg) (ne_registry ne) (sh_registries sh))
       else sh_registries sh)"
  using assms by (auto simp: new_gateway_def Let_def split: if_splits sum.splits prod.splits option.splits)

lemma world_documents_published: "world lib rx p sh \<Longrightarrow> documents_published lib rx p sh"
proof (induction rule: world.induct)
  case boot
  show ?case by (simp add: documents_published_def nothing_published_def no_caches_def keys_published_def
        snapshots_published_def registries_published_def)
next
  case (built p sh parse_url ne cfg res sh1)
  note inv = built.IH [unfolded documents_published_def]
  have "keys_published (pb_keys p \<union> range (ne_jwks ne)) (sh_jwks sh)"
    using inv by (blast intro: keys_published_mono)
  then have "keys_published (pb_keys p \<union> range (ne_jwks ne)) (sh_jwks sh1)"
    by (rule keys_published_built [OF _ built.hyps(2)]) simp
  moreover have "snapshots_published rx (pb_snapshots p \<union> publishes (cfg_service_service_url cfg) (ne_snapshot ne)) (sh_snapshots sh1)"
    using inv unfolding new_gateway_documents(1) [OF built.hyps(2)]
    by (auto intro: snapshots_published_shared snapshots_published_mono)
  moreover have "registries_published (lib_uni lib)
      (pb_registries p \<union> publishes (cfg_application_service_url cfg) (ne_registry ne)) (sh_registries sh1)"
    using inv unfolding new_gateway_documents(2) [OF built.hyps(2)]
    by (auto intro: registries_published_shared registries_published_mono)
  ultimately show ?case by (simp add: documents_published_def)
next
  case (key_tick p sh url jc ev)
  note inv = key_tick.IH [unfolded documents_published_def]
  have k: "keys_published (insert ev (pb_keys p)) (sh_jwks sh)" using inv by (blast intro: keys_published_mono)
  then show ?case
    using inv keys_published_cached [OF k key_tick.hyps(2)]
    by (auto simp: documents_published_def intro!: keys_published_refresh [OF k])
next
  case (snapshot_tick p sh url sc tick)
  then show ?case by (simp add: documents_published_def snapshots_published_tick)
next
  case (registry_tick p sh url rc rtick)
  then show ?case by (simp add: documents_published_def registries_published_tick)
next
  case (served p sh env gw req plans limiter)
  note inv = served.IH [unfolded documents_published_def]
  have "keys_published (insert (en_jwks env) (pb_keys p)) (sh_jwks sh)" using inv by (blast intro: keys_published_mono)
  then have "keys_published (insert (en_jwks env) (pb_keys p))
      (x_jwks (serve_http lib gw env (arrives req (sh_jwks sh) plans limiter)))"
    by (intro published.through_serve_http) (simp_all add: arrives_def)
  with inv show ?case by (simp add: documents_published_def)
qed

section \<open>Requests\<close>

text \<open>
  The caches one request reads.  A poll may come between two reads, so each read finds the cache of the
  instance's URL in some state of the process, no later than the one whose publications are \<open>p\<close>.
\<close>

definition reads_snapshot ::
  "('ev, 's, 'e) libs \<Rightarrow> (string \<Rightarrow> regex option) \<Rightarrow> publications \<Rightarrow> gateway \<Rightarrow> snapshot_cache \<Rightarrow> bool" where
  "reads_snapshot lib rx p gw sc \<longleftrightarrow>
     (\<exists>p' sh. world lib rx p' sh \<and> earlier p' p \<and> sh_snapshots sh (cfg_service_service_url (gw_config gw)) = Some sc)"

definition reads_registry ::
  "('ev, 's, 'e) libs \<Rightarrow> (string \<Rightarrow> regex option) \<Rightarrow> publications \<Rightarrow> gateway \<Rightarrow> app_registry \<Rightarrow> bool" where
  "reads_registry lib rx p gw rc \<longleftrightarrow>
     (\<exists>p' sh. world lib rx p' sh \<and> earlier p' p \<and> sh_registries sh (cfg_application_service_url (gw_config gw)) = Some rc)"

lemma reads_snapshot_published:
  assumes "reads_snapshot lib rx p gw sc"
  shows "sc = new_snapshot_cache \<or>
    (\<exists>d. (cfg_service_service_url (gw_config gw), d) \<in> pb_snapshots p \<and> sc = compile_snapshot rx d)"
  using assms world_documents_published [of lib rx]
  unfolding reads_snapshot_def documents_published_def snapshots_published_def earlier_def by blast

lemma reads_registry_published:
  assumes "reads_registry lib rx p gw rc"
  shows "rc = new_app_registry \<or>
    (\<exists>d. (cfg_application_service_url (gw_config gw), d) \<in> pb_registries p \<and> rc = compile_registry (lib_uni lib) d)"
  using assms world_documents_published [of lib rx]
  unfolding reads_registry_def documents_published_def registries_published_def earlier_def by blast

text \<open>What a published document says: an application is active; an endpoint is listed for it.\<close>

definition published_active :: "(string \<Rightarrow> string) \<Rightarrow> publications \<Rightarrow> string \<Rightarrow> string \<Rightarrow> bool" where
  "published_active uni p url app \<longleftrightarrow> (\<exists>d. (url, d) \<in> pb_registries p \<and> is_active_app (compile_registry uni d) app)"

definition published_endpoint ::
  "(string \<Rightarrow> regex option) \<Rightarrow> publications \<Rightarrow> string \<Rightarrow> string \<Rightarrow> compiled_endpoint \<Rightarrow> bool" where
  "published_endpoint rx p url app ep \<longleftrightarrow>
     (\<exists>d a svc e. (url, d) \<in> pb_snapshots p \<and> a \<in> set (sd_apps d) \<and> svc \<in> set (sa_services a) \<and> e \<in> set (svc_endpoints svc) \<and>
        ep = compile_endpoint rx (sa_app_id a) e \<and> (app \<noteq> [] \<longrightarrow> sa_app_id a \<in> {app, [], ''*''}))"

text \<open>A permission that the policies and bindings of one published snapshot give the caller on an application.\<close>

definition published_grant :: "publications \<Rightarrow> string \<Rightarrow> token_claims \<Rightarrow> string \<Rightarrow> string \<Rightarrow> bool" where
  "published_grant p url tc perm app \<longleftrightarrow>
     (\<exists>d. (url, d) \<in> pb_snapshots p \<and>
        policy_grants (sd_policies d) (sd_bindings d) (set (tc_qualified_roles tc)) (tc_app_id tc) perm app)"

lemma registry_says_active:
  assumes "reads_registry lib rx p gw rc" and "is_active_app rc app \<or> resolve_host (lib_uni lib) rc host = Some app"
  shows "published_active (lib_uni lib) p (cfg_application_service_url (gw_config gw)) app"
proof -
  have "\<not> is_active_app new_app_registry app" by (simp add: is_active_app_def new_app_registry_def)
  then show ?thesis
    using reads_registry_published [OF assms(1)] assms(2) by (auto simp: published_active_def dest: resolved_active_compiled)
qed

lemma snapshot_lists_endpoint:
  assumes "reads_snapshot lib rx p gw sc" and "match_endpoint sc app meth path = Some ep"
  shows "published_endpoint rx p (cfg_service_service_url (gw_config gw)) app ep"
proof -
  note m = match_endpoint_Some [OF assms(2)]
  then have "sc \<noteq> new_snapshot_cache" by (auto simp: new_snapshot_cache_def)
  then obtain d where d: "(cfg_service_service_url (gw_config gw), d) \<in> pb_snapshots p" "sc = compile_snapshot rx d"
    using reads_snapshot_published [OF assms(1)] by blast
  with m obtain a svc e where "a \<in> set (sd_apps d)" "svc \<in> set (sa_services a)" "e \<in> set (svc_endpoints svc)"
    and ep: "ep = compile_endpoint rx (sa_app_id a) e"
    by (auto simp: compile_endpoints_mem)
  moreover have "ce_app_id ep = sa_app_id a" by (simp add: ep compile_endpoint_def snapshot_endpoint_dto.defs)
  ultimately show ?thesis using d(1) m unfolding published_endpoint_def by auto
qed

lemma snapshot_grants:
  assumes "reads_snapshot lib rx p gw sc" and "granted (principal_for sc (Some tc)) perm app" and "perm \<noteq> []"
  shows "published_grant p (cfg_service_service_url (gw_config gw)) tc perm app"
proof -
  let ?p = "\<lparr>pr_subject = tc_subject tc, pr_user_id = tc_user_id tc, pr_home_app = tc_app_id tc,
    pr_email = tc_email tc, pr_roles = tc_qualified_roles tc, pr_statements = [], pr_bound_roles = [], pr_policies = []\<rparr>"
  have "\<not> granted (Some (resolve_statements ?p None)) perm app"
    using assms(3) by (simp add: resolve_statements_def granted_def)
  then have "sc \<noteq> new_snapshot_cache" using assms(2) by (auto simp: new_snapshot_cache_def principal_for_def)
  then obtain d where d: "(cfg_service_service_url (gw_config gw), d) \<in> pb_snapshots p" "sc = compile_snapshot rx d"
    using reads_snapshot_published [OF assms(1)] by blast
  with assms(2) granted_declarative [OF assms(3), of ?p "sd_policies d" "sd_bindings d" app]
  show ?thesis by (auto simp: principal_for_def published_grant_def)
qed

text \<open>
  C3: authority can be traced to publications.  Whatever has happened in the process before, a request that is
  forwarded in policy mode to an endpoint of the application it carries was let through by published documents:
  the application is active in a registry document of application-service, the endpoint is listed for
  it (or as shared) in a snapshot of service-service, and the permission it demands, if any, is given by the policies and
  bindings of one such snapshot to a caller whose token verifies under a key that a configured realm has published, and
  whose identity the request carries.
\<close>

theorem authority_traced_to_publications:
  assumes "world lib rx p sh" and "headers_distinct (gw_config gw)" and "gw_policy_mode gw"
    and "reads_registry lib rx p gw (en_resolve_registry env)" and "reads_registry lib rx p gw (en_active_registry env)"
    and "reads_snapshot lib rx p gw (en_match_snapshot env)" and "reads_snapshot lib rx p gw (en_policy_snapshot env)"
    and "y = serve_http lib gw env (arrives req (sh_jwks sh) plans limiter)" and "x_forwarded y"
    and "app = get_header y (cfg_app_id_header (gw_config gw))"
    and "match_endpoint (en_match_snapshot env) app (req_method req) (req_path req) = Some ep"
  shows "(app = [] \<or> published_active (lib_uni lib) p (cfg_application_service_url (gw_config gw)) app) \<and>
    published_endpoint rx p (cfg_service_service_url (gw_config gw)) app ep \<and>
    (ep_required_permission ep = [] \<or>
     (\<exists>tc. traced_caller lib gw env (insert (en_jwks env) (pb_keys p)) (get_req_header req (cfg_jwt_header_key (gw_config gw))) tc \<and>
        published_grant p (cfg_service_service_url (gw_config gw)) tc (ep_required_permission ep) app \<and>
        stamped_request gw env plans tc (x_req y)))"
proof (intro conjI)
  show "app = [] \<or> published_active (lib_uni lib) p (cfg_application_service_url (gw_config gw)) app"
    using forwarded_application [OF assms(2,8,9,10)] registry_says_active [OF assms(4)] registry_says_active [OF assms(5)] by blast
  show "published_endpoint rx p (cfg_service_service_url (gw_config gw)) app ep"
    by (rule snapshot_lists_endpoint [OF assms(6,11)])
  obtain claims where a: "policy_authorizes (en_policy_snapshot env) ep app req claims"
    and c: "carries gw env plans claims (x_req y)"
    and v: "\<And>tc. claims = Some tc \<Longrightarrow> vouched_caller lib gw env (sh_jwks sh) (get_req_header req (cfg_jwt_header_key (gw_config gw))) tc"
    using forwarded_policy [OF assms(2,3,8,9)] assms(10,11) by blast
  have "keys_published (insert (en_jwks env) (pb_keys p)) (sh_jwks sh)"
    using world_documents_published [OF assms(1)] by (auto simp: documents_published_def intro: keys_published_mono)
  note traced = vouched_traced [OF this]
  show "ep_required_permission ep = [] \<or>
     (\<exists>tc. traced_caller lib gw env (insert (en_jwks env) (pb_keys p)) (get_req_header req (cfg_jwt_header_key (gw_config gw))) tc \<and>
        published_grant p (cfg_service_service_url (gw_config gw)) tc (ep_required_permission ep) app \<and>
        stamped_request gw env plans tc (x_req y))"
  proof (cases "ep_required_permission ep = []")
    case False
    with a obtain tc where tc: "claims = Some tc"
      and "granted (principal_for (en_policy_snapshot env) (Some tc)) (ep_required_permission ep) app"
      by (auto simp: policy_authorizes_def)
    then have "published_grant p (cfg_service_service_url (gw_config gw)) tc (ep_required_permission ep) app"
      using snapshot_grants [OF assms(7)] False by blast
    with traced [OF v [OF tc]] c tc show ?thesis by (auto simp: carries_def)
  qed simp
qed

text \<open>A process that builds the sample instance on published documents and then polls a key of 1024 bits.\<close>

definition world_snapshot :: snapshot_dto where
  "world_snapshot = \<lparr>sd_version = ''v1'',
     sd_apps = [\<lparr>sa_app_id = ''a'', sa_services = [\<lparr>svc_uid = ''s'', svc_slug = ''s'', svc_base_path = [],
       svc_endpoints = [\<lparr>ep_uid = ''e'', ep_method = ''GET'', ep_path = ''/x'', ep_full_path = ''/x'', ep_path_regex = [],
         ep_access_level = [], ep_required_permission = ''doc.read'', ep_owner_param = [], ep_tags = [],
         ep_rate_limits = Map.empty\<rparr>]\<rparr>]\<rparr>],
     sd_policies = [\<lparr>pol_name = ''p'', pol_statements = [\<lparr>st_actions = [''doc.*''], st_apps = [app_home]\<rparr>]\<rparr>],
     sd_bindings = [\<lparr>bnd_role = ''editor'', bnd_policy = ''p''\<rparr>]\<rparr>"

definition world_registry :: app_registry_dto where
  "world_registry = \<lparr>ar_version = ''v1'', ar_hosts = [(''a.example'', \<lparr>ah_app_id = ''a'', ah_status = ''active''\<rparr>)], ar_apps = []\<rparr>"

definition world_new_env :: new_env where
  "world_new_env = wiring_env\<lparr>ne_snapshot := Response 200 (Some world_snapshot), ne_registry := Response 200 (Some world_registry)\<rparr>"

definition world_env :: "unit env" where
  "world_env = (let rc = compile_registry (\<lambda>s. s) world_registry; sc = compile_snapshot (\<lambda>_. None) world_snapshot in
     demo_env\<lparr>en_resolve_registry := rc, en_cold_registry := rc, en_active_registry := rc, en_ids_registry := rc,
       en_loaded_snapshot := sc, en_match_snapshot := sc, en_host_match_snapshot := sc, en_policy_snapshot := sc\<rparr>)"

abbreviation world_new :: "(new_error + gateway \<times> rate_limiter option \<times> plan_resolver) \<times> shared_caches" where
  "world_new \<equiv> new_gateway (\<lambda>s. s) (\<lambda>_. None) (\<lambda>_. None) world_new_env (Some trace_config) no_caches"

abbreviation world_cache :: "int \<Rightarrow> jwks_cache" where
  "world_cache c \<equiv> \<lparr>jc_url = ''u'', jc_refetch_cooldown = c, jc_keys = [''k'' \<mapsto> trace_key], jc_last_attempt = 0\<rparr>"

abbreviation world_caches :: "int \<Rightarrow> shared_caches" where
  "world_caches c \<equiv> snd world_new\<lparr>sh_jwks := (sh_jwks (snd world_new))(''u'' \<mapsto> world_cache c)\<rparr>"

abbreviation world_run :: "int \<Rightarrow> unit exchange" where
  "world_run c \<equiv> serve_http demo_libs (demo_gateway True) world_env (arrives demo_request (sh_jwks (world_caches c)) (new_plan_resolver []) ())"

lemma world_forwarded:
  "x_forwarded (serve_http demo_libs (demo_gateway True) world_env (arrives demo_request
     (jwks(''u'' \<mapsto> \<lparr>jc_url = url, jc_refetch_cooldown = c, jc_keys = [''k'' \<mapsto> key], jc_last_attempt = t\<rparr>)) (new_plan_resolver []) ()))"
  "get_header (serve_http demo_libs (demo_gateway True) world_env (arrives demo_request
     (jwks(''u'' \<mapsto> \<lparr>jc_url = url, jc_refetch_cooldown = c, jc_keys = [''k'' \<mapsto> key], jc_last_attempt = t\<rparr>)) (new_plan_resolver []) ()))
     (cfg_app_id_header (gw_config (demo_gateway True))) = ''a''"
  by code_simp+

lemma world_new_caches:
  "\<exists>jc. sh_jwks (snd world_new) ''u'' = Some jc \<and> jc_url jc = ''u''"
  "sh_snapshots (snd world_new) (cfg_service_service_url create_config) = Some (compile_snapshot (\<lambda>_. None) world_snapshot)"
  "sh_registries (snd world_new) (cfg_application_service_url create_config) = Some (compile_registry (\<lambda>s. s) world_registry)"
proof -
  have "case sh_jwks (snd world_new) ''u'' of None \<Rightarrow> False | Some jc \<Rightarrow> jc_url jc = ''u''" by code_simp
  then show "\<exists>jc. sh_jwks (snd world_new) ''u'' = Some jc \<and> jc_url jc = ''u''" by (auto split: option.splits)
  have cfg: "authorization_mode_valid (\<lambda>s. s) (cfg_authorization_mode trace_config)"
    "cfg_app_resolution_mode trace_config \<noteq> ''disabled''"
    by code_simp+
  have url: "cfg_service_service_url trace_config = cfg_service_service_url create_config"
    "cfg_application_service_url trace_config = cfg_application_service_url create_config"
    by (simp_all add: trace_config_def)
  note docs = new_gateway_documents [of "\<lambda>s. s" "\<lambda>_. None" "\<lambda>_. None" world_new_env trace_config no_caches, OF prod.collapse [symmetric]]
  show "sh_snapshots (snd world_new) (cfg_service_service_url create_config) = Some (compile_snapshot (\<lambda>_. None) world_snapshot)"
    using docs(1) cfg by (simp add: url get_shared_snapshot_cache_def no_caches_def snapshot_refresh_def world_new_env_def Let_def)
  show "sh_registries (snd world_new) (cfg_application_service_url create_config) = Some (compile_registry (\<lambda>s. s) world_registry)"
    using docs(2) cfg by (simp add: url get_shared_app_registry_def no_caches_def registry_refresh_def world_new_env_def Let_def)
qed

text \<open>What has been published when the key has been polled.\<close>

definition world_published :: publications where
  "world_published = \<lparr>pb_keys = insert trace_answer (range (ne_jwks world_new_env)),
     pb_snapshots = {(cfg_service_service_url create_config, world_snapshot)},
     pb_registries = {(cfg_application_service_url create_config, world_registry)}\<rparr>"

lemma world_reached: "\<exists>c. world demo_libs (\<lambda>_. None) world_published (world_caches c)"
proof -
  obtain jc where jc: "sh_jwks (snd world_new) ''u'' = Some jc" "jc_url jc = ''u''" using world_new_caches(1) by blast
  have "lib_uni demo_libs = (\<lambda>s. s)" by (simp add: demo_libs_def)
  then have new: "new_gateway (lib_uni demo_libs) (\<lambda>_. None) (\<lambda>_. None) world_new_env (Some trace_config) no_caches =
      (fst world_new, snd world_new)"
    by simp
  note b = world.built [OF world.boot new]
  have "snd (jwks_refresh trace_answer jc) = world_cache (jc_refetch_cooldown jc)"
    by (rule jwks_cache.equality) (simp_all add: jc(2) jwks_refresh_keys trace_published, simp add: trace_answer_def)
  with world.key_tick [OF b jc(1), of trace_answer] show ?thesis
    by (intro exI [of _ "jc_refetch_cooldown jc"])
      (simp add: world_published_def nothing_published_def publishes_def world_new_env_def trace_config_def)
qed

theorem authority_traced_to_publications_witness:
  "\<exists>c tc. world demo_libs (\<lambda>_. None) world_published (world_caches c) \<and> x_forwarded (world_run c) \<and>
     traced_caller demo_libs (demo_gateway True) world_env (insert (en_jwks world_env) (pb_keys world_published)) ''Bearer aA.Yw.cw'' tc \<and>
     published_grant world_published (cfg_service_service_url create_config) tc ''doc.read'' ''a'' \<and>
     stamped_request (demo_gateway True) world_env (new_plan_resolver []) tc (x_req (world_run c))"
proof -
  let ?gw = "demo_gateway True" and ?sc = "compile_snapshot (\<lambda>_. None) world_snapshot"
    and ?rc = "compile_registry (\<lambda>s. s) world_registry"
  obtain c where w: "world demo_libs (\<lambda>_. None) world_published (world_caches c)" using world_reached by blast
  have f: "x_forwarded (world_run c)" and a: "get_header (world_run c) (cfg_app_id_header (gw_config ?gw)) = ''a''"
    using world_forwarded [of "sh_jwks (snd world_new)" "''u''" c trace_key 0] by simp_all
  have urls: "cfg_service_service_url (gw_config ?gw) = cfg_service_service_url create_config"
    "cfg_application_service_url (gw_config ?gw) = cfg_application_service_url create_config"
    by (simp_all add: demo_gateway_def demo_config_def)
  have env: "en_resolve_registry world_env = ?rc" "en_active_registry world_env = ?rc" "en_match_snapshot world_env = ?sc"
    "en_policy_snapshot world_env = ?sc"
    by (simp_all add: world_env_def Let_def)
  have sn: "reads_snapshot demo_libs (\<lambda>_. None) world_published ?gw ?sc"
    and rg: "reads_registry demo_libs (\<lambda>_. None) world_published ?gw ?rc"
    unfolding reads_snapshot_def reads_registry_def urls
    by (rule exI [of _ world_published], rule exI [of _ "world_caches c"], use w world_new_caches(2,3) in \<open>simp add: earlier_def\<close>)+
  have m: "gw_policy_mode ?gw" by (simp add: demo_gateway_def)
  obtain ep where ep: "match_endpoint ?sc ''a'' (req_method demo_request) (req_path demo_request) = Some ep"
    and perm: "ep_required_permission ep = ''doc.read''"
  proof -
    have "case match_endpoint ?sc ''a'' (req_method demo_request) (req_path demo_request) of
        None \<Rightarrow> False | Some ep \<Rightarrow> ep_required_permission ep = ''doc.read''" by code_simp
    then show ?thesis using that by (auto split: option.splits)
  qed
  have key: "get_req_header demo_request (cfg_jwt_header_key (gw_config ?gw)) = ''Bearer aA.Yw.cw''" by code_simp
  from authority_traced_to_publications [of demo_libs "\<lambda>_. None" world_published "world_caches c" ?gw world_env,
      OF w demo_headers_distinct m rg [folded env(1)] rg [folded env(2)] sn [folded env(3)] sn [folded env(4)] refl f refl,
      unfolded a env(3), OF ep]
  show ?thesis using w f unfolding perm key urls by auto
qed

end
