(* ===== verification/Harness.thy ===== *)
theory Harness
  imports Wiring Jwt
begin

text \<open>
  \<^verbatim>\<open>hack/yaegi-harness/main.go\<close>: the program that runs the plugin under Traefik's interpreter and checks
  that every application realm is bound to its own JWKS cache and that an unknown \<^verbatim>\<open>kid\<close> is an error.
  This theory holds the probe functions it appends to the package, the JWKS server and the minted tokens, the
  three checks and the exit code; \<open>Harness_Main\<close> holds \<^verbatim>\<open>main\<close> around them.  \<open>marshal\<close>, \<open>sign\<close>, \<open>unmarshal\<close> and \<open>verify\<close> stand for \<^verbatim>\<open>encoding/json\<close> and \<^verbatim>\<open>crypto/rsa\<close>.
\<close>

section \<open>The JWKS server\<close>

text \<open>\<^verbatim>\<open>big.Int.Bytes\<close>: big-endian, no leading zero byte.\<close>

fun nat_bytes :: "nat \<Rightarrow> string" where
  "nat_bytes n = (if n = 0 then [] else nat_bytes (n div 256) @ [char_of (n mod 256)])"

declare nat_bytes.simps [simp del]

definition harness_jwk :: "rsa_key \<Rightarrow> jwks_key_json" where
  "harness_jwk key =
     \<lparr>k_kid = ''k1'', k_kty = ''RSA'', k_alg = ''RS256'', k_use = ''sig'',
      k_n = b64_encode (nat_bytes (rsa_n key)), k_e = b64_encode (nat_bytes (rsa_e key))\<rparr>"

definition harness_document :: "rsa_key \<Rightarrow> jwks_document" where
  "harness_document key = \<lparr>doc_keys = [harness_jwk key], doc_jwks_uri = []\<rparr>"

text \<open>The handler: the document under every path that ends in \<^verbatim>\<open>/certs\<close>, \<^verbatim>\<open>{}\<close> elsewhere.\<close>

definition harness_server :: "rsa_key \<Rightarrow> string \<Rightarrow> jwks_document http_outcome" where
  "harness_server key path =
     Response 200 (Some (if has_suffix path ''/certs'' then harness_document key
                         else \<lparr>doc_keys = [], doc_jwks_uri = []\<rparr>))"

definition harness_issuer :: string where
  "harness_issuer = ''https://auth.example/realms/fileconvert''"

text \<open>
  The closure \<^verbatim>\<open>mint\<close>: \<open>iat_now\<close> and \<open>exp_now\<close> are its two clock readings; \<^verbatim>\<open>json.Marshal\<close> of a map sorts
  the keys; \<open>sign\<close> is the PKCS #1 v1.5 signature over the SHA-256 digest.
\<close>

definition mint_header :: "string \<Rightarrow> json" where
  "mint_header kid = JObj [(''alg'', JStr ''RS256''), (''kid'', JStr kid), (''typ'', JStr ''JWT'')]"

definition mint_payload :: "string \<Rightarrow> int \<Rightarrow> int \<Rightarrow> json" where
  "mint_payload iss iat_now exp_now =
     JObj [(''app_id'', JStr ''fileconvert''), (''exp'', JNum (of_int ((exp_now + 3600 * second) div second))),
           (''iat'', JNum (of_int (iat_now div second))), (''iss'', JStr iss), (''luid'', JStr ''4''), (''sub'', JStr ''u1'')]"

definition mint :: "(json \<Rightarrow> string) \<Rightarrow> (string \<Rightarrow> string) \<Rightarrow> string \<Rightarrow> int \<Rightarrow> int \<Rightarrow> string \<Rightarrow> string" where
  "mint marshal sign iss iat_now exp_now kid =
     (let signing = b64_encode (marshal (mint_header kid)) @ ''.'' @ b64_encode (marshal (mint_payload iss iat_now exp_now))
      in signing @ ''.'' @ b64_encode (sign signing))"

section \<open>The probes\<close>

definition probe_config :: "string \<Rightarrow> string \<Rightarrow> string \<Rightarrow> config" where
  "probe_config scantinel fileconvert dummy =
     create_config\<lparr>cfg_service_service_url := dummy, cfg_app_resolution_mode := ''disabled'',
       cfg_disable_rate_limit := True, cfg_log_level := ''error'', cfg_keycloak_apps := [''scantinel''],
       cfg_keycloak_issuer := ''https://auth.scantinel.ai/realms/scantinel'',
       cfg_keycloak_jwks_url := scantinel,
       cfg_keycloak_realms :=
         [\<lparr>kr_app_id = ''fileconvert'', kr_issuer = ''https://auth.file-convert.online/realms/fileconvert'',
           kr_jwks_url = fileconvert\<rparr>]\<rparr>"

datatype realms_result = RealmsOk | NewFailed new_error | Misbound nat string

text \<open>The URL of the cache an instance verifies the tokens of an application with, if there is one.\<close>

definition bound_url :: "gateway \<Rightarrow> shared_caches \<Rightarrow> string \<Rightarrow> string option" where
  "bound_url gw sh app = bound_cache_url (gw_realms gw) (sh_jwks sh) app"

text \<open>
  The loop over the instances.  The inner loop ranges over a Go map of two entries, in either order: \<open>swap i\<close>
  is the order the runtime picks for instance \<open>i\<close>.
\<close>

fun probe_instances ::
  "(string \<Rightarrow> string) \<Rightarrow> (string \<Rightarrow> regex option) \<Rightarrow> (string \<Rightarrow> parsed_url option) \<Rightarrow> (nat \<Rightarrow> new_env) \<Rightarrow> (nat \<Rightarrow> bool) \<Rightarrow>
   string \<Rightarrow> string \<Rightarrow> string \<Rightarrow> nat \<Rightarrow> nat \<Rightarrow> shared_caches \<Rightarrow> realms_result \<times> shared_caches" where
  "probe_instances uni rx parse_url ne swap scantinel fileconvert dummy 0 i sh = (RealmsOk, sh)"
| "probe_instances uni rx parse_url ne swap scantinel fileconvert dummy (Suc k) i sh =
     (case new_gateway uni rx parse_url (ne i) (Some (probe_config scantinel fileconvert dummy)) sh of
        (Inl e, sh1) \<Rightarrow> (NewFailed e, sh1)
      | (Inr (gw, _), sh1) \<Rightarrow>
          (let wants = [(''scantinel'', scantinel), (''fileconvert'', fileconvert)] in
           case find (\<lambda>(app, want). bound_url gw sh1 app \<noteq> Some want) (if swap i then rev wants else wants) of
             Some (app, _) \<Rightarrow> (Misbound i app, sh1)
           | None \<Rightarrow> probe_instances uni rx parse_url ne swap scantinel fileconvert dummy k (Suc i) sh1))"

text \<open>\<^verbatim>\<open>YaegiProbeRealms\<close>\<close>

definition yaegi_probe_realms ::
  "(string \<Rightarrow> string) \<Rightarrow> (string \<Rightarrow> regex option) \<Rightarrow> (string \<Rightarrow> parsed_url option) \<Rightarrow> (nat \<Rightarrow> new_env) \<Rightarrow> (nat \<Rightarrow> bool) \<Rightarrow>
   string \<Rightarrow> string \<Rightarrow> string \<Rightarrow> nat \<Rightarrow> shared_caches \<Rightarrow> realms_result \<times> shared_caches" where
  "yaegi_probe_realms uni rx parse_url ne swap scantinel fileconvert dummy n sh =
     probe_instances uni rx parse_url ne swap scantinel fileconvert dummy n 0 sh"

text \<open>\<^verbatim>\<open>YaegiProbeInit\<close>: the shared cache of the URL; the variable \<^verbatim>\<open>yaegiProbeCache\<close> then is \<open>Some url\<close>.\<close>

definition yaegi_probe_init :: "string \<Rightarrow> jwks_event \<Rightarrow> (string \<rightharpoonup> jwks_cache) \<Rightarrow> string option \<times> (string \<rightharpoonup> jwks_cache)" where
  "yaegi_probe_init url ev jwks = (Some url, get_shared_jwks_cache url 100000000 ev jwks)"

datatype probe_result = ProbeOk | ProbeErr keycloak_error | ProbePanic

text \<open>A lookup in the probe's cache: on the nil pointer it panics, which the flag of the state records.\<close>

definition probe_key_for ::
  "jwks_event \<Rightarrow> string option \<Rightarrow> string \<Rightarrow> (string \<rightharpoonup> jwks_cache) \<times> bool \<Rightarrow>
   (string + rsa_key option) \<times> (string \<rightharpoonup> jwks_cache) \<times> bool" where
  "probe_key_for ev cache kid st =
     (case cache of
        None \<Rightarrow> (Inl kid, fst st, True)
      | Some url \<Rightarrow> (case realm_key_for ev url kid (fst st) of (r, jwks) \<Rightarrow> (r, jwks, snd st)))"

text \<open>\<^verbatim>\<open>YaegiProbeParse\<close>, with its \<^verbatim>\<open>recover\<close>.\<close>

definition yaegi_probe_parse ::
  "(string \<Rightarrow> json option) \<Rightarrow> (string \<Rightarrow> string \<Rightarrow> string \<Rightarrow> rsa_key \<Rightarrow> bool) \<Rightarrow> jwks_event \<Rightarrow> string option \<Rightarrow> int \<Rightarrow>
   string \<Rightarrow> string \<Rightarrow> (string \<rightharpoonup> jwks_cache) \<Rightarrow> probe_result \<times> (string \<rightharpoonup> jwks_cache)" where
  "yaegi_probe_parse unmarshal verify ev cache now token issuer jwks =
     (case parse_keycloak_jwt unmarshal verify (probe_key_for ev cache) issuer ''luid'' (30 * second) [''admin''] now
             (''Bearer '' @ token) (jwks, False) of
        (r, jwks1, panicked) \<Rightarrow>
          (if panicked then ProbePanic else case r of Inl e \<Rightarrow> ProbeErr e | Inr _ \<Rightarrow> ProbeOk, jwks1))"

section \<open>The run\<close>

text \<open>\<^verbatim>\<open>strings.Contains\<close> on the text of an error: of its parts only those the token supplies can name a \<^verbatim>\<open>kid\<close>.\<close>

definition error_quotes :: "string \<Rightarrow> keycloak_error \<Rightarrow> bool" where
  "error_quotes kid e =
     (case e of
        InvalidToken (KeyfuncError (LookupFailed k)) \<Rightarrow> sublist kid k
      | InvalidToken (KeyfuncError (NilKey k)) \<Rightarrow> sublist kid k
      | InvalidToken (SigningMethodInvalid alg) \<Rightarrow> sublist kid alg
      | IssuerMismatch iss \<Rightarrow> sublist kid iss
      | _ \<Rightarrow> False)"

text \<open>What the run reads from outside: per instance, per probe, the clock of each token and of its check.\<close>

record harness_env =
  he_new :: "nat \<Rightarrow> new_env"
  he_swap :: "nat \<Rightarrow> bool"
  he_init :: jwks_event
  he_known :: jwks_event
  he_known_minted :: "int \<times> int"
  he_known_now :: int
  he_unknown :: jwks_event
  he_unknown_minted :: "int \<times> int"
  he_unknown_now :: int

text \<open>What the calls of the probes return: the realm probe, the parse of a known and of an unknown \<^verbatim>\<open>kid\<close>.\<close>

record probe_answers =
  pa_realms :: realms_result
  pa_known :: probe_result
  pa_unknown :: probe_result

text \<open>The three checks of \<^verbatim>\<open>main\<close>, in order, on whatever the calls return, and the exit code.\<close>

definition harness_checks :: "probe_answers \<Rightarrow> bool list" where
  "harness_checks a =
     [pa_realms a = RealmsOk, pa_known a = ProbeOk,
      case pa_unknown a of ProbeErr e \<Rightarrow> error_quotes ''k-unknown'' e | _ \<Rightarrow> False]"

definition harness_exit_code :: "bool list \<Rightarrow> int" where
  "harness_exit_code checks = (if list_all id checks then 0 else 1)"

text \<open>What they return when they are computed as the definitions here are; \<open>base\<close> is \<^verbatim>\<open>srv.URL\<close>.\<close>

definition compiled_answers ::
  "(string \<Rightarrow> string) \<Rightarrow> (string \<Rightarrow> regex option) \<Rightarrow> (string \<Rightarrow> parsed_url option) \<Rightarrow> (string \<Rightarrow> json option) \<Rightarrow>
   (string \<Rightarrow> string \<Rightarrow> string \<Rightarrow> rsa_key \<Rightarrow> bool) \<Rightarrow> (json \<Rightarrow> string) \<Rightarrow> (string \<Rightarrow> string) \<Rightarrow> harness_env \<Rightarrow> string \<Rightarrow>
   shared_caches \<Rightarrow> probe_answers" where
  "compiled_answers uni rx parse_url unmarshal verify marshal sign he base sh =
     (let (r, sh1) = yaegi_probe_realms uni rx parse_url (he_new he) (he_swap he)
                       (base @ ''/realms/scantinel/certs'') (base @ ''/realms/fileconvert/certs'') base 40 sh;
          (cache, jwks1) = yaegi_probe_init (base @ ''/realms/fileconvert/certs'') (he_init he) (sh_jwks sh1);
          mint_at = (\<lambda>minted kid. mint marshal sign harness_issuer (fst minted) (snd minted) kid);
          (known, jwks2) = yaegi_probe_parse unmarshal verify (he_known he) cache (he_known_now he)
                             (mint_at (he_known_minted he) ''k1'') harness_issuer jwks1;
          (unknown, jwks3) = yaegi_probe_parse unmarshal verify (he_unknown he) cache (he_unknown_now he)
                               (mint_at (he_unknown_minted he) ''k-unknown'') harness_issuer jwks2
      in \<lparr>pa_realms = r, pa_known = known, pa_unknown = unknown\<rparr>)"

section \<open>Lemmas on the published key\<close>

lemma bytes_val_append: "bytes_val (bs @ [b]) = bytes_val bs * 256 + of_char b"
  by (simp add: bytes_val_def)

lemma bytes_val_nat_bytes: "bytes_val (nat_bytes n) = n"
proof (induction n rule: nat_bytes.induct)
  case (1 n)
  then show ?case
    by (cases "n = 0")
      (simp_all add: nat_bytes.simps [of n] nat_bytes.simps [of 0] bytes_val_append bytes_val_def [of "[]"])
qed

lemma length_nat_bytes: "n < 256 ^ k \<Longrightarrow> length (nat_bytes n) \<le> k"
proof (induction k arbitrary: n)
  case (Suc k)
  then have "n div 256 < 256 ^ k" by (simp add: less_mult_imp_div_less mult.commute)
  with Suc.IH show ?case by (simp add: nat_bytes.simps [of n])
qed (simp add: nat_bytes.simps)

lemma nat_bytes_nonempty: "0 < n \<Longrightarrow> nat_bytes n \<noteq> []"
  by (simp add: nat_bytes.simps [of n])

lemma b64_encode_Nil: "b64_encode s = [] \<longleftrightarrow> s = []"
  by (cases s rule: b64_sextets.cases) (simp_all add: b64_encode_def Let_def)

text \<open>A sound key is the one the plugin parses out of its published form.\<close>

lemma parse_harness_jwk: "sound_key key \<Longrightarrow> parse_rsa_jwk (harness_jwk key) = Inr key"
proof -
  assume s: "sound_key key"
  then have e: "3 \<le> rsa_e key" "odd (rsa_e key)" "rsa_e key < 256 ^ 4" and n: "2 ^ 1023 \<le> rsa_n key"
    by (simp_all add: sound_key_def)
  have n0: "0 < rsa_n key" using n by (rule less_le_trans [rotated]) simp
  have e1: "nat_bytes (rsa_e key) \<noteq> []" and n1: "nat_bytes (rsa_n key) \<noteq> []"
    using e(1) n0 by (auto intro!: nat_bytes_nonempty)
  have "\<not> bit_len (rsa_n key) \<le> 1023" using n by (simp add: bit_len_le not_less del: power_numeral)
  then have bl: "\<not> bit_len (rsa_n key) < 1024" by linarith
  show ?thesis
    unfolding parse_rsa_jwk_def Let_def
    using e e1 n1 bl n0 length_nat_bytes [OF e(3)]
    by (simp add: harness_jwk_def b64_encode_Nil b64_decode_encode bytes_val_nat_bytes odd_iff_mod_2_eq_one)
qed

lemma served_key: "sound_key key \<Longrightarrow> parse_keys (doc_keys (harness_document key)) = [''k1'' \<mapsto> key]"
  using parse_harness_jwk [of key]
  by (simp add: harness_document_def parse_keys_def add_key_def usable_key_def)
    (simp add: harness_jwk_def)

section \<open>Lemmas on the realm probe\<close>

lemma probe_config_simps [simp]:
  "cfg_authorization_mode (probe_config s f d) = ''legacy''" "cfg_disable_rate_limit (probe_config s f d)"
  "cfg_app_resolution_mode (probe_config s f d) = ''disabled''"
  "cfg_operator_realm (probe_config s f d) = \<lparr>kr_app_id = [], kr_issuer = [], kr_jwks_url = []\<rparr>"
  "cfg_keycloak_apps (probe_config s f d) = [''scantinel'']" "cfg_keycloak_jwks_url (probe_config s f d) = s"
  "cfg_keycloak_issuer (probe_config s f d) = ''https://auth.scantinel.ai/realms/scantinel''"
  "cfg_keycloak_realms (probe_config s f d) =
     [\<lparr>kr_app_id = ''fileconvert'', kr_issuer = ''https://auth.file-convert.online/realms/fileconvert'', kr_jwks_url = f\<rparr>]"
  "cfg_jwks_refetch_cooldown (probe_config s f d) = ''30s''"
  by (simp_all add: probe_config_def create_config_def)

definition probe_realms :: "string \<Rightarrow> string \<Rightarrow> (string \<times> keycloak_realm) list" where
  "probe_realms s f =
     [(''scantinel'', \<lparr>kr_app_id = ''scantinel'', kr_issuer = ''https://auth.scantinel.ai/realms/scantinel'', kr_jwks_url = s\<rparr>),
      (''fileconvert'', \<lparr>kr_app_id = ''fileconvert'', kr_issuer = ''https://auth.file-convert.online/realms/fileconvert'',
         kr_jwks_url = f\<rparr>)]"

lemma probe_app_set:
  "build_keycloak_app_set (probe_config s f d) =
     (if s = [] then Inl KeycloakAppsWithoutJwksUrl
      else if f = [] then Inl (IncompleteRealm ''fileconvert'') else Inr (probe_realms s f))"
proof -
  have "trim_space ''scantinel'' = ''scantinel''" and "trim_space ''fileconvert'' = ''fileconvert''" by code_simp+
  then show ?thesis by (simp add: build_keycloak_app_set_def probe_realms_def Let_def)
qed

lemma probe_mode_valid: "authorization_mode_valid uni ''legacy''"
proof -
  have "trim_space ''legacy'' = ''legacy''" and "is_ascii ''legacy''" and "map lower_char ''legacy'' = ''legacy''"
    by code_simp+
  then show ?thesis by (simp add: authorization_mode_valid_def to_lower_def)
qed

lemma probe_cooldown: "parse_duration ''30s'' d = 30000000000"
  by (simp add: parse_duration_def default_durations)

lemma probe_new_gateway:
  assumes "jwks_consistent (sh_jwks sh)"
  shows "case new_gateway uni rx parse_url ne (Some (probe_config s f d)) sh of
      (Inl e, sh2) \<Rightarrow> s = [] \<or> f = []
    | (Inr (gw, limiter, plans), sh2) \<Rightarrow> s \<noteq> [] \<and> f \<noteq> [] \<and>
        (gw_realms gw, sh_jwks sh2) = wire_realms ne 30000000000 (probe_realms s f) (sh_jwks sh)"
proof -
  obtain m jwks where w: "wire_realms ne 30000000000 (probe_realms s f) (sh_jwks sh) = (m, jwks)" by fastforce
  have "miswired (probe_realms s f) m jwks = None"
    by (rule wired_realms_pass [OF assms w]) (simp add: probe_realms_def)
  then show ?thesis
    using w by (simp add: new_gateway_def rate_limiter_of_def probe_app_set probe_mode_valid probe_cooldown Let_def)
qed

lemma probe_bound:
  assumes c: "jwks_consistent (sh_jwks sh)"
    and n: "new_gateway uni rx parse_url ne (Some (probe_config s f d)) sh = (Inr (gw, limiter, plans), sh1)"
  shows "bound_url gw sh1 ''scantinel'' = Some s" and "bound_url gw sh1 ''fileconvert'' = Some f"
    and "jwks_consistent (sh_jwks sh1)"
proof -
  have w: "wire_realms ne 30000000000 (probe_realms s f) (sh_jwks sh) = (gw_realms gw, sh_jwks sh1)"
    using probe_new_gateway [OF c, where uni = uni and rx = rx and parse_url = parse_url and ne = ne and s = s and f = f and d = d] by (simp add: n)
  note ws = wire_realms_spec [OF c w]
  show "jwks_consistent (sh_jwks sh1)" by (rule ws(2))
  show "bound_url gw sh1 ''scantinel'' = Some s" and "bound_url gw sh1 ''fileconvert'' = Some f"
    using ws(3) by (auto simp: bound_url_def bound_cache_url_def ws(1) probe_realms_def has_jwks_cache_def)
qed

lemma probe_instances_step:
  assumes "jwks_consistent (sh_jwks sh)"
    and "new_gateway uni rx parse_url (ne i) (Some (probe_config s f d)) sh = (Inr (gw, limiter, plans), sh1)"
  shows "probe_instances uni rx parse_url ne swap s f d (Suc k) i sh =
    probe_instances uni rx parse_url ne swap s f d k (Suc i) sh1"
proof (cases "swap i")
  case True
  then show ?thesis using assms(2) probe_bound(1,2) [OF assms] by (simp add: Let_def)
next
  case False
  then show ?thesis using assms(2) probe_bound(1,2) [OF assms] by (simp add: Let_def)
qed

lemma probe_instances_ok:
  assumes "jwks_consistent (sh_jwks sh)"
  shows "fst (probe_instances uni rx parse_url ne swap s f d k i sh) = RealmsOk \<longleftrightarrow> k = 0 \<or> s \<noteq> [] \<and> f \<noteq> []"
  using assms
proof (induction k arbitrary: i sh)
  case (Suc k)
  note new = probe_new_gateway [OF Suc.prems, where uni = uni and rx = rx and parse_url = parse_url and ne = "ne i" and s = s and f = f and d = d]
  show ?case
  proof (cases "fst (new_gateway uni rx parse_url (ne i) (Some (probe_config s f d)) sh)")
    case (Inl e)
    with new show ?thesis by (auto split: prod.splits)
  next
    case (Inr r)
    then obtain gw limiter plans sh1 where
      n: "new_gateway uni rx parse_url (ne i) (Some (probe_config s f d)) sh = (Inr (gw, limiter, plans), sh1)"
      by (metis prod.collapse)
    note b = probe_bound [OF Suc.prems n]
    from new n have "s \<noteq> [] \<and> f \<noteq> []" by simp
    with Suc.IH [OF b(3)] show ?thesis by (simp only: probe_instances_step [where ne = ne and i = i, OF Suc.prems n]) simp
  qed
qed simp

text \<open>
  the harness's first check tells the truth about the plugin: over consistent shared caches, whatever the
  JWKS endpoints answer and in whichever order the realms are inspected, \<^verbatim>\<open>YaegiProbeRealms\<close> answers \<^verbatim>\<open>ok\<close> for
  \<open>n\<close> instances exactly when there is no instance to build or both JWKS URLs are given.
\<close>

theorem realm_probe_ok_iff:
  assumes "jwks_consistent (sh_jwks sh)"
  shows "fst (yaegi_probe_realms uni rx parse_url ne swap scantinel fileconvert dummy n sh) = RealmsOk \<longleftrightarrow>
    n = 0 \<or> scantinel \<noteq> [] \<and> fileconvert \<noteq> []"
  by (simp add: yaegi_probe_realms_def probe_instances_ok [OF assms])

theorem realm_probe_ok_iff_witness:
  "fst (yaegi_probe_realms (\<lambda>s. s) (\<lambda>_. None) (\<lambda>_. None) (\<lambda>_. wiring_env) even ''u'' ''v'' ''d'' 40 no_caches) = RealmsOk"
proof -
  have "jwks_consistent (sh_jwks no_caches)" by (simp add: jwks_consistent_def no_caches_def)
  from realm_probe_ok_iff [OF this] show ?thesis by simp
qed

section \<open>Lemmas on the served caches\<close>

text \<open>What a run keeps of the caches: each holds the served key, under its own URL.\<close>

definition serves :: "rsa_key \<Rightarrow> jwks_event \<Rightarrow> bool" where
  "serves key ev \<longleftrightarrow> je_fetch ev = harness_server key"

definition holds_key :: "rsa_key \<Rightarrow> (string \<rightharpoonup> jwks_cache) \<Rightarrow> bool" where
  "holds_key key sh \<longleftrightarrow>
     (\<forall>url jc. sh url = Some jc \<longrightarrow> jc_url jc = url \<and> (has_suffix url ''/certs'' \<longrightarrow> jc_keys jc = [''k1'' \<mapsto> key]))"

lemma served_refresh:
  assumes "sound_key key" and "serves key ev" and "has_suffix (jc_url jc) ''/certs''"
  shows "jc_keys (snd (jwks_refresh ev jc)) = [''k1'' \<mapsto> key]"
proof -
  have "published_keys (jc_url jc) ev = Some [''k1'' \<mapsto> key]"
    using assms served_key [of key]
    by (auto simp: published_keys_def key_document_def fetch_document_def serves_def harness_server_def harness_document_def)
  then show ?thesis by (simp add: jwks_refresh_keys)
qed

lemma holds_key_shared:
  assumes "sound_key key" and "serves key ev" and "holds_key key sh"
  shows "holds_key key (get_shared_jwks_cache url cooldown ev sh)"
  using assms(3) served_refresh [OF assms(1,2), of "new_jwks_cache url cooldown"]
  by (auto simp: holds_key_def get_shared_jwks_cache_def new_jwks_cache_def split: option.splits)

lemma holds_key_wire:
  assumes "sound_key key" and "\<And>url. serves key (ne_jwks ne url)" and "holds_key key sh"
  shows "holds_key key (snd (wire_realms ne cooldown realms sh))"
proof (induction realms rule: rev_induct)
  case (snoc e realms)
  then show ?case
    by (cases e) (auto simp: wire_realms_def case_prod_beta intro!: holds_key_shared assms)
qed (simp add: wire_realms_def assms(3))

lemma holds_key_consistent: "holds_key key sh \<Longrightarrow> jwks_consistent sh"
  by (simp add: holds_key_def jwks_consistent_def)

lemma probe_instances_caches:
  assumes "sound_key key" and "\<And>i url. serves key (ne_jwks (ne i) url)"
    and "holds_key key (sh_jwks sh)" and "s \<noteq> []" and "f \<noteq> []"
  shows "holds_key key (sh_jwks (snd (probe_instances uni rx parse_url ne swap s f d k i sh)))"
  using assms(3)
proof (induction k arbitrary: i sh)
  case (Suc k)
  note new = probe_new_gateway [OF holds_key_consistent [OF Suc.prems], where uni = uni and rx = rx and parse_url = parse_url and ne = "ne i" and s = s and f = f and d = d]
  from new assms(4,5) obtain gw limiter plans sh1 where
    n: "new_gateway uni rx parse_url (ne i) (Some (probe_config s f d)) sh = (Inr (gw, limiter, plans), sh1)"
    by (auto split: prod.splits sum.splits)
  from new have w: "wire_realms (ne i) 30000000000 (probe_realms s f) (sh_jwks sh) = (gw_realms gw, sh_jwks sh1)"
    by (simp add: n)
  have "holds_key key (sh_jwks sh1)"
    using holds_key_wire [OF assms(1,2) Suc.prems, of i 30000000000 "probe_realms s f"] by (simp add: w)
  from Suc.IH [OF this] show ?case by (simp only: probe_instances_step [where ne = ne and i = i, OF holds_key_consistent [OF Suc.prems] n])
qed simp

section \<open>Lemmas on the minted tokens\<close>

text \<open>The laws of the libraries the harness mints with: encoding then decoding, signing then checking.\<close>

definition clock_reading :: "int \<Rightarrow> bool" where
  "clock_reading t \<longleftrightarrow> 0 \<le> t \<and> t \<le> max_int64"

definition minting_laws ::
  "(string \<Rightarrow> json option) \<Rightarrow> (string \<Rightarrow> string \<Rightarrow> string \<Rightarrow> rsa_key \<Rightarrow> bool) \<Rightarrow> (json \<Rightarrow> string) \<Rightarrow> (string \<Rightarrow> string) \<Rightarrow>
   rsa_key \<Rightarrow> string \<Rightarrow> int \<times> int \<Rightarrow> bool" where
  "minting_laws unmarshal verify marshal sign key kid minted \<longleftrightarrow>
     unmarshal (marshal (mint_header kid)) = Some (mint_header kid) \<and>
     unmarshal (marshal (mint_payload harness_issuer (fst minted) (snd minted))) =
       Some (mint_payload harness_issuer (fst minted) (snd minted)) \<and>
     (\<forall>text. verify ''RS256'' text (sign text) key)"

text \<open>The token is checked within the hour after it was minted.\<close>

definition minted_in_time :: "int \<times> int \<Rightarrow> int \<Rightarrow> bool" where
  "minted_in_time minted now \<longleftrightarrow>
     clock_reading (fst minted) \<and> clock_reading (snd minted) \<and> clock_reading now \<and>
     snd minted \<le> now \<and> now \<le> snd minted + 3600 * second"

lemma mint_members:
  "mint_payload iss iat_now exp_now = JObj m \<Longrightarrow>
     obj_get m ''iss'' = Some (JStr iss) \<and> obj_get m ''sub'' = Some (JStr ''u1'') \<and>
     obj_get m ''app_id'' = Some (JStr ''fileconvert'') \<and> obj_get m ''nbf'' = None \<and>
     obj_get m ''exp'' = Some (JNum (of_int ((exp_now + 3600 * second) div second)))"
  "mint_header kid = JObj h \<Longrightarrow> obj_get h ''alg'' = Some (JStr ''RS256'') \<and> obj_get h ''kid'' = Some (JStr kid)"
  by (auto simp: mint_payload_def mint_header_def obj_get_def)

lemma minted_valid:
  assumes p: "mint_payload iss iat_now exp_now = JObj m" and t: "minted_in_time (iat_now, exp_now) now"
  shows "validate (p_validator (keycloak_parser (30 * second))) m now = []"
proof -
  let ?t = "(exp_now + 3600 * second) div second"
  have s: "second = 1000000000" by (simp add: second_def)
  have b: "0 \<le> ?t" "?t < 9000000000000000000" "exp_now + 3600 * second < instant ?t + second"
    using t by (auto simp: minted_in_time_def clock_reading_def s max_int64_def)
  then have d: "numeric_date_from_seconds (of_int ?t) = ?t" by (intro numeric_date_integral)
  have "now < instant ?t + 30 * second" using t b(3) by (simp add: minted_in_time_def s)
  with d mint_members(1) [OF p] show ?thesis
    by (simp add: validate_def verify_expires_at_def verify_not_before_def parse_numeric_date_def
        error_if_false_def error_if_required_def List.map_filter_def)
qed

lemma minted_unverified:
  assumes laws: "minting_laws unmarshal verify marshal sign key kid (iat_now, exp_now)"
    and p: "mint_payload harness_issuer iat_now exp_now = JObj m" and h: "mint_header kid = JObj hdr"
    and token: "token = mint marshal sign harness_issuer iat_now exp_now kid"
  shows "\<exists>a c g hb cb sig. token = a @ ''.'' @ c @ ''.'' @ g \<and>
      b64_decode a = Some hb \<and> Option.bind (unmarshal hb) as_map = Some hdr \<and>
      b64_decode c = Some cb \<and> Option.bind (unmarshal cb) as_map = Some m \<and> b64_decode g = Some sig \<and>
      verify ''RS256'' (a @ ''.'' @ c) sig key"
proof -
  let ?a = "b64_encode (marshal (mint_header kid))" and ?c = "b64_encode (marshal (mint_payload harness_issuer iat_now exp_now))"
  have "unmarshal (marshal (mint_header kid)) = Some (JObj hdr)"
    and "unmarshal (marshal (mint_payload harness_issuer iat_now exp_now)) = Some (JObj m)"
    and "\<And>text. verify ''RS256'' text (sign text) key"
    unfolding p [symmetric] h [symmetric] using laws by (auto simp: minting_laws_def)
  then show ?thesis
    unfolding token mint_def Let_def
    by (intro exI [of _ ?a] exI [of _ ?c] exI [of _ "b64_encode (sign (?a @ ''.'' @ ?c))"]
        exI [of _ "marshal (mint_header kid)"] exI [of _ "marshal (mint_payload harness_issuer iat_now exp_now)"]
        exI [of _ "sign (?a @ ''.'' @ ?c)"]) (simp add: b64_decode_encode)
qed

text \<open>A minted token whose \<^verbatim>\<open>kid\<close> the key source knows is accepted.\<close>

lemma minted_accepted:
  assumes laws: "minting_laws unmarshal verify marshal sign key kid (iat_now, exp_now)" and kid: "kid \<noteq> []"
    and t: "minted_in_time (iat_now, exp_now) now" and k: "key_for kid st = (Inr (Some key), st1)"
  shows "\<exists>tc. parse_keycloak_jwt unmarshal verify key_for harness_issuer uic (30 * second) adm now
      (''Bearer '' @ mint marshal sign harness_issuer iat_now exp_now kid) st = (Inr (Some tc), st1)"
proof -
  obtain m where p: "mint_payload harness_issuer iat_now exp_now = JObj m" by (simp add: mint_payload_def)
  obtain hdr where h: "mint_header kid = JObj hdr" by (simp add: mint_header_def)
  from minted_unverified [OF laws p h refl]
  have "vouched unmarshal verify (\<lambda>kid key. key_for kid st = (Inr (Some key), st1)) (30 * second) now
      (''Bearer '' @ mint marshal sign harness_issuer iat_now exp_now kid) m"
    unfolding vouched_def using mint_members(2) [OF h] kid k minted_valid [OF p t] by fastforce
  moreover obtain tc where "claims_of_token harness_issuer uic adm m = Inr tc"
    using mint_members(1) [OF p] by (auto simp: claims_of_token_Inr parse_string_def)
  ultimately show ?thesis using parse_keycloak_jwt_complete by metis
qed

text \<open>A minted token whose \<^verbatim>\<open>kid\<close> the key source does not know is the error that names it.\<close>

lemma minted_unknown:
  assumes laws: "minting_laws unmarshal verify marshal sign key kid (iat_now, exp_now)" and kid: "kid \<noteq> []"
    and t: "minted_in_time (iat_now, exp_now) now" and k: "key_for kid st = (Inl e, st1)"
  shows "parse_keycloak_jwt unmarshal verify key_for harness_issuer uic (30 * second) adm now
      (''Bearer '' @ mint marshal sign harness_issuer iat_now exp_now kid) st = (Inl (InvalidToken (KeyfuncError (LookupFailed e))), st1)"
proof -
  obtain m where p: "mint_payload harness_issuer iat_now exp_now = JObj m" by (simp add: mint_payload_def)
  obtain hdr where h: "mint_header kid = JObj hdr" by (simp add: mint_header_def)
  obtain a c g hb cb sig where v: "mint marshal sign harness_issuer iat_now exp_now kid = a @ ''.'' @ c @ ''.'' @ g"
      "b64_decode a = Some hb" "Option.bind (unmarshal hb) as_map = Some hdr"
      "b64_decode c = Some cb" "Option.bind (unmarshal cb) as_map = Some m" "b64_decode g = Some sig"
    using minted_unverified [OF laws p h refl] by blast
  let ?s = "a @ ''.'' @ c @ ''.'' @ g"
  let ?tok = "\<lparr>tok_header = hdr, tok_claims = m, tok_alg = ''RS256'', tok_kind = MethodRSA, tok_signature = []\<rparr>"
  have "get_signing_method ''RS256'' = Some MethodRSA"
    by (simp add: get_signing_method_def signing_methods_def)
  then have "(parse_unverified unmarshal ?s :: keyfunc_error jwt_error + _) = Inr (?tok, [a, c, g])"
    unfolding parse_unverified_def split_segments [OF v(2,4,6)] Let_def using v mint_members(2) [OF h] by simp
  then have "parse_with_claims (keycloak_parser (30 * second)) unmarshal verify (keycloak_keyfunc key_for)
      now ?s st = (Inl (KeyfuncError (LookupFailed e)), st1)"
    using v k kid mint_members(2) [OF h] by (simp add: parse_with_claims_def keycloak_keyfunc_def)
  moreover have "trim_prefix (''Bearer '' @ ?s) ''Bearer '' = ?s" by (rule trim_prefix_append)
  ultimately show ?thesis by (simp add: parse_keycloak_jwt_def v(1))
qed

section \<open>The run succeeds\<close>

lemma holds_key_lookup:
  assumes "sound_key key" and "serves key ev" and "holds_key key jwks" and "jwks url = Some jc"
    and "has_suffix url ''/certs''"
  shows "\<exists>jwks1. realm_key_for ev url kid jwks = (if kid = ''k1'' then Inr (Some key) else Inl kid, jwks1) \<and>
    holds_key key jwks1 \<and> jwks1 url \<noteq> None"
proof -
  from assms(3-5) have jc: "jc_url jc = url" "jc_keys jc = [''k1'' \<mapsto> key]" by (auto simp: holds_key_def)
  have "jc_keys (snd (jwks_refresh ev jc)) = [''k1'' \<mapsto> key]"
    by (rule served_refresh [OF assms(1,2)]) (simp add: jc assms(5))
  then show ?thesis
    using assms(3,4) jc by (auto simp: realm_key_for_def key_for_kid_cases Let_def holds_key_def)
qed

lemma minted_probes:
  assumes laws: "minting_laws unmarshal verify marshal sign key kid minted" and "sound_key key" and "serves key ev"
    and "holds_key key jwks" and "jwks url = Some jc" and "has_suffix url ''/certs''"
    and "kid \<noteq> []" and t: "minted_in_time minted now"
  shows "\<exists>jwks1. yaegi_probe_parse unmarshal verify ev (Some url) now
      (mint marshal sign harness_issuer (fst minted) (snd minted) kid) harness_issuer jwks =
      (if kid = ''k1'' then ProbeOk else ProbeErr (InvalidToken (KeyfuncError (LookupFailed kid))), jwks1) \<and>
    holds_key key jwks1 \<and> jwks1 url \<noteq> None"
proof -
  obtain iat_now exp_now where minted: "minted = (iat_now, exp_now)" by (cases minted)
  obtain jwks1 where l: "realm_key_for ev url kid jwks = (if kid = ''k1'' then Inr (Some key) else Inl kid, jwks1)"
    and keep: "holds_key key jwks1" "jwks1 url \<noteq> None"
    using holds_key_lookup [OF assms(2-6)] by blast
  note known = minted_accepted [OF laws [unfolded minted] assms(7) t [unfolded minted], of "probe_key_for ev (Some url)" "(jwks, False)"]
  note unknown = minted_unknown [OF laws [unfolded minted] assms(7) t [unfolded minted], of "probe_key_for ev (Some url)" "(jwks, False)"]
  show ?thesis
  proof (cases "kid = ''k1''")
    case True
    with l have "probe_key_for ev (Some url) kid (jwks, False) = (Inr (Some key), jwks1, False)"
      by (simp add: probe_key_for_def)
    from known [OF this, of "''luid''" "[''admin'']"] True keep show ?thesis
      by (auto simp: yaegi_probe_parse_def minted)
  next
    case False
    with l have "probe_key_for ev (Some url) kid (jwks, False) = (Inl kid, jwks1, False)"
      by (simp add: probe_key_for_def)
    from unknown [OF this, of "''luid''" "[''admin'']"] False keep show ?thesis
      by (auto simp: yaegi_probe_parse_def minted)
  qed
qed

text \<open>The environment of a run: the server is up throughout, the tokens are checked in time.\<close>

definition harness_env_ok :: "rsa_key \<Rightarrow> harness_env \<Rightarrow> bool" where
  "harness_env_ok key he \<longleftrightarrow>
     (\<forall>i url. serves key (ne_jwks (he_new he i) url)) \<and> serves key (he_init he) \<and>
     serves key (he_known he) \<and> minted_in_time (he_known_minted he) (he_known_now he) \<and>
     serves key (he_unknown he) \<and> minted_in_time (he_unknown_minted he) (he_unknown_now he)"

lemma probe_path: "has_suffix (base @ ''/realms/fileconvert/certs'') ''/certs''"
  by (simp add: has_suffix_def suffix_def)

text \<open>
  on the plugin as it is modelled, the checks of the harness yield the exit code 0: with the JWKS server answering its
  document, a sound key, signatures that verify and tokens checked within the hour, all three checks hold, the
  realm binding of 40 instances, the acceptance of the known \<^verbatim>\<open>kid\<close> and the error that names the unknown one.
\<close>

theorem harness_passes:
  assumes "minting_laws unmarshal verify marshal sign key ''k1'' (he_known_minted he)"
    and "minting_laws unmarshal verify marshal sign key ''k-unknown'' (he_unknown_minted he)"
    and "sound_key key" and "harness_env_ok key he" and "sh_jwks sh = Map.empty"
  shows "harness_exit_code (harness_checks (compiled_answers uni rx parse_url unmarshal verify marshal sign he base sh)) = 0"
proof -
  let ?s = "base @ ''/realms/scantinel/certs''" and ?f = "base @ ''/realms/fileconvert/certs''"
  obtain r sh1 where r: "yaegi_probe_realms uni rx parse_url (he_new he) (he_swap he) ?s ?f base 40 sh = (r, sh1)"
    by fastforce
  have env: "\<And>i url. serves key (ne_jwks (he_new he i) url)" "serves key (he_init he)" "serves key (he_known he)"
    "serves key (he_unknown he)" "minted_in_time (he_known_minted he) (he_known_now he)"
    "minted_in_time (he_unknown_minted he) (he_unknown_now he)"
    using assms(4) by (simp_all add: harness_env_ok_def)
  have h0: "holds_key key (sh_jwks sh)" using assms(5) by (simp add: holds_key_def)
  have ok: "r = RealmsOk"
    using probe_instances_ok [OF holds_key_consistent [OF h0], where k = 40 and s = ?s and f = ?f]
      arg_cong [OF r, of fst] unfolding yaegi_probe_realms_def by force
  have "holds_key key (sh_jwks (snd (yaegi_probe_realms uni rx parse_url (he_new he) (he_swap he) ?s ?f base 40 sh)))"
    unfolding yaegi_probe_realms_def by (rule probe_instances_caches [OF assms(3) env(1) h0]) simp_all
  then have "holds_key key (sh_jwks sh1)" by (simp only: r snd_conv)
  then have h1: "holds_key key (get_shared_jwks_cache ?f 100000000 (he_init he) (sh_jwks sh1))" (is "holds_key key ?jwks")
    by (rule holds_key_shared [OF assms(3) env(2)])
  obtain jc where jc: "?jwks ?f = Some jc"
    by (cases "sh_jwks sh1 ?f") (auto simp: get_shared_jwks_cache_def)
  obtain jwks2 where k: "yaegi_probe_parse unmarshal verify (he_known he) (Some ?f) (he_known_now he)
      (mint marshal sign harness_issuer (fst (he_known_minted he)) (snd (he_known_minted he)) ''k1'') harness_issuer ?jwks =
      (ProbeOk, jwks2)" and h2: "holds_key key jwks2" "jwks2 ?f \<noteq> None"
    using minted_probes [OF assms(1,3) env(3) h1 jc probe_path _ env(5)] by auto
  from h2(2) obtain jc2 where jc2: "jwks2 ?f = Some jc2" by blast
  obtain jwks3 where u: "yaegi_probe_parse unmarshal verify (he_unknown he) (Some ?f) (he_unknown_now he)
      (mint marshal sign harness_issuer (fst (he_unknown_minted he)) (snd (he_unknown_minted he)) ''k-unknown'')
      harness_issuer jwks2 = (ProbeErr (InvalidToken (KeyfuncError (LookupFailed ''k-unknown''))), jwks3)"
    using minted_probes [OF assms(2,3) env(4) h2(1) jc2 probe_path _ env(6)] by auto
  show ?thesis
    unfolding compiled_answers_def r yaegi_probe_init_def Let_def prod.case k u ok
    by (simp add: harness_checks_def harness_exit_code_def error_quotes_def)
qed

text \<open>A run on a 2048-bit key, with a codec that knows the documents of the run and a signature of one byte.\<close>

definition run_marshal :: "json \<Rightarrow> string" where
  "run_marshal j = (if j = mint_header ''k1'' then ''h'' else if j = mint_header ''k-unknown'' then ''u'' else ''p'')"

definition run_unmarshal :: "string \<Rightarrow> json option" where
  "run_unmarshal s =
     (if s = ''h'' then Some (mint_header ''k1'') else if s = ''u'' then Some (mint_header ''k-unknown'')
      else if s = ''p'' then Some (mint_payload harness_issuer 0 0) else None)"

definition run_key :: rsa_key where "run_key = \<lparr>rsa_n = 2 ^ 2047 + 1, rsa_e = 65537\<rparr>"

definition run_event :: "int \<Rightarrow> jwks_event" where
  "run_event now = \<lparr>je_now = now, je_refresh_now = now, je_fetch = harness_server run_key\<rparr>"

definition run_env :: harness_env where
  "run_env = \<lparr>he_new = (\<lambda>i. wiring_env\<lparr>ne_jwks := \<lambda>_. run_event (int i)\<rparr>), he_swap = even, he_init = run_event 50,
     he_known = run_event 60, he_known_minted = (0, 0), he_known_now = 60,
     he_unknown = run_event 70, he_unknown_minted = (0, 0), he_unknown_now = 70\<rparr>"

lemma run_laws:
  "minting_laws run_unmarshal (\<lambda>alg text sig key. sig = ''s'' \<and> key = run_key) run_marshal (\<lambda>_. ''s'') run_key ''k1''
     (he_known_minted run_env)"
  "minting_laws run_unmarshal (\<lambda>alg text sig key. sig = ''s'' \<and> key = run_key) run_marshal (\<lambda>_. ''s'') run_key
     ''k-unknown'' (he_unknown_minted run_env)"
  "sound_key run_key" "harness_env_ok run_key run_env" "sh_jwks no_caches = Map.empty"
proof -
  have "mint_payload harness_issuer 0 0 \<noteq> mint_header kid" for kid by (simp add: mint_payload_def mint_header_def)
  moreover have "mint_header ''k-unknown'' \<noteq> mint_header ''k1''" by (simp add: mint_header_def)
  ultimately show
    "minting_laws run_unmarshal (\<lambda>alg text sig key. sig = ''s'' \<and> key = run_key) run_marshal (\<lambda>_. ''s'') run_key ''k1''
       (he_known_minted run_env)"
    "minting_laws run_unmarshal (\<lambda>alg text sig key. sig = ''s'' \<and> key = run_key) run_marshal (\<lambda>_. ''s'') run_key
       ''k-unknown'' (he_unknown_minted run_env)"
    by (simp_all add: minting_laws_def run_env_def run_marshal_def run_unmarshal_def)
  have "(2 :: nat) ^ 1023 \<le> 2 ^ 2047" by (rule power_increasing) simp_all
  then show "sound_key run_key" unfolding sound_key_def run_key_def rsa_key.simps by simp
  show "harness_env_ok run_key run_env"
    by (simp add: harness_env_ok_def run_env_def serves_def run_event_def minted_in_time_def clock_reading_def
        max_int64_def second_def)
  show "sh_jwks no_caches = Map.empty" by (simp add: no_caches_def)
qed

theorem harness_passes_witness:
  "harness_exit_code (harness_checks (compiled_answers (\<lambda>s. s) (\<lambda>_. None) (\<lambda>_. None) run_unmarshal
     (\<lambda>alg text sig key. sig = ''s'' \<and> key = run_key) run_marshal (\<lambda>_. ''s'') run_env ''http://127.0.0.1:1'' no_caches)) = 0"
  by (rule harness_passes [OF run_laws])

section \<open>The cooldown of the probe's cache\<close>

lemma new_gateway_probe_cache:
  assumes "jwks_consistent (sh_jwks sh)" and "f \<noteq> []" and "sh_jwks sh f = None \<or> (\<exists>jc. sh_jwks sh f = Some jc \<and> jc_refetch_cooldown jc = 30000000000)"
    and "new_gateway uni rx parse_url ne (Some (probe_config s f d)) sh = (Inr (gw, limiter, plans), sh1)"
  shows "\<exists>jc. sh_jwks sh1 f = Some jc \<and> jc_refetch_cooldown jc = 30000000000"
proof -
  have "wire_realms ne 30000000000 (probe_realms s f) (sh_jwks sh) = (gw_realms gw, sh_jwks sh1)"
    using probe_new_gateway [OF assms(1), where uni = uni and rx = rx and parse_url = parse_url and ne = ne and s = s and f = f and d = d]
    by (simp add: assms(4))
  then have "sh_jwks sh1 = snd (wire_realms ne 30000000000 (probe_realms s f) (sh_jwks sh))" by simp
  then show ?thesis
    using assms(3) by (auto simp: wire_realms_def probe_realms_def get_shared_jwks_cache_def new_jwks_cache_def split: option.splits)
qed

definition new_cooldown :: "string \<Rightarrow> (string \<rightharpoonup> jwks_cache) \<Rightarrow> bool" where
  "new_cooldown f jwks \<longleftrightarrow> (\<exists>jc. jwks f = Some jc \<and> jc_refetch_cooldown jc = 30000000000)"

lemma probe_instances_cooldown:
  assumes "jwks_consistent (sh_jwks sh)" and "f \<noteq> []"
    and "if k = 0 then new_cooldown f (sh_jwks sh) else sh_jwks sh f = None \<or> new_cooldown f (sh_jwks sh)"
    and "fst (probe_instances uni rx parse_url ne swap s f d k i sh) = RealmsOk"
  shows "new_cooldown f (sh_jwks (snd (probe_instances uni rx parse_url ne swap s f d k i sh)))"
  using assms(1,3,4)
proof (induction k arbitrary: i sh)
  case (Suc k)
  then obtain gw limiter plans sh1 where
    n: "new_gateway uni rx parse_url (ne i) (Some (probe_config s f d)) sh = (Inr (gw, limiter, plans), sh1)"
    by (auto split: prod.splits sum.splits)
  note b = probe_bound [OF Suc.prems(1) n]
  have "new_cooldown f (sh_jwks sh1)"
    using new_gateway_probe_cache [OF Suc.prems(1) assms(2) _ n] Suc.prems(2) by (auto simp: new_cooldown_def)
  with Suc.IH [OF b(3), of "Suc i"] Suc.prems(3) show ?case
    by (simp only: probe_instances_step [where ne = ne and i = i, OF Suc.prems(1) n] if_cancel simp_thms)
qed simp

text \<open>
  \<^verbatim>\<open>YaegiProbeInit\<close> after the realm probe, as \<^verbatim>\<open>main\<close> runs it: the cache of the realm is there already, so the
  cooldown of 100 ms it asks for has no effect, the probe runs with the 30 s of the configuration.
\<close>

theorem probe_init_inherits_cooldown:
  assumes "sh_jwks sh = Map.empty" and "fileconvert \<noteq> []" and "0 < n"
    and "yaegi_probe_realms uni rx parse_url ne swap scantinel fileconvert dummy n sh = (RealmsOk, sh1)"
  shows "yaegi_probe_init fileconvert ev (sh_jwks sh1) = (Some fileconvert, sh_jwks sh1) \<and>
    new_cooldown fileconvert (sh_jwks sh1)"
proof -
  have "jwks_consistent (sh_jwks sh)" using assms(1) by (simp add: jwks_consistent_def)
  from probe_instances_cooldown [OF this assms(2), where k = n and i = 0] assms
  have "new_cooldown fileconvert (sh_jwks sh1)" unfolding yaegi_probe_realms_def by (metis fst_conv snd_conv less_irrefl)
  then show ?thesis by (auto simp: yaegi_probe_init_def get_shared_jwks_cache_def new_cooldown_def)
qed

theorem probe_init_inherits_cooldown_witness:
  "new_cooldown ''v'' (sh_jwks (snd (yaegi_probe_realms (\<lambda>s. s) (\<lambda>_. None) (\<lambda>_. None) (\<lambda>_. wiring_env) even ''u'' ''v'' ''d'' 40 no_caches)))"
proof -
  let ?p = "yaegi_probe_realms (\<lambda>s. s) (\<lambda>_. None) (\<lambda>_. None) (\<lambda>_. wiring_env) even ''u'' ''v'' ''d'' 40 no_caches"
  have "jwks_consistent (sh_jwks no_caches)" by (simp add: jwks_consistent_def no_caches_def)
  from probe_instances_ok [OF this] have "fst ?p = RealmsOk" by (simp add: yaegi_probe_realms_def)
  then have "?p = (RealmsOk, snd ?p)" by (simp add: prod_eq_iff)
  from probe_init_inherits_cooldown [OF _ _ _ this] show ?thesis by (simp add: no_caches_def)
qed

end
