(* ===== verification/Harness_Main.thy ===== *)
theory Harness_Main
  imports Harness
begin

text \<open>
  \<^verbatim>\<open>main\<close> of \<^verbatim>\<open>hack/yaegi-harness/main.go\<close> as a whole: the preparation of the temporary \<^verbatim>\<open>GOPATH\<close>, the key and the
  server, the interpreter, the checks of \<open>Harness\<close>, and how the process ends, by return, by a panic or by
  \<^verbatim>\<open>os.Exit\<close>, with the deferred clean-up each of them does or does not run.  The operating system and the
  interpreter are parameters: what each call to them yields, the answers of the interpreted probes included, which
  need not be those of the compiled ones (that is what the harness is for).
\<close>

section \<open>The outside\<close>

text \<open>
  The arguments; \<^verbatim>\<open>filepath.Abs\<close>; whether a root holds \<^verbatim>\<open>.traefik.yml\<close>; the temporary directory; whether the steps that
  fill it succeed, each for the root and the directory; whether a key is generated; the URL the
  server listens on; the interpreter: its standard library, the import of a path and the expressions
  it evaluates after that import, and what the interpreted probes return when they are called on the server (nothing when a
  call panics); and whether the removal of a directory succeeds.
\<close>

record harness_world =
  hw_args :: "string list"
  hw_abs :: "string \<Rightarrow> string option"
  hw_has_manifest :: "string \<Rightarrow> bool"
  hw_mkdir_temp :: "string option"
  hw_mkdir_all :: "string \<Rightarrow> bool"
  hw_copy_package :: "string \<Rightarrow> string \<Rightarrow> bool"
  hw_write_probe :: "string \<Rightarrow> bool"
  hw_generate_key :: bool
  hw_server_url :: "string option"
  hw_use_stdlib :: bool
  hw_import :: "string \<Rightarrow> bool"
  hw_eval :: "string \<Rightarrow> bool"
  hw_answers :: "string \<Rightarrow> probe_answers option"
  hw_remove_all :: "string \<Rightarrow> bool"

datatype harness_panic =
    NoAbsolutePath | NoTempDir | MkdirFailed | CopyFailed | WriteFailed | NoKey | NoServer
  | StdlibFailed | ImportFailed | EvalFailed string | CallPanicked

datatype harness_outcome = Exits int | Panics harness_panic

text \<open>How the process ended, and the temporary directory if it is still there.\<close>

record harness_end =
  hd_outcome :: harness_outcome
  hd_left_behind :: "string option"

section \<open>The package and its name\<close>

definition harness_import_path :: string where
  "harness_import_path = ''github.com/fileconvert/traefik-gateway-plugin''"

text \<open>\<^verbatim>\<open>filepath.Base\<close> of a path that does not end in a slash, and the package name made of it.\<close>

definition path_base :: "string \<Rightarrow> string" where
  "path_base path = rev (takeWhile (\<lambda>c. c \<noteq> CHR ''/'') (rev path))"

definition harness_package :: string where
  "harness_package = map (\<lambda>c. if c = CHR ''-'' then CHR ''_'' else c) (path_base harness_import_path)"

text \<open>The expressions \<^verbatim>\<open>main\<close> evaluates, in order.\<close>

definition harness_probes :: "string list" where
  "harness_probes = map (\<lambda>name. harness_package @ ''.'' @ name) [''YaegiProbeRealms'', ''YaegiProbeInit'', ''YaegiProbeParse'']"

section \<open>The run\<close>

text \<open>Up to the temporary directory: nothing is deferred yet.\<close>

definition harness_root :: "harness_world \<Rightarrow> harness_outcome + string \<times> string" where
  "harness_root hw =
     (let root0 = (if 1 < length (hw_args hw) then hw_args hw ! 1 else ''../..'') in
      case hw_abs hw root0 of
        None \<Rightarrow> Inl (Panics NoAbsolutePath)
      | Some repo \<Rightarrow>
          if \<not> hw_has_manifest hw repo then Inl (Exits 2)
          else (case hw_mkdir_temp hw of
                  None \<Rightarrow> Inl (Panics NoTempDir)
                | Some gopath \<Rightarrow> Inr (repo, gopath)))"

definition harness_destination :: "string \<Rightarrow> string" where
  "harness_destination gopath = gopath @ ''/src/'' @ harness_import_path"

text \<open>The package in place, the key and the server: the URL of the server.\<close>

definition harness_prepare :: "harness_world \<Rightarrow> string \<Rightarrow> string \<Rightarrow> harness_panic + string" where
  "harness_prepare hw repo gopath =
     (let dst = harness_destination gopath in
      if \<not> hw_mkdir_all hw dst then Inl MkdirFailed
      else if \<not> hw_copy_package hw repo dst then Inl CopyFailed
      else if \<not> hw_write_probe hw dst then Inl WriteFailed
      else if \<not> hw_generate_key hw then Inl NoKey
      else (case hw_server_url hw of None \<Rightarrow> Inl NoServer | Some url \<Rightarrow> Inr url))"

text \<open>The interpreter: the first of its steps that fails.\<close>

definition harness_interpreter :: "harness_world \<Rightarrow> harness_panic option" where
  "harness_interpreter hw =
     (if \<not> hw_use_stdlib hw then Some StdlibFailed
      else if \<not> hw_import hw harness_import_path then Some ImportFailed
      else map_option EvalFailed (find (\<lambda>expr. \<not> hw_eval hw expr) harness_probes))"

text \<open>The deferred removal of the temporary directory, whose error is ignored.\<close>

definition harness_deferred :: "harness_world \<Rightarrow> string \<Rightarrow> harness_outcome \<Rightarrow> harness_end" where
  "harness_deferred hw gopath outcome =
     \<lparr>hd_outcome = outcome, hd_left_behind = (if hw_remove_all hw gopath then None else Some gopath)\<rparr>"

text \<open>
  \<^verbatim>\<open>main\<close>: a return and a panic run the deferred calls, \<^verbatim>\<open>os.Exit\<close> does not.
\<close>

definition harness_main :: "harness_world \<Rightarrow> harness_end" where
  "harness_main hw =
     (case harness_root hw of
        Inl outcome \<Rightarrow> \<lparr>hd_outcome = outcome, hd_left_behind = None\<rparr>
      | Inr (repo, gopath) \<Rightarrow>
          (case harness_prepare hw repo gopath of
             Inl e \<Rightarrow> harness_deferred hw gopath (Panics e)
           | Inr url \<Rightarrow>
               (case harness_interpreter hw of
                  Some e \<Rightarrow> harness_deferred hw gopath (Panics e)
                | None \<Rightarrow>
                    (case hw_answers hw url of
                       None \<Rightarrow> harness_deferred hw gopath (Panics CallPanicked)
                     | Some a \<Rightarrow>
                         (let code = harness_exit_code (harness_checks a) in
                          if code \<noteq> 0 then \<lparr>hd_outcome = Exits code, hd_left_behind = Some gopath\<rparr>
                          else harness_deferred hw gopath (Exits 0))))))"

section \<open>Properties\<close>

lemma harness_package_name: "harness_package = ''traefik_gateway_plugin''"
  by code_simp

text \<open>Everything outside works: the root is the plugin, and each step up to the last evaluation succeeds.\<close>

definition harness_ready :: "harness_world \<Rightarrow> string \<Rightarrow> bool" where
  "harness_ready hw url \<longleftrightarrow>
     (\<exists>repo gopath. harness_root hw = Inr (repo, gopath) \<and> harness_prepare hw repo gopath = Inr url) \<and>
     harness_interpreter hw = None"

text \<open>What the harness is to find: every realm bound to its own cache, and an unknown \<^verbatim>\<open>kid\<close> an error that names it.\<close>

definition as_documented :: "probe_answers \<Rightarrow> bool" where
  "as_documented a \<longleftrightarrow>
     pa_realms a = RealmsOk \<and> pa_known a = ProbeOk \<and> (\<exists>e. pa_unknown a = ProbeErr e \<and> error_quotes ''k-unknown'' e)"

lemma harness_exit_code_checks: "harness_exit_code (harness_checks a) = (if as_documented a then 0 else 1)"
  by (auto simp: harness_exit_code_def harness_checks_def as_documented_def split: probe_result.splits)

lemma harness_main_outcome:
  "hd_outcome (harness_main hw) = Exits 0 \<longleftrightarrow>
     (\<exists>url a. harness_ready hw url \<and> hw_answers hw url = Some a \<and> as_documented a)"
  "hd_outcome (harness_main hw) = Exits 1 \<longleftrightarrow>
     (\<exists>url a. harness_ready hw url \<and> hw_answers hw url = Some a \<and> \<not> as_documented a)"
  by (auto simp: harness_main_def harness_ready_def harness_deferred_def harness_exit_code_checks harness_root_def Let_def
      split: sum.splits option.splits if_splits prod.splits)

lemma harness_main_left:
  assumes "\<And>dir. hw_remove_all hw dir"
  shows "hd_left_behind (harness_main hw) \<noteq> None \<longleftrightarrow> hd_outcome (harness_main hw) = Exits 1"
  using assms by (auto simp: harness_main_def harness_root_def harness_deferred_def harness_exit_code_checks Let_def
      split: sum.splits option.splits if_splits prod.splits)

text \<open>The interpreter computes what the definitions of the probes compute, on a sound server and key.\<close>

definition interprets_faithfully :: "harness_world \<Rightarrow> bool" where
  "interprets_faithfully hw \<longleftrightarrow>
     (\<exists>uni rx parse_url unmarshal verify marshal sign key he sh.
        minting_laws unmarshal verify marshal sign key ''k1'' (he_known_minted he) \<and>
        minting_laws unmarshal verify marshal sign key ''k-unknown'' (he_unknown_minted he) \<and>
        sound_key key \<and> harness_env_ok key he \<and> sh_jwks sh = Map.empty \<and>
        (\<forall>url. hw_answers hw url = Some (compiled_answers uni rx parse_url unmarshal verify marshal sign he url sh)))"

lemma interprets_faithfully_passes:
  assumes "interprets_faithfully hw"
  shows "\<exists>a. hw_answers hw url = Some a \<and> as_documented a"
proof -
  obtain uni rx parse_url unmarshal verify marshal sign key he sh where
    laws: "minting_laws unmarshal verify marshal sign key ''k1'' (he_known_minted he)"
      "minting_laws unmarshal verify marshal sign key ''k-unknown'' (he_unknown_minted he)"
      "sound_key key" "harness_env_ok key he" "sh_jwks sh = Map.empty"
    and a: "hw_answers hw url = Some (compiled_answers uni rx parse_url unmarshal verify marshal sign he url sh)"
    using assms unfolding interprets_faithfully_def by blast
  from harness_passes [OF laws, of uni rx parse_url url] a show ?thesis
    by (simp add: harness_exit_code_checks split: if_splits)
qed

text \<open>
  C40: the harness as a program tells the truth about what the interpreter did.  Whatever the interpreted probes return,
  it exits with 0 exactly when everything outside the plugin worked (the root is the plugin's, the package was copied and
  interpreted, every probe was found under the name derived from the import path, the server runs, no call panicked) and
  they returned what is documented (all realms bound to their own caches, the known \<^verbatim>\<open>kid\<close> accepted, the unknown one an
  error that names it), and with 1 exactly when everything worked and one of them did not.  Assuming that the interpreter
  computes what the model of the plugin computes, against a server with a sound key and with tokens checked within
  the hour, it exits with 0 exactly when everything outside worked, and never with 1.
\<close>

theorem harness_tells_the_truth:
  "(hd_outcome (harness_main hw) = Exits 0 \<longleftrightarrow>
     (\<exists>url a. harness_ready hw url \<and> hw_answers hw url = Some a \<and> as_documented a)) \<and>
   (hd_outcome (harness_main hw) = Exits 1 \<longleftrightarrow>
     (\<exists>url a. harness_ready hw url \<and> hw_answers hw url = Some a \<and> \<not> as_documented a)) \<and>
   (interprets_faithfully hw \<longrightarrow>
     (hd_outcome (harness_main hw) = Exits 0 \<longleftrightarrow> (\<exists>url. harness_ready hw url)) \<and> hd_outcome (harness_main hw) \<noteq> Exits 1)"
  using harness_main_outcome [of hw] interprets_faithfully_passes [of hw] by (metis option.inject)

text \<open>
  A run in a directory \<^verbatim>\<open>/r\<close> where everything works; the interpreter knows the probes by their package, and computes
  them faithfully, or binds a realm to the cache of another (as it once did).
\<close>

definition run_world :: "(string \<Rightarrow> probe_answers option) \<Rightarrow> harness_world" where
  "run_world answers =
     \<lparr>hw_args = [''harness'', ''r''], hw_abs = (\<lambda>p. Some (CHR ''/'' # p)), hw_has_manifest = (\<lambda>p. p = ''/r''),
      hw_mkdir_temp = Some ''/tmp/yaegi-harness-1'', hw_mkdir_all = (\<lambda>_. True), hw_copy_package = (\<lambda>_ _. True),
      hw_write_probe = (\<lambda>_. True), hw_generate_key = True, hw_server_url = Some ''http://127.0.0.1:1'', hw_use_stdlib = True,
      hw_import = (\<lambda>path. path = harness_import_path),
      hw_eval = (\<lambda>expr. expr \<in> {''traefik_gateway_plugin.YaegiProbeRealms'', ''traefik_gateway_plugin.YaegiProbeInit'',
        ''traefik_gateway_plugin.YaegiProbeParse''}),
      hw_answers = answers, hw_remove_all = (\<lambda>_. True)\<rparr>"

abbreviation run_answers :: "string \<Rightarrow> probe_answers" where
  "run_answers \<equiv> \<lambda>url. compiled_answers (\<lambda>s. s) (\<lambda>_. None) (\<lambda>_. None) run_unmarshal
     (\<lambda>alg text sig key. sig = ''s'' \<and> key = run_key) run_marshal (\<lambda>_. ''s'') run_env url no_caches"

abbreviation misbound_answers :: probe_answers where
  "misbound_answers \<equiv> \<lparr>pa_realms = Misbound 3 ''fileconvert'', pa_known = ProbeOk,
     pa_unknown = ProbeErr (InvalidToken (KeyfuncError (LookupFailed ''k-unknown'')))\<rparr>"

lemma run_world_ready: "harness_ready (run_world answers) url \<longleftrightarrow> url = ''http://127.0.0.1:1''"
  by (auto simp: harness_ready_def harness_root_def harness_prepare_def harness_interpreter_def harness_probes_def
      harness_package_name run_world_def Let_def)

lemma run_world_faithful: "interprets_faithfully (run_world (Some \<circ> run_answers))"
  unfolding interprets_faithfully_def
  by (rule exI [of _ "\<lambda>s. s"], rule exI [of _ "\<lambda>_. None"], rule exI [of _ "\<lambda>_. None"], intro exI conjI,
      rule run_laws(1), rule run_laws(2), rule run_laws(3), rule run_laws(4), rule run_laws(5))
    (simp add: run_world_def)

theorem harness_tells_the_truth_witness:
  "hd_outcome (harness_main (run_world (Some \<circ> run_answers))) = Exits 0 \<and>
   hd_outcome (harness_main (run_world (\<lambda>_. Some misbound_answers))) = Exits 1"
  using harness_tells_the_truth [of "run_world (Some \<circ> run_answers)"] run_world_faithful
    harness_tells_the_truth [of "run_world (\<lambda>_. Some misbound_answers)"]
  by (simp add: run_world_ready) (simp add: run_world_def as_documented_def)

section \<open>What a failed run leaves behind\<close>

text \<open>
  when a check fails the process ends in \<^verbatim>\<open>os.Exit(1)\<close>, which skips the deferred removal: the temporary
  directory with the copy of the package stays; every other end, a panic included, removes it if it can be removed.
\<close>

theorem failed_checks_leave_the_copy:
  assumes "\<And>dir. hw_remove_all hw dir"
  shows "hd_left_behind (harness_main hw) \<noteq> None \<longleftrightarrow> hd_outcome (harness_main hw) = Exits 1"
  by (rule harness_main_left [OF assms])

theorem failed_checks_leave_the_copy_witness:
  "hd_left_behind (harness_main (run_world (\<lambda>_. Some misbound_answers))) \<noteq> None"
proof -
  have "hd_outcome (harness_main (run_world (\<lambda>_. Some misbound_answers))) = Exits 1"
    unfolding harness_main_outcome run_world_ready by (simp add: run_world_def as_documented_def)
  then show ?thesis by (intro failed_checks_leave_the_copy [THEN iffD2]) (simp_all add: run_world_def)
qed

end
