(* ===== verification/Quota.thy ===== *)
theory Quota
  imports Decision
begin

text \<open>
  Rate limits end to end: over any history of requests, served by any number of instances in either mode,
  how many requests of one caller for one endpoint are forwarded within one window.
\<close>

section \<open>The limit a forwarded request has passed\<close>

text \<open>The prelude leaves the limiter alone.\<close>

lemma forwarded_engine_limiter:
  assumes d: "headers_distinct (gw_config gw)"
    and fwd: "x_forwarded (serve_http lib gw env (arrives req jwks plans limiter))"
  shows "\<exists>x2 app requested. serve_http lib gw env (arrives req jwks plans limiter) =
      (if gw_policy_mode gw then serve_policy lib gw env app requested x2 else serve_legacy lib gw env app x2) \<and>
    pending x2 \<and> clean (gw_config gw) app (x_req x2) \<and> same_target (x_req x2) req \<and> x_limiter x2 = limiter"
proof -
  let ?x = "arrives req jwks plans limiter"
  obtain x1 x2 app where x1: "serve_cors gw (ensure_request_id env ?x) = Inr x1"
    and x2: "resolve_app lib gw env (strip_trust_headers gw x1) = Inr (x2, app)"
    and p2: "pending x2" and path: "req_path (x_req x2) \<noteq> iam_me_path"
    and run: "serve_http lib gw env ?x = dispatch lib gw env app (trim_space (get_header x1 (cfg_app_id_header (gw_config gw)))) x2"
    using serve_http_forwarded [OF pending_arrives fwd] by blast
  have "x_limiter x1 = limiter"
    using x1 by (auto simp: serve_cors_def ensure_request_id_def arrives_def Let_def split: if_splits)
  then have "x_limiter x2 = limiter"
    using resolve_app_Inr [OF x2] by (auto simp: strip_trust_headers_eq)
  moreover have "same_target (x_req x2) req"
    using prelude_headers(4) [OF d x1 x2] by (simp add: arrives_def)
  ultimately show ?thesis
    using p2 prelude_clean [OF d x1 x2] run path by (auto simp: dispatch_def)
qed

text \<open>
  A forwarded request of a known caller has passed the limit of its own key: \<open>l\<close> is the limiter it was checked
  against, and the plan, the caller and the application are those of its headers.
\<close>

definition passed_limit ::
  "('ev, 's, 'e) libs \<Rightarrow> gateway \<Rightarrow> 'ev env \<Rightarrow> compiled_endpoint \<Rightarrow> 's \<Rightarrow> request \<Rightarrow> bool" where
  "passed_limit lib gw env ep l r \<longleftrightarrow>
     (\<exists>x1. x_limiter x1 = l \<and>
        snd (apply_rate_limit lib gw env ep
          (user_limit_key (get_req_header r (cfg_app_id_header (gw_config gw))) (get_req_header r (cfg_user_id_header (gw_config gw))))
          (get_req_header r (cfg_user_plan_header (gw_config gw))) x1))"

lemma policy_admit_limit:
  assumes d: "headers_distinct (gw_config gw)" and x: "pending x" and c: "clean (gw_config gw) target (x_req x)"
    and fwd: "x_forwarded (policy_admit lib gw env target ep caller x)"
    and user: "get_header (policy_admit lib gw env target ep caller x) (cfg_user_id_header (gw_config gw)) \<noteq> []"
    and plain: "get_header (policy_admit lib gw env target ep caller x) (cfg_is_admin_header (gw_config gw)) \<noteq> ''true''"
  shows "passed_limit lib gw env ep (x_limiter x) (x_req (policy_admit lib gw env target ep caller x))"
proof -
  let ?y = "policy_admit lib gw env target ep caller x"
  obtain x1 key plan w where id: "policy_identity gw env target caller x = (x1, key, plan, w)"
    by (cases "policy_identity gw env target caller x") auto
  have req: "x_req ?y = x_req x1" using policy_admit_forwarded [OF x fwd] by (simp add: id)
  obtain tc pr where caller: "caller = Some (tc, pr)"
    using user clean_absent(1) [OF c d] anonymous_headers [OF d, of "cfg_user_id_header (gw_config gw)" target x] id
    unfolding req by (cases caller) (auto simp: policy_identity_def prod.case_eq_if)
  obtain p ps where r: "resolve_plan (en_plan env) target (tc_user_id tc) (cfg_default_plan_name (gw_config gw)) (x_plans x) = (p, ps)"
    by fastforce
  have x1: "x1 = policy_stamp gw p tc pr target (x\<lparr>x_plans := ps\<rparr>)" and key: "key = user_limit_key target (tc_user_id tc)"
    and plan: "plan = p" and w: "w = is_wildcard (Some pr) target"
    using id by (auto simp: policy_identity_def caller r)
  have "\<not> w" using plain unfolding req x1 w by (auto simp: policy_stamp_headers [OF d])
  moreover have "policy_owner gw ep (map_option fst caller) w x1 = None"
    using fwd policy_owner_Some [OF _ policy_identity_pending [OF id x]]
    by (cases "policy_owner gw ep (map_option fst caller) w x1") (auto simp: policy_admit_def id)
  moreover obtain z ok where z: "apply_rate_limit lib gw env ep key plan x1 = (z, ok)" by fastforce
  moreover have "ok" if "\<not> x_forwarded z \<Longrightarrow> ?y = (if ok then forward z else z)"
    using that fwd apply_rate_limit_settles [OF policy_identity_pending [OF id x] z] by (cases ok) auto
  ultimately have ok: "snd (apply_rate_limit lib gw env ep key plan x1)"
    by (simp add: policy_admit_def id)
  have "x_limiter x1 = x_limiter x" by (simp add: x1 policy_stamp_def Let_def)
  moreover have "get_header x1 (cfg_app_id_header (gw_config gw)) = target"
    "get_header x1 (cfg_user_id_header (gw_config gw)) = tc_user_id tc"
    "get_header x1 (cfg_user_plan_header (gw_config gw)) = p"
    using clean_absent(8) [OF c d] by (simp_all add: x1 policy_stamp_headers [OF d])
  ultimately show ?thesis
    using ok unfolding passed_limit_def req key plan by (intro exI [of _ x1]) simp
qed

lemma legacy_admit_limit:
  assumes d: "headers_distinct (gw_config gw)" and x: "pending x" and c: "clean (gw_config gw) app (x_req x)"
    and fwd: "x_forwarded (legacy_admit lib gw env app ep claims x)"
    and user: "get_header (legacy_admit lib gw env app ep claims x) (cfg_user_id_header (gw_config gw)) \<noteq> []"
  shows "passed_limit lib gw env ep (x_limiter x) (x_req (legacy_admit lib gw env app ep claims x))"
proof -
  let ?y = "legacy_admit lib gw env app ep claims x"
  obtain x1 key plan where id: "legacy_identity gw env app claims x = (x1, key, plan)"
    by (cases "legacy_identity gw env app claims x") auto
  have req: "x_req ?y = x_req x1" using legacy_admit_forwarded [OF x fwd] by (simp add: id)
  obtain tc where claims: "claims = Some tc"
    using user clean_absent(1) [OF c d] anonymous_headers [OF d, of "cfg_user_id_header (gw_config gw)" app x] id
    unfolding req by (cases claims) (auto simp: legacy_identity_def prod.case_eq_if)
  obtain p ps where r: "resolve_plan (en_plan env) app (tc_user_id tc) (cfg_default_plan_name (gw_config gw)) (x_plans x) = (p, ps)"
    by fastforce
  have x1: "x1 = legacy_stamp gw p tc (x\<lparr>x_plans := ps\<rparr>)" and key: "key = user_limit_key app (tc_user_id tc)"
    and plan: "plan = p"
    using id by (auto simp: legacy_identity_def claims r)
  have "legacy_owner gw ep claims x1 = None"
    using fwd legacy_owner_Some [OF _ legacy_identity_pending [OF id x]]
    by (cases "legacy_owner gw ep claims x1") (auto simp: legacy_admit_def id)
  moreover obtain z ok where z: "apply_rate_limit lib gw env ep key plan x1 = (z, ok)" by fastforce
  ultimately have ok: "snd (apply_rate_limit lib gw env ep key plan x1)"
    using fwd apply_rate_limit_settles [OF legacy_identity_pending [OF id x] z]
    by (cases ok) (auto simp: legacy_admit_def id legacy_rate_limit_eq)
  have "x_limiter x1 = x_limiter x" by (simp add: x1 legacy_stamp_def stamp_authz_headers_def Let_def)
  moreover have "get_header x1 (cfg_app_id_header (gw_config gw)) = app"
    "get_header x1 (cfg_user_id_header (gw_config gw)) = tc_user_id tc"
    "get_header x1 (cfg_user_plan_header (gw_config gw)) = p"
    using clean_absent(8) [OF c d] by (simp_all add: x1 legacy_stamp_headers [OF d])
  ultimately show ?thesis
    using ok unfolding passed_limit_def req key plan by (intro exI [of _ x1]) simp
qed

text \<open>A whole engine: the endpoint is the one of the application the request carries.\<close>

lemma policy_identity_app:
  assumes "headers_distinct (gw_config gw)"
  shows "get_header (fst (policy_identity gw env target caller x)) (cfg_app_id_header (gw_config gw)) =
    get_header x (cfg_app_id_header (gw_config gw))"
  by (cases caller) (auto simp: policy_identity_def policy_stamp_headers [OF assms] anonymous_headers [OF assms] prod.case_eq_if)

lemma serve_policy_admits:
  assumes x: "pending x" and y: "y = serve_policy lib gw env app requested x" and fwd: "x_forwarded y"
    and t: "policy_target gw env app requested x = Inr (x1, target)"
    and ep: "match_endpoint (en_match_snapshot env) target (req_method (x_req x)) (req_path (x_req x)) = Some ep"
  shows "\<exists>caller j. y = policy_admit lib gw env target ep caller (x1\<lparr>x_jwks := j\<rparr>)"
proof -
  note tc = policy_target_cases(2) [OF t]
  then have x1: "pending x1" and st: "same_target (x_req x1) (x_req x)" using x by (auto intro: pending_intros)
  have e: "policy_endpoint gw env app target x1 = Inr ep" using ep st by (simp add: policy_endpoint_Inr)
  obtain x2 claims where c: "policy_credential lib gw env target x1 = Inr (x2, claims)"
    using fwd by (cases "policy_credential lib gw env target x1")
      (auto simp: y serve_policy_def t e dest: policy_credential_Inl [OF _ x1])
  then obtain j where x2: "x2 = x1\<lparr>x_jwks := j\<rparr>" using policy_credential_Inr by blast
  then have p2: "pending x2" using x1 by (auto intro: pending_intros)
  have "policy_permission gw ep target (principal_for (en_policy_snapshot env) claims) x2 = None"
    using fwd by (cases "policy_permission gw ep target (principal_for (en_policy_snapshot env) claims) x2")
      (auto simp: y serve_policy_def t e c Let_def dest: policy_permission_Some [OF _ p2])
  then show ?thesis by (auto simp: y serve_policy_def t e c x2 Let_def)
qed

lemma serve_policy_limit:
  assumes d: "headers_distinct (gw_config gw)" and x: "pending x" and c: "clean (gw_config gw) app (x_req x)"
    and y: "y = serve_policy lib gw env app requested x" and fwd: "x_forwarded y"
    and ep: "match_endpoint (en_match_snapshot env) (get_header y (cfg_app_id_header (gw_config gw)))
      (req_method (x_req x)) (req_path (x_req x)) = Some ep"
    and user: "get_header y (cfg_user_id_header (gw_config gw)) \<noteq> []"
    and plain: "get_header y (cfg_is_admin_header (gw_config gw)) \<noteq> ''true''"
  shows "passed_limit lib gw env ep (x_limiter x) (x_req y)"
proof -
  obtain x1 target where t: "policy_target gw env app requested x = Inr (x1, target)"
    using fwd by (cases "policy_target gw env app requested x")
      (auto simp: y serve_policy_def dest: policy_target_cases(1) [OF _ x])
  note tc = policy_target_cases(2) [OF t]
  then have x1: "pending x1" and st: "same_target (x_req x1) (x_req x)" and l1: "x_limiter x1 = x_limiter x"
    using x by (auto intro: pending_intros)
  have c1: "clean (gw_config gw) target (x_req x1)"
    using tc c resolved_target_clean [OF d c] by (auto simp: clean_def)
  show ?thesis
  proof (cases "match_endpoint (en_match_snapshot env) target (req_method (x_req x)) (req_path (x_req x))")
    case None
    with st have "policy_endpoint gw env app target x1 = Inl y" by (simp add: y serve_policy_def t policy_endpoint_def)
    with fwd x1 have "x_req y = x_req x1"
      using deny_settled [OF x1] by (auto simp: policy_endpoint_def split: if_splits option.splits)
    with c1 ep None show ?thesis by (simp add: clean_def)
  next
    case (Some ep1)
    obtain caller j where adm: "y = policy_admit lib gw env target ep1 caller (x1\<lparr>x_jwks := j\<rparr>)"
      using serve_policy_admits [OF x y fwd t Some] by blast
    have p2: "pending (x1\<lparr>x_jwks := j\<rparr>)" and c2: "clean (gw_config gw) target (x_req (x1\<lparr>x_jwks := j\<rparr>))"
      using x1 c1 by (auto intro: pending_intros)
    have "x_req y = x_req (fst (policy_identity gw env target caller (x1\<lparr>x_jwks := j\<rparr>)))"
      using policy_admit_forwarded [OF p2, of lib gw env target ep1 caller] fwd by (simp add: adm)
    then have "get_header y (cfg_app_id_header (gw_config gw)) = target"
      using clean_absent(8) [OF c2 d] by (simp only: policy_identity_app [OF d])
    with ep Some have "ep1 = ep" by simp
    with policy_admit_limit [OF d p2 c2, of lib env ep caller] fwd user plain l1 show ?thesis by (simp add: adm)
  qed
qed

lemma serve_legacy_limit:
  assumes d: "headers_distinct (gw_config gw)" and x: "pending x" and c: "clean (gw_config gw) app (x_req x)"
    and m: "\<not> gw_policy_mode gw" and y: "y = serve_legacy lib gw env app x" and fwd: "x_forwarded y"
    and ep: "match_endpoint (en_match_snapshot env) (get_header y (cfg_app_id_header (gw_config gw)))
      (req_method (x_req x)) (req_path (x_req x)) = Some ep"
    and user: "get_header y (cfg_user_id_header (gw_config gw)) \<noteq> []"
  shows "passed_limit lib gw env ep (x_limiter x) (x_req y)"
proof -
  have "get_header y (cfg_app_id_header (gw_config gw)) = app"
    using serve_legacy_gate [OF d x c m fwd [unfolded y]] by (simp add: y)
  with ep have e: "match_endpoint (en_match_snapshot env) app (req_method (x_req x)) (req_path (x_req x)) = Some ep" by simp
  obtain x1 claims where l: "legacy_credential lib gw env ep app x = Inr (x1, claims)"
    using fwd by (cases "legacy_credential lib gw env ep app x")
      (auto simp: y serve_legacy_def e dest: legacy_credential_Inl [OF _ x])
  have "x_limiter x1 = x_limiter x"
    using l by (auto simp: legacy_credential_def log_shadow_def Let_def split: if_splits prod.splits sum.splits option.splits)
  note cr = legacy_credential_Inr [OF l]
  then have x1: "pending x1" and r1: "x_req x1 = x_req x" using x by blast+
  have "legacy_permission gw ep claims x1 = None"
    using fwd by (cases "legacy_permission gw ep claims x1")
      (auto simp: y serve_legacy_def e l dest: legacy_permission_Some [OF _ x1])
  then have "y = legacy_admit lib gw env app ep claims x1" by (simp add: y serve_legacy_def e l)
  with legacy_admit_limit [OF d x1, of app lib env ep claims] fwd user c r1 \<open>x_limiter x1 = x_limiter x\<close>
  show ?thesis by simp
qed

section \<open>Histories\<close>

text \<open>One request as an instance meets it: the instance, its environment, and the caches and the limiter it finds.\<close>

record visit =
  vi_gateway :: gateway
  vi_env :: "limit_event env"
  vi_request :: request
  vi_jwks :: "string \<rightharpoonup> jwks_cache"
  vi_plans :: plan_resolver
  vi_limiter :: rate_limiter

definition served ::
  "(limit_event, rate_limiter, limit_error) libs \<Rightarrow> visit \<Rightarrow> rate_limiter exchange" where
  "served lib v =
     serve_http lib (vi_gateway v) (vi_env v) (arrives (vi_request v) (vi_jwks v) (vi_plans v) (vi_limiter v))"

text \<open>
  The visits a quota counts: forwarded for the application and the user (no administrator, who is exempt in
  policy mode), at the endpoint, under the plan limit, and within the window that starts at \<open>start\<close>.
\<close>

record quota =
  qu_app :: string
  qu_user :: string
  qu_endpoint :: string
  qu_limit :: int
  qu_seconds :: int
  qu_start :: int

definition within_quota ::
  "(limit_event, rate_limiter, limit_error) libs \<Rightarrow> quota \<Rightarrow> visit \<Rightarrow> bool" where
  "within_quota lib q v \<longleftrightarrow>
     (let cfg = gw_config (vi_gateway v); y = served lib v in
      x_forwarded y \<and> get_header y (cfg_app_id_header cfg) = qu_app q \<and>
      get_header y (cfg_user_id_header cfg) = qu_user q \<and> get_header y (cfg_is_admin_header cfg) \<noteq> ''true'' \<and>
      truncate_time (le_now (en_limit (vi_env v))) (window_of (qu_seconds q)) = qu_start q \<and>
      (case match_endpoint (en_match_snapshot (vi_env v)) (qu_app q) (req_method (vi_request v)) (req_path (vi_request v)) of
         None \<Rightarrow> False
       | Some ep \<Rightarrow> ep_uid ep = qu_endpoint q \<and>
           resolve_rate_limit (vi_gateway v) ep (get_header y (cfg_user_plan_header cfg)) = (qu_limit q, qu_seconds q)))"

text \<open>The check a visit makes, the count Redis answered it, and whether the limiter failed on it.\<close>

definition quota_check :: "visit \<Rightarrow> limit_event \<times> rate_limiter" where
  "quota_check v = (en_limit (vi_env v), vi_limiter v)"

definition quota_reply :: "quota \<Rightarrow> visit \<Rightarrow> int option" where
  "quota_reply q v = incr_reply (user_limit_key (qu_app q) (qu_user q)) (qu_endpoint q) (qu_seconds q) (quota_check v)"

definition limiter_failed :: "quota \<Rightarrow> visit \<Rightarrow> bool" where
  "limiter_failed q v \<longleftrightarrow>
     (case fst (limiter_check (en_limit (vi_env v)) (user_limit_key (qu_app q) (qu_user q)) (qu_endpoint q)
                  (qu_limit q) (qu_seconds q) (vi_limiter v)) of
        CheckError _ \<Rightarrow> True | _ \<Rightarrow> False)"

lemma apply_rate_limit_lets_on:
  assumes "rate_limited gw" and "resolve_rate_limit gw ep plan = (limit, window)" and "0 < limit"
  shows "snd (apply_rate_limit lib gw env ep key plan x) \<longleftrightarrow>
    (case fst (lib_check lib (en_limit env) key (ep_uid ep) limit window (x_limiter x)) of
       CheckPanic \<Rightarrow> False | CheckError _ \<Rightarrow> True | Checked r \<Rightarrow> rlr_allowed r)"
  using assms by (cases "lib_check lib (en_limit env) key (ep_uid ep) limit window (x_limiter x)")
    (auto simp: apply_rate_limit_def rate_limited_def Let_def split: check_result.split)

lemma within_quota_admitted:
  assumes lib: "lib_check lib = limiter_check" and d: "headers_distinct (gw_config (vi_gateway v))"
    and r: "rate_limited (vi_gateway v)" and l: "0 < qu_limit q" and u: "qu_user q \<noteq> []"
    and w: "within_quota lib q v"
  shows "limiter_failed q v \<or>
    admitted (user_limit_key (qu_app q) (qu_user q)) (qu_endpoint q) (qu_limit q) (qu_seconds q) (quota_check v)"
proof -
  let ?gw = "vi_gateway v" and ?env = "vi_env v" and ?y = "served lib v"
  obtain ep where fwd: "x_forwarded ?y"
    and h: "get_header ?y (cfg_app_id_header (gw_config ?gw)) = qu_app q"
      "get_header ?y (cfg_user_id_header (gw_config ?gw)) = qu_user q"
      "get_header ?y (cfg_is_admin_header (gw_config ?gw)) \<noteq> ''true''"
    and ep: "match_endpoint (en_match_snapshot ?env) (qu_app q) (req_method (vi_request v)) (req_path (vi_request v)) = Some ep"
    and lim: "ep_uid ep = qu_endpoint q"
      "resolve_rate_limit ?gw ep (get_header ?y (cfg_user_plan_header (gw_config ?gw))) = (qu_limit q, qu_seconds q)"
    using w by (auto simp: within_quota_def Let_def split: option.splits)
  obtain x2 app requested where y: "?y =
      (if gw_policy_mode ?gw then serve_policy lib ?gw ?env app requested x2 else serve_legacy lib ?gw ?env app x2)"
    and x2: "pending x2" "clean (gw_config ?gw) app (x_req x2)" "same_target (x_req x2) (vi_request v)"
      "x_limiter x2 = vi_limiter v"
    using forwarded_engine_limiter [OF d fwd [unfolded served_def]] unfolding served_def by blast
  have "passed_limit lib ?gw ?env ep (vi_limiter v) (x_req ?y)"
  proof (cases "gw_policy_mode ?gw")
    case True
    then show ?thesis
      using serve_policy_limit [OF d x2(1,2) _ fwd, of lib ?env requested ep] y h ep u x2(3,4) by simp
  next
    case False
    then show ?thesis
      using serve_legacy_limit [OF d x2(1,2) False _ fwd, of lib ?env ep] y h ep u x2(3,4) by simp
  qed
  then obtain x1 :: "rate_limiter exchange" where "x_limiter x1 = vi_limiter v"
    and "snd (apply_rate_limit lib ?gw ?env ep (user_limit_key (qu_app q) (qu_user q))
      (get_header ?y (cfg_user_plan_header (gw_config ?gw))) x1)"
    unfolding passed_limit_def h by blast
  then show ?thesis
    unfolding apply_rate_limit_lets_on [OF r lim(2) l] lim(1) lib
    by (simp add: limiter_failed_def admitted_def quota_check_def split: check_result.splits)
qed

lemma length_filter_mono: "(\<And>x. x \<in> set xs \<Longrightarrow> P x \<Longrightarrow> Q x) \<Longrightarrow> length (filter P xs) \<le> length (filter Q xs)"
  by (induction xs) auto

text \<open>
  C17: a quota holds end to end.  Take any requests served by any instances, in either mode and in any order, with
  the Redis limiter in place and headers that do not clash.  Of those that are forwarded for one (non-administrator)
  user, application, endpoint, plan limit and window, at most \<open>limit\<close> have been let on by the limiter; the
  others were forwarded because the limiter failed on them.  Assumed of Redis: the counts it answers to
  these requests are positive and no count is answered twice.
\<close>

theorem forwarded_within_quota:
  assumes "lib_check lib = limiter_check" and "0 < qu_limit q" and "qu_user q \<noteq> []"
    and "\<And>v. v \<in> set vs \<Longrightarrow> headers_distinct (gw_config (vi_gateway v)) \<and> rate_limited (vi_gateway v)"
    and "distinct (List.map_filter (quota_reply q) (filter (within_quota lib q) vs))"
    and "\<And>n. n \<in> set (List.map_filter (quota_reply q) (filter (within_quota lib q) vs)) \<Longrightarrow> 1 \<le> n"
  shows "length (filter (within_quota lib q) vs) \<le>
    nat (qu_limit q) + length (filter (\<lambda>v. within_quota lib q v \<and> limiter_failed q v) vs)"
proof -
  let ?adm = "admitted (user_limit_key (qu_app q) (qu_user q)) (qu_endpoint q) (qu_limit q) (qu_seconds q)"
  let ?ws = "filter (within_quota lib q) vs"
  have reply: "quota_reply q = incr_reply (user_limit_key (qu_app q) (qu_user q)) (qu_endpoint q) (qu_seconds q) \<circ> quota_check"
    by (simp add: fun_eq_iff quota_reply_def)
  have hits: "List.map_filter (incr_reply (user_limit_key (qu_app q) (qu_user q)) (qu_endpoint q) (qu_seconds q))
      (map quota_check ?ws) = List.map_filter (quota_reply q) ?ws"
    by (simp add: reply List.map_filter_def filter_map comp_def)
  have "length (filter ?adm (map quota_check ?ws)) \<le> nat (qu_limit q)"
    by (rule admitted_bound) (use assms(2,5,6) hits in simp_all)
  moreover have "limiter_failed q v \<or> ?adm (quota_check v)" if "v \<in> set ?ws" for v
    using that assms(4) by (intro within_quota_admitted [OF assms(1) _ _ assms(2,3)]) auto
  then have "length (filter (\<lambda>v. \<not> limiter_failed q v) ?ws) \<le> length (filter (?adm \<circ> quota_check) ?ws)"
    by (intro length_filter_mono) auto
  moreover have "length (filter (limiter_failed q) ?ws) + length (filter (\<lambda>v. \<not> limiter_failed q v) ?ws) = length ?ws"
    by (rule sum_length_filter_compl)
  ultimately show ?thesis by (simp add: filter_map comp_def conj_commute)
qed

text \<open>The demo deployment with a limit of one request a minute, and two requests of its caller in one minute.\<close>

definition quota_libs :: "(limit_event, rate_limiter, limit_error) libs" where
  "quota_libs = \<lparr>lib_uni = lib_uni demo_libs, lib_unmarshal = lib_unmarshal demo_libs, lib_verify = lib_verify demo_libs,
     lib_check = limiter_check\<rparr>"

definition quota_gateway :: gateway where
  "quota_gateway = (demo_gateway True)\<lparr>gw_has_limiter := True, gw_config := demo_config\<lparr>cfg_default_rate_limit_requests := 1\<rparr>\<rparr>"

definition quota_env :: "limit_event env" where
  "quota_env = \<lparr>en_random = None, en_nano = 26, en_resolve_registry = demo_registry, en_cold_registry = demo_registry,
     en_active_registry = demo_registry, en_ids_registry = demo_registry, en_loaded_snapshot = demo_snapshot,
     en_match_snapshot = demo_snapshot, en_host_match_snapshot = demo_snapshot, en_policy_snapshot = demo_snapshot,
     en_jwt_now = 0, en_jwks = \<lparr>je_now = 0, je_refresh_now = 0, je_fetch = \<lambda>_. TransportFailed\<rparr>,
     en_plan = \<lparr>ple_now = 0, ple_store_now = 0, ple_fetch = \<lambda>_. TransportFailed\<rparr>, en_limit = sample_limit_event,
     en_retry_now = 0\<rparr>"

definition quota_visit :: "string \<Rightarrow> visit" where
  "quota_visit replies = \<lparr>vi_gateway = quota_gateway, vi_env = quota_env, vi_request = demo_request, vi_jwks = demo_jwks,
     vi_plans = new_plan_resolver [], vi_limiter = sample_limiter replies\<rparr>"

abbreviation first_visit :: visit where
  "first_visit \<equiv> quota_visit (CHR '':'' # CHR ''1'' # CHR 0x0D # CHR 0x0A # '':1'' @ crlf)"

abbreviation second_visit :: visit where
  "second_visit \<equiv> quota_visit (CHR '':'' # CHR ''2'' # CHR 0x0D # CHR 0x0A # [])"

definition one_a_minute :: quota where
  "one_a_minute = \<lparr>qu_app = ''a'', qu_user = ''42'', qu_endpoint = ep_uid demo_endpoint, qu_limit = 1, qu_seconds = 60, qu_start = 0\<rparr>"

lemma first_visit_counts: "within_quota quota_libs one_a_minute first_visit"
  by code_simp

lemma quota_reply_sample:
  "is_digit d \<Longrightarrow> quota_reply q (quota_visit (CHR '':'' # d # CHR 0x0D # CHR 0x0A # rest)) = Some (int (digit_val d))"
  by (simp add: quota_reply_def quota_check_def quota_visit_def quota_env_def sample_incr_reply)

theorem forwarded_within_quota_witness:
  "within_quota quota_libs one_a_minute first_visit \<and>
   length (filter (within_quota quota_libs one_a_minute) [first_visit, second_visit]) \<le>
     nat 1 + length (filter (\<lambda>v. within_quota quota_libs one_a_minute v \<and> limiter_failed one_a_minute v) [first_visit, second_visit])"
proof
  show "within_quota quota_libs one_a_minute first_visit" by (rule first_visit_counts)
  have lim: "qu_limit one_a_minute = 1" by (simp add: one_a_minute_def)
  have hits: "List.map_filter (quota_reply one_a_minute) [first_visit, second_visit] = [1, 2]"
    by (simp add: List.map_filter_def quota_reply_sample is_digit_def digit_val_def of_char_le)
  have "headers_distinct (gw_config quota_gateway)" by code_simp
  then have dep: "headers_distinct (gw_config (vi_gateway v)) \<and> rate_limited (vi_gateway v)"
    if "v \<in> set [first_visit, second_visit]" for v
    using that by (auto simp: quota_visit_def rate_limited_def quota_gateway_def demo_config_def create_config_def)
  show "length (filter (within_quota quota_libs one_a_minute) [first_visit, second_visit]) \<le>
     nat 1 + length (filter (\<lambda>v. within_quota quota_libs one_a_minute v \<and> limiter_failed one_a_minute v) [first_visit, second_visit])"
  proof (rule forwarded_within_quota [of quota_libs one_a_minute, unfolded lim])
    show "lib_check quota_libs = limiter_check" by (simp add: quota_libs_def)
    show "qu_user one_a_minute \<noteq> []" by (simp add: one_a_minute_def)
    show "distinct (List.map_filter (quota_reply one_a_minute) (filter (within_quota quota_libs one_a_minute) [first_visit, second_visit]))"
      by (rule map_filter_sub) (simp only: hits, simp)
    show "1 \<le> n" if "n \<in> set (List.map_filter (quota_reply one_a_minute) (filter (within_quota quota_libs one_a_minute) [first_visit, second_visit]))" for n
    proof -
      have "n \<in> set (List.map_filter (quota_reply one_a_minute) [first_visit, second_visit])"
        using that by (auto simp: List.map_filter_def simp del: filter.simps)
      then show ?thesis unfolding hits by auto
    qed
  qed (use dep in simp_all)
qed

end
