(* ===== verification/Introspect.thy ===== *)
theory Introspect
  imports Decision
begin

text \<open>
  Introspection end to end: what \<^verbatim>\<open>GET /api/_iam/me\<close> answers, and that it agrees with enforcement.
\<close>

section \<open>The document\<close>

text \<open>The applications introspection lists: the active ones, or the host's where none is known.\<close>

definition introspected_apps :: "gateway \<Rightarrow> 'ev env \<Rightarrow> string \<Rightarrow> string list" where
  "introspected_apps gw env app =
     (let listed = (if gw_has_registry gw then active_app_ids (en_ids_registry env) else [])
      in if listed = [] \<and> app \<noteq> [] then [app] else listed)"

text \<open>What the document says of the caller is what enforcement does.\<close>

definition truthful :: "gateway \<Rightarrow> 'ev env \<Rightarrow> string list \<Rightarrow> token_claims \<Rightarrow> identity_doc \<Rightarrow> bool" where
  "truthful gw env apps tc d \<longleftrightarrow>
     me_subject d = tc_subject tc \<and> me_user_id d = tc_user_id tc \<and> me_home_app d = tc_app_id tc \<and>
     me_roles d = tc_qualified_roles tc \<and> dom (me_permissions d) \<subseteq> set apps \<and>
     (\<forall>app \<in> set apps. \<forall>perm. perm \<noteq> [] \<longrightarrow>
        (granted (principal_for (en_policy_snapshot env) (Some tc)) perm app \<longleftrightarrow>
         (\<exists>pats. me_permissions d app = Some pats \<and> sorted pats \<and> distinct pats \<and> (\<exists>a \<in> set pats. match_action a perm))))"

lemma resolve_statements_identity:
  "pr_subject (resolve_statements p idx) = pr_subject p" "pr_user_id (resolve_statements p idx) = pr_user_id p"
  "pr_home_app (resolve_statements p idx) = pr_home_app p" "pr_roles (resolve_statements p idx) = pr_roles p"
  by (simp_all add: resolve_statements_def Let_def split: option.split prod.split)

lemma identity_doc_truthful:
  assumes "principal_for (en_policy_snapshot env) (Some tc) = Some pr"
  shows "truthful gw env apps tc (identity_doc_of pr apps)"
proof -
  have f: "pr_subject pr = tc_subject tc" "pr_user_id pr = tc_user_id tc" "pr_home_app pr = tc_app_id tc"
    "pr_roles pr = tc_qualified_roles tc"
    using assms by (auto simp: principal_for_def resolve_statements_identity)
  have "dom (permissions_by_app (Some pr) apps) \<subseteq> set apps"
    by (auto simp: permissions_by_app_Some split: if_splits)
  then show ?thesis
    by (simp add: truthful_def assms identity_doc_of_def f permissions_by_app_agrees)
qed

text \<open>
  C33: introspection tells the truth.  A \<^verbatim>\<open>GET /api/_iam/me\<close> whose credential authenticates is answered with 200 and
  one document about the caller: the identity of the token and, for every application that is active, permission
  patterns that match exactly the permissions the policy engine would grant that caller there.  Without a caller it is
  answered with 401.  It is never forwarded.
\<close>

theorem introspection_tells_the_truth:
  assumes "headers_distinct (gw_config gw)" and "req_method req = ''GET''" and "req_path req = iam_me_path"
    and "\<not> snapshot_cold gw env" and "host_application lib gw env req = Some app"
    and "authenticate lib gw env app (get_req_header req (cfg_jwt_header_key (gw_config gw))) jwks = (res, j)"
    and "y = serve_http lib gw env (arrives req jwks plans limiter)"
  shows "\<not> x_forwarded y \<and>
    (case res of
       Inr (Some tc) \<Rightarrow> rsp_status (x_rw y) = Some 200 \<and>
         (\<exists>d. rsp_body (x_rw y) = [IdentityDoc d] \<and> truthful gw env (introspected_apps gw env app) tc d)
     | _ \<Rightarrow> rsp_status (x_rw y) = Some 401)"
proof -
  obtain x2 where run: "y = dispatch lib gw env app (trim_space (get_req_header req (cfg_app_id_header (gw_config gw)))) x2"
    and p: "pending x2" and st: "same_target (x_req x2) req" and j: "x_jwks x2 = jwks"
    and jwt: "get_header x2 (cfg_jwt_header_key (gw_config gw)) = get_req_header req (cfg_jwt_header_key (gw_config gw))"
    and body: "rsp_body (x_rw x2) = []"
    using prelude_reached [OF assms(1) _ assms(4,5), of jwks plans limiter] assms(2,7) by auto
  have y: "y = serve_iam_me lib gw env app x2" using run st assms(3) by (simp add: dispatch_def)
  note un = pending_unanswered [OF p]
  have fw: "\<not> x_forwarded y" using serve_iam_me_settles [OF p] y by blast
  show ?thesis
  proof (cases res)
    case (Inl e)
    then show ?thesis using fw un assms(2,6) st j jwt
      by (simp add: y serve_iam_me_def deny_def)
  next
    case (Inr claims)
    show ?thesis
    proof (cases claims)
      case None
      then show ?thesis using fw un assms(2,6) st j jwt Inr
        by (simp add: y serve_iam_me_def deny_def principal_for_def)
    next
      case (Some tc)
      obtain pr where pr: "principal_for (en_policy_snapshot env) (Some tc) = Some pr"
        by (simp add: principal_for_def)
      have run: "y = reply 200 (IdentityDoc (identity_doc_of pr (introspected_apps gw env app))) (x2\<lparr>x_jwks := j\<rparr>)"
        using assms(2,6) st j jwt Inr Some pr by (simp add: y serve_iam_me_def introspected_apps_def Let_def)
      then have "rsp_status (x_rw y) = Some 200" using un by simp
      moreover have "rsp_body (x_rw y) = [IdentityDoc (identity_doc_of pr (introspected_apps gw env app))]"
        using un body by (simp add: run write_json_def write_header_def set_rsp_header_def Let_def)
      ultimately show ?thesis using fw identity_doc_truthful [OF pr] Inr Some by auto
    qed
  qed
qed

text \<open>The demo caller's introspection.\<close>

definition introspection_request :: request where
  "introspection_request = demo_request\<lparr>req_path := iam_me_path\<rparr>"

theorem introspection_tells_the_truth_witness:
  "let y = serve_http demo_libs (demo_gateway True) demo_env (arrives introspection_request demo_jwks (new_plan_resolver []) ())
   in rsp_status (x_rw y) = Some 200 \<and>
      (\<exists>tc d. rsp_body (x_rw y) = [IdentityDoc d] \<and> truthful (demo_gateway True) demo_env [''a''] tc d)"
proof -
  let ?auth = "authenticate demo_libs (demo_gateway True) demo_env ''a'' ''Bearer aA.Yw.cw'' demo_jwks"
  let ?y = "serve_http demo_libs (demo_gateway True) demo_env (arrives introspection_request demo_jwks (new_plan_resolver []) ())"
  have "case fst ?auth of Inr (Some tc) \<Rightarrow> True | _ \<Rightarrow> False" by code_simp
  then obtain tc j where a: "?auth = (Inr (Some tc), j)"
    by (cases ?auth) (auto split: sum.splits option.splits)
  have h: "get_req_header introspection_request (cfg_jwt_header_key (gw_config (demo_gateway True))) = ''Bearer aA.Yw.cw''"
    "req_method introspection_request = ''GET''" "req_path introspection_request = iam_me_path"
    "\<not> snapshot_cold (demo_gateway True) demo_env"
    "host_application demo_libs (demo_gateway True) demo_env introspection_request = Some ''a''"
    "introspected_apps (demo_gateway True) demo_env ''a'' = [''a'']"
    "headers_distinct (gw_config (demo_gateway True))"
    by code_simp+
  from introspection_tells_the_truth [OF h(7,2,3,4,5) a [folded h(1)] refl, of "new_plan_resolver []" "()"]
  show ?thesis by (auto simp: Let_def h(6))
qed

end
