(* ===== verification/Plans.thy ===== *)
theory Plans
  imports Jwks Identity
begin

text \<open>
  \<^verbatim>\<open>PlanResolver.Resolve\<close> (\<^verbatim>\<open>identity.go\<close>) under concurrency.  Requests resolve plans in parallel and share
  the cache; a call holds the lock of the cache only to read an entry and to store one, and asks the
  rate-tier endpoint in between without it.  Those are its atomic steps; the theory shows what a call can
  be served under every interleaving of them, and that a call nobody interferes with is \<open>resolve_plan\<close>.
\<close>

section \<open>Calls and their steps\<close>

text \<open>
  A call for an application and a user, with its default plan: not started; past a cache miss; holding the
  name the endpoint gave; served, with the instant of its last clock reading or of the answer that failed.
\<close>

datatype plan_call =
    Reads string string string
  | Asks string string string
  | Stores string string string string
  | Served string string string string int

definition plan_read :: "int \<Rightarrow> plan_resolver \<Rightarrow> string \<Rightarrow> string \<Rightarrow> string \<Rightarrow> plan_call" where
  "plan_read now pr app_id user_id default_plan =
     (case plr_cache pr (plan_cache_key app_id user_id) of
        None \<Rightarrow> Asks app_id user_id default_plan
      | Some entry \<Rightarrow>
          if now < pce_expires_at entry then Served app_id user_id default_plan (pce_plan entry) now
          else Asks app_id user_id default_plan)"

definition plan_ask ::
  "int \<Rightarrow> (plan_request \<Rightarrow> json http_outcome) \<Rightarrow> plan_resolver \<Rightarrow> string \<Rightarrow> string \<Rightarrow> string \<Rightarrow> plan_call" where
  "plan_ask now fetch pr app_id user_id default_plan =
     (case plan_of_answer (fetch (rate_tier_request (plr_base_url pr) app_id user_id)) of
        None \<Rightarrow> Served app_id user_id default_plan default_plan now
      | Some name \<Rightarrow> Stores app_id user_id default_plan name)"

definition plan_store :: "int \<Rightarrow> string \<Rightarrow> string \<Rightarrow> string \<Rightarrow> plan_resolver \<Rightarrow> plan_resolver" where
  "plan_store now app_id user_id name pr =
     pr\<lparr>plr_cache := (plr_cache pr)(plan_cache_key app_id user_id \<mapsto>
       \<lparr>pce_plan = name, pce_expires_at = now + plan_cache_ttl\<rparr>)\<rparr>"

text \<open>One atomic step of a call at the instant \<open>now\<close>; \<open>None\<close> when it has been served.\<close>

fun plan_step ::
  "int \<Rightarrow> (plan_request \<Rightarrow> json http_outcome) \<Rightarrow> plan_resolver \<Rightarrow> plan_call \<Rightarrow> (plan_resolver \<times> plan_call) option" where
  "plan_step now fetch pr (Reads a u d) = Some (pr, plan_read now pr a u d)"
| "plan_step now fetch pr (Asks a u d) = Some (pr, plan_ask now fetch pr a u d)"
| "plan_step now fetch pr (Stores a u d name) = Some (plan_store now a u name pr, Served a u d name now)"
| "plan_step now fetch pr (Served a u d name t) = None"

text \<open>
  The process: the shared cache, the calls, the clock (which Go reads monotonically), and what the
  endpoint has answered so far: the instant, the URL and the plan it named, if it named one.
\<close>

record plan_system =
  ps_resolver :: plan_resolver
  ps_calls :: "plan_call list"
  ps_clock :: int
  ps_answers :: "(int \<times> string \<times> string option) set"

fun plan_answered :: "int \<Rightarrow> (plan_request \<Rightarrow> json http_outcome) \<Rightarrow> string \<Rightarrow> plan_call \<Rightarrow> (int \<times> string \<times> string option) set" where
  "plan_answered now fetch base (Asks a u d) =
     {(now, rate_tier_url base a u, plan_of_answer (fetch (rate_tier_request base a u)))}"
| "plan_answered now fetch base _ = {}"

inductive plan_system_step :: "plan_system \<Rightarrow> plan_system \<Rightarrow> bool" where
  call: "i < length (ps_calls s) \<Longrightarrow> ps_clock s \<le> now \<Longrightarrow>
   plan_step now fetch (ps_resolver s) (ps_calls s ! i) = Some (pr, c) \<Longrightarrow>
   plan_system_step s (s\<lparr>ps_resolver := pr, ps_calls := (ps_calls s)[i := c], ps_clock := now,
     ps_answers := ps_answers s \<union> plan_answered now fetch (plr_base_url (ps_resolver s)) (ps_calls s ! i)\<rparr>)"
| arrive: "positive_numeral u \<Longrightarrow> plan_system_step s (s\<lparr>ps_calls := ps_calls s @ [Reads a u d]\<rparr>)"

inductive_cases plan_system_stepE: "plan_system_step s t"

definition plan_start :: "string \<Rightarrow> int \<Rightarrow> plan_system" where
  "plan_start base now = \<lparr>ps_resolver = new_plan_resolver base, ps_calls = [], ps_clock = now, ps_answers = {}\<rparr>"

section \<open>A call that runs alone\<close>

fun run_plan :: "(int \<times> (plan_request \<Rightarrow> json http_outcome)) list \<Rightarrow> plan_resolver \<Rightarrow> plan_call \<Rightarrow> plan_resolver \<times> plan_call" where
  "run_plan [] pr c = (pr, c)"
| "run_plan ((now, fetch) # steps) pr c =
     (case plan_step now fetch pr c of None \<Rightarrow> (pr, c) | Some (pr1, c1) \<Rightarrow> run_plan steps pr1 c1)"

text \<open>
  the atomic steps refine the sequential resolver: run to the end without interference (three steps are
  enough) they leave the cache of \<open>resolve_plan\<close> and serve its plan.
\<close>

theorem plan_steps_refine_resolve_plan:
  "\<exists>t. run_plan [(ple_now ev, ple_fetch ev), (asked, ple_fetch ev), (ple_store_now ev, ple_fetch ev)] pr (Reads a u d) =
     (snd (resolve_plan ev a u d pr), Served a u d (fst (resolve_plan ev a u d pr)) t)"
  by (auto simp: resolve_plan_def plan_read_def plan_ask_def plan_store_def Let_def split: option.split)

section \<open>Schedules\<close>

text \<open>An executable run of the process: which call arrives, or which one moves, when, and what it is answered.\<close>

datatype plan_move = Arrives string string string | Moves nat int "plan_request \<Rightarrow> json http_outcome"

fun run_moves :: "plan_move list \<Rightarrow> plan_system \<Rightarrow> plan_system option" where
  "run_moves [] s = Some s"
| "run_moves (Arrives a u d # ms) s =
     (if positive_numeral u then run_moves ms (s\<lparr>ps_calls := ps_calls s @ [Reads a u d]\<rparr>) else None)"
| "run_moves (Moves i now fetch # ms) s =
     (if i < length (ps_calls s) \<and> ps_clock s \<le> now then
        (case plan_step now fetch (ps_resolver s) (ps_calls s ! i) of
           None \<Rightarrow> None
         | Some (pr, c) \<Rightarrow> run_moves ms (s\<lparr>ps_resolver := pr, ps_calls := (ps_calls s)[i := c], ps_clock := now,
             ps_answers := ps_answers s \<union> plan_answered now fetch (plr_base_url (ps_resolver s)) (ps_calls s ! i)\<rparr>))
      else None)"

lemma run_moves_steps: "run_moves ms s = Some t \<Longrightarrow> plan_system_step\<^sup>*\<^sup>* s t"
  by (induction ms s rule: run_moves.induct)
    (auto split: if_splits option.splits intro: converse_rtranclp_into_rtranclp plan_system_step.intros)

section \<open>What a call is served\<close>

text \<open>
  Named by the endpoint of the very application and user at some instant, and stored at \<open>stored\<close>.
\<close>

definition answered_by :: "string \<Rightarrow> (int \<times> string \<times> string option) set \<Rightarrow> string \<Rightarrow> string \<Rightarrow> string \<Rightarrow> int \<Rightarrow> bool" where
  "answered_by base answers a u plan stored \<longleftrightarrow> (\<exists>t \<le> stored. (t, rate_tier_url base a u, Some plan) \<in> answers)"

definition entries_ok :: "plan_system \<Rightarrow> bool" where
  "entries_ok s \<longleftrightarrow> (\<forall>k e. plr_cache (ps_resolver s) k = Some e \<longrightarrow>
     (\<exists>a u stored. k = plan_cache_key a u \<and> positive_numeral u \<and> stored \<le> ps_clock s \<and>
        pce_expires_at e = stored + plan_cache_ttl \<and>
        answered_by (plr_base_url (ps_resolver s)) (ps_answers s) a u (pce_plan e) stored))"

fun call_ok :: "string \<Rightarrow> (int \<times> string \<times> string option) set \<Rightarrow> int \<Rightarrow> plan_call \<Rightarrow> bool" where
  "call_ok base answers now (Stores a u d plan) = (positive_numeral u \<and> answered_by base answers a u plan now)"
| "call_ok base answers now (Served a u d plan t) =
     (t \<le> now \<and> (plan = d \<and> (t, rate_tier_url base a u, None) \<in> answers \<or>
       (\<exists>stored. stored \<le> t \<and> t < stored + plan_cache_ttl \<and> answered_by base answers a u plan stored)))"
| "call_ok base answers now (Reads a u d) = positive_numeral u"
| "call_ok base answers now (Asks a u d) = positive_numeral u"

definition plan_inv :: "string \<Rightarrow> plan_system \<Rightarrow> bool" where
  "plan_inv base s \<longleftrightarrow> plr_base_url (ps_resolver s) = base \<and> entries_ok s \<and>
     list_all (call_ok base (ps_answers s) (ps_clock s)) (ps_calls s)"

lemma answered_by_mono:
  "answered_by base answers a u plan stored \<Longrightarrow> answers \<subseteq> answers' \<Longrightarrow> stored \<le> stored' \<Longrightarrow>
   answered_by base answers' a u plan stored'"
  unfolding answered_by_def by (meson order_trans subsetD)

lemma call_ok_mono:
  "call_ok base answers now c \<Longrightarrow> answers \<subseteq> answers' \<Longrightarrow> now \<le> now' \<Longrightarrow> call_ok base answers' now' c"
  by (cases c) (auto intro: answered_by_mono)

lemma plan_step_base: "plan_step now fetch pr c = Some (pr1, c1) \<Longrightarrow> plr_base_url pr1 = plr_base_url pr"
  by (cases c) (auto simp: plan_store_def)

lemma entries_ok_mono:
  "entries_ok s \<Longrightarrow> ps_clock s \<le> now \<Longrightarrow> ps_answers s \<subseteq> answers \<Longrightarrow>
   entries_ok (s\<lparr>ps_calls := cs, ps_clock := now, ps_answers := answers\<rparr>)"
  unfolding entries_ok_def by (simp, meson answered_by_mono order_refl order_trans)

text \<open>A hit serves the entry of its own application and user, since the key determines them.\<close>

lemma plan_read_ok:
  assumes "entries_ok s" and "positive_numeral u" and "ps_clock s \<le> now"
  shows "call_ok (plr_base_url (ps_resolver s)) (ps_answers s) now (plan_read now (ps_resolver s) a u d)"
proof (cases "plr_cache (ps_resolver s) (plan_cache_key a u)")
  case None then show ?thesis by (simp add: plan_read_def assms(2))
next
  case (Some e)
  then obtain b v stored where k: "plan_cache_key a u = plan_cache_key b v" and v: "positive_numeral v"
    and e: "stored \<le> ps_clock s" "pce_expires_at e = stored + plan_cache_ttl"
      "answered_by (plr_base_url (ps_resolver s)) (ps_answers s) b v (pce_plan e) stored"
    using assms(1) unfolding entries_ok_def by blast
  from plan_cache_key_inj [OF assms(2) v k] e assms(2,3) Some show ?thesis
    by (auto simp: plan_read_def)
qed

lemma plan_step_ok:
  assumes "plan_step now fetch (ps_resolver s) c = Some (pr, c1)" and "ps_clock s \<le> now"
    and "entries_ok s" and "call_ok base (ps_answers s) (ps_clock s) c" and "base = plr_base_url (ps_resolver s)"
  shows "call_ok base (ps_answers s \<union> plan_answered now fetch base c) now c1"
proof (cases c)
  case (Reads a u d)
  with assms plan_read_ok [OF assms(3) _ assms(2)] show ?thesis by auto
next
  case (Asks a u d)
  with assms show ?thesis
    by (auto simp: plan_ask_def answered_by_def Let_def split: option.splits)
next
  case (Stores a u d name)
  with assms show ?thesis by (auto simp: plan_cache_ttl_def intro!: exI [of _ now] intro: answered_by_mono)
qed (use assms in auto)

lemma plan_step_entries:
  assumes "plan_step now fetch (ps_resolver s) c = Some (pr, c1)" and "ps_clock s \<le> now"
    and "entries_ok s" and "call_ok base (ps_answers s) (ps_clock s) c" and "base = plr_base_url (ps_resolver s)"
    and "ps_answers s \<subseteq> answers"
  shows "entries_ok (s\<lparr>ps_resolver := pr, ps_calls := cs, ps_clock := now, ps_answers := answers\<rparr>)"
proof (cases c)
  case (Stores a u d name)
  have "answered_by base answers a u name now" and "positive_numeral u"
    using Stores assms(2,4,6) by (auto intro: answered_by_mono)
  with Stores assms(1,5) entries_ok_mono [OF assms(3,2,6), of cs] show ?thesis
    by (auto simp: entries_ok_def plan_store_def split: if_splits; blast)
qed (use assms entries_ok_mono [OF assms(3,2,6), of cs] in \<open>auto simp: entries_ok_def\<close>)

lemma plan_inv_step: "plan_system_step s t \<Longrightarrow> plan_inv base s \<Longrightarrow> plan_inv base t"
proof (elim plan_system_stepE)
  fix i now fetch pr c
  let ?new = "plan_answered now fetch (plr_base_url (ps_resolver s)) (ps_calls s ! i)"
  assume inv: "plan_inv base s" and i: "i < length (ps_calls s)" and now: "ps_clock s \<le> now"
    and st: "plan_step now fetch (ps_resolver s) (ps_calls s ! i) = Some (pr, c)"
    and t: "t = s\<lparr>ps_resolver := pr, ps_calls := (ps_calls s)[i := c], ps_clock := now, ps_answers := ps_answers s \<union> ?new\<rparr>"
  from inv have base: "base = plr_base_url (ps_resolver s)" and en: "entries_ok s"
    and all: "list_all (call_ok base (ps_answers s) (ps_clock s)) (ps_calls s)" by (auto simp: plan_inv_def)
  from all i have ok: "call_ok base (ps_answers s) (ps_clock s) (ps_calls s ! i)" by (simp add: list_all_length)
  from all now have "list_all (call_ok base (ps_answers s \<union> ?new) now) (ps_calls s)"
    by (auto simp: list_all_iff intro: call_ok_mono)
  with plan_step_ok [OF st now en ok base] plan_step_entries [OF st now en ok base, of "ps_answers s \<union> ?new"]
    plan_step_base [OF st] base show "plan_inv base t"
    by (auto simp: t plan_inv_def list_all_update)
next
  fix u a d
  assume "plan_inv base s" and "positive_numeral u" and "t = s\<lparr>ps_calls := ps_calls s @ [Reads a u d]\<rparr>"
  then show "plan_inv base t" by (auto simp: plan_inv_def entries_ok_def)
qed

lemma plan_inv_start: "plan_inv base (plan_start base now)"
  by (simp add: plan_inv_def entries_ok_def plan_start_def new_plan_resolver_def)

lemma plan_inv_reachable: "plan_system_step\<^sup>*\<^sup>* (plan_start base now) s \<Longrightarrow> plan_inv base s"
  by (induction rule: rtranclp_induct) (auto intro: plan_inv_step plan_inv_start)

text \<open>
  C39: under every interleaving of any number of concurrent resolutions, a request is served its default only
  at the instant at which the rate-tier URL of its application and user has failed to name a plan; otherwise it is
  served a plan which that very URL named, stored after it was named and less than 30 seconds before it is
  served.  No other user's or application's plan is ever served, and none that expired.
\<close>

theorem concurrent_plans_are_genuine:
  assumes "plan_system_step\<^sup>*\<^sup>* (plan_start base now) s" and "Served a u d plan t \<in> set (ps_calls s)"
  shows "plan = d \<and> (t, rate_tier_url base a u, None) \<in> ps_answers s \<or>
    (\<exists>named stored. named \<le> stored \<and> stored \<le> t \<and> t < stored + 30000000000 \<and>
       (named, rate_tier_url base a u, Some plan) \<in> ps_answers s)"
  using plan_inv_reachable [OF assms(1)] assms(2)
  by (fastforce simp: plan_inv_def list_all_iff answered_by_def plan_cache_ttl_def)

text \<open>Two calls of one user and one of another; the second is served from what the first stored.\<close>

abbreviation rate_tier :: "string \<Rightarrow> plan_request \<Rightarrow> json http_outcome" where
  "rate_tier name \<equiv> \<lambda>_. Response 200 (Some (JObj [(''plan_name'', JStr name)]))"

lemma demo_moves:
  "map_option (\<lambda>s. (ps_calls s, ps_answers s)) (run_moves
     [Arrives ''a'' ''7'' ''free'', Arrives ''a'' ''7'' ''free'', Arrives ''a'' ''8'' ''free'', Moves 0 1 (rate_tier ''pro''),
      Moves 2 2 (rate_tier ''pro''), Moves 0 3 (rate_tier ''pro''), Moves 0 4 (rate_tier ''pro''), Moves 1 5 (rate_tier ''x''),
      Moves 2 6 (\<lambda>_. TransportFailed)] (plan_start ''u'' 0)) =
   Some ([Served ''a'' ''7'' ''free'' ''pro'' 4, Served ''a'' ''7'' ''free'' ''pro'' 5, Served ''a'' ''8'' ''free'' ''free'' 6],
     {(3, ''u/v1/apps/a/customers/7/rate-tier'', Some ''pro''), (6, ''u/v1/apps/a/customers/8/rate-tier'', None)})"
  by code_simp

theorem concurrent_plans_are_genuine_witness:
  "\<exists>s. plan_system_step\<^sup>*\<^sup>* (plan_start ''u'' 0) s \<and> Served ''a'' ''7'' ''free'' ''pro'' 5 \<in> set (ps_calls s) \<and>
     (''pro'' = ''free'' \<and> (5, rate_tier_url ''u'' ''a'' ''7'', None) \<in> ps_answers s \<or>
      (\<exists>named stored. named \<le> stored \<and> stored \<le> 5 \<and> 5 < stored + 30000000000 \<and>
         (named, rate_tier_url ''u'' ''a'' ''7'', Some ''pro'') \<in> ps_answers s))"
proof -
  from demo_moves [unfolded map_option_eq_Some] obtain s where "plan_system_step\<^sup>*\<^sup>* (plan_start ''u'' 0) s"
    and "Served ''a'' ''7'' ''free'' ''pro'' 5 \<in> set (ps_calls s)"
    by (metis run_moves_steps prod.inject list.set_intros)
  with concurrent_plans_are_genuine [OF this] show ?thesis by blast
qed

section \<open>A late store\<close>

text \<open>
  nothing orders the stores of two calls by the age of what they hold: a call that was answered first and stores
  last puts the older plan back, which is then served for the next 30 seconds although the
  endpoint has named a newer one since.
\<close>

theorem late_store_masks_newer_plan:
  "map_option ps_calls (run_moves
     [Arrives ''a'' ''7'' ''free'', Arrives ''a'' ''7'' ''free'', Arrives ''a'' ''7'' ''free'', Moves 0 1 (rate_tier ''old''),
      Moves 1 1 (rate_tier ''new''), Moves 0 2 (rate_tier ''old''), Moves 1 3 (rate_tier ''new''), Moves 1 4 (rate_tier ''new''),
      Moves 0 5 (rate_tier ''new''), Moves 2 30000000004 (rate_tier ''new'')] (plan_start ''u'' 0)) =
   Some [Served ''a'' ''7'' ''free'' ''old'' 5, Served ''a'' ''7'' ''free'' ''new'' 4, Served ''a'' ''7'' ''free'' ''old'' 30000000004]"
  by code_simp

end
