(* ===== verification/Pollers.thy ===== *)
theory Pollers
  imports Snapshot Registry Config
begin

text \<open>
  The life of the poll goroutines of \<^verbatim>\<open>snapshot.go\<close> and \<^verbatim>\<open>registry.go\<close>: \<^verbatim>\<open>start\<close> fetches once and launches \<^verbatim>\<open>loop\<close>,
  which creates its two tickers and then selects between its context, its stop channel and the tickers, until
  one of the first two is ready.  The theory states what each phase of that life does (\<open>poller_contract\<close>), and that the
  theorems on histories of ticks (\<open>snapshot_run\<close>, \<open>registry_run\<close>) speak about this loop: its reachable caches are
  exactly those of the histories.
\<close>

section \<open>Pollers\<close>

text \<open>The goroutine: launched, in its \<^verbatim>\<open>select\<close>, back from it, or panicked (which ends the process).\<close>

datatype loop_phase = Launched | Selecting | Returned | Panicked

record 'c poller =
  pol_cache :: 'c
  pol_poll_interval :: int
  pol_refresh_interval :: int
  pol_stop_closed :: bool
  pol_context_done :: bool
  pol_loop :: "loop_phase option"

text \<open>A cache before \<^verbatim>\<open>start\<close>: no goroutine yet.\<close>

definition idle_poller :: "int \<Rightarrow> int \<Rightarrow> 'c \<Rightarrow> 'c poller" where
  "idle_poller poll_interval refresh_interval c =
     \<lparr>pol_cache = c, pol_poll_interval = poll_interval, pol_refresh_interval = refresh_interval,
      pol_stop_closed = False, pol_context_done = False, pol_loop = None\<rparr>"

definition start_poller :: "('e \<Rightarrow> 'c \<Rightarrow> 'c) \<Rightarrow> 'e \<Rightarrow> 'c poller \<Rightarrow> 'c poller" where
  "start_poller refresh e p = p\<lparr>pol_cache := refresh e (pol_cache p), pol_loop := Some Launched\<rparr>"

text \<open>\<^verbatim>\<open>stop\<close> closes the channel; closing it twice panics (\<open>None\<close>).\<close>

definition stop_poller :: "'c poller \<Rightarrow> 'c poller option" where
  "stop_poller p = (if pol_stop_closed p then None else Some (p\<lparr>pol_stop_closed := True\<rparr>))"

text \<open>
  What the goroutine does next: create the tickers, or take one ready case of the \<^verbatim>\<open>select\<close>, with what the
  endpoints answer then (the version's and, if it is asked, the snapshot's).  Go chooses freely among the ready
  ones, so a tick may still be taken after the channel was closed.
\<close>

datatype ('a, 'e) loop_event = Begin | ContextDone | StopClosed | PollTick 'a 'e | RefreshTick 'e

fun loop_step ::
  "('e \<Rightarrow> 'c \<Rightarrow> 'c) \<Rightarrow> ('a \<Rightarrow> 'e \<Rightarrow> 'c \<Rightarrow> 'c) \<Rightarrow> ('a, 'e) loop_event \<Rightarrow> 'c poller \<Rightarrow> 'c poller option" where
  "loop_step refresh check Begin p =
     (if pol_loop p \<noteq> Some Launched then None
      else Some (p\<lparr>pol_loop := Some (case poll_tickers (pol_poll_interval p) (pol_refresh_interval p) of
                                       None \<Rightarrow> Panicked | Some _ \<Rightarrow> Selecting)\<rparr>))"
| "loop_step refresh check ContextDone p =
     (if pol_loop p = Some Selecting \<and> pol_context_done p then Some (p\<lparr>pol_loop := Some Returned\<rparr>) else None)"
| "loop_step refresh check StopClosed p =
     (if pol_loop p = Some Selecting \<and> pol_stop_closed p then Some (p\<lparr>pol_loop := Some Returned\<rparr>) else None)"
| "loop_step refresh check (PollTick a e) p =
     (if pol_loop p = Some Selecting then Some (p\<lparr>pol_cache := check a e (pol_cache p)\<rparr>) else None)"
| "loop_step refresh check (RefreshTick e) p =
     (if pol_loop p = Some Selecting then Some (p\<lparr>pol_cache := refresh e (pol_cache p)\<rparr>) else None)"

inductive poller_step ::
  "('e \<Rightarrow> 'c \<Rightarrow> 'c) \<Rightarrow> ('a \<Rightarrow> 'e \<Rightarrow> 'c \<Rightarrow> 'c) \<Rightarrow> 'c poller \<Rightarrow> 'c poller \<Rightarrow> bool"
  for refresh :: "'e \<Rightarrow> 'c \<Rightarrow> 'c" and check :: "'a \<Rightarrow> 'e \<Rightarrow> 'c \<Rightarrow> 'c" where
  loop: "loop_step refresh check ev p = Some q \<Longrightarrow> poller_step refresh check p q"
| stop: "stop_poller p = Some q \<Longrightarrow> poller_step refresh check p q"
| cancel: "poller_step refresh check p (p\<lparr>pol_context_done := True\<rparr>)"

inductive_cases poller_stepE: "poller_step refresh check p q"

section \<open>A poller is its history of ticks\<close>

text \<open>Whether \<^verbatim>\<open>time.NewTicker\<close> accepts both intervals.\<close>

definition ticks :: "'c poller \<Rightarrow> bool" where
  "ticks p \<longleftrightarrow> 0 < pol_poll_interval p \<and> 0 < pol_refresh_interval p"

lemma poll_tickers_eq: "poll_tickers a b = (if 0 < a \<and> 0 < b then Some (a, b) else None)"
  by (simp add: poll_tickers_def new_ticker_def)

lemma poll_run_snoc: "poll_run refresh check (ops @ [op]) c = poll_step refresh check op (poll_run refresh check ops c)"
  by (induction ops arbitrary: c) simp_all

lemma poll_run_refl: "\<exists>ops. c = poll_run refresh check ops c"
  by (rule exI [of _ "[]"]) simp

lemma poll_run_extend:
  "\<exists>ops'. check a e (poll_run refresh check ops c) = poll_run refresh check ops' c"
  "\<exists>ops'. refresh e (poll_run refresh check ops c) = poll_run refresh check ops' c"
  by (rule exI [of _ "ops @ [(Some a, e)]"], simp add: poll_run_snoc poll_step_def)
    (rule exI [of _ "ops @ [(None, e)]"], simp add: poll_run_snoc poll_step_def)

text \<open>The phases a launched goroutine goes through, and what it has done to the cache so far.\<close>

definition poller_inv ::
  "('e \<Rightarrow> 'c \<Rightarrow> 'c) \<Rightarrow> ('a \<Rightarrow> 'e \<Rightarrow> 'c \<Rightarrow> 'c) \<Rightarrow> 'c \<Rightarrow> 'c poller \<Rightarrow> bool" where
  "poller_inv refresh check c p \<longleftrightarrow>
     (case pol_loop p of
        None \<Rightarrow> False
      | Some Launched \<Rightarrow> pol_cache p = c
      | Some Panicked \<Rightarrow> pol_cache p = c \<and> \<not> ticks p
      | Some ph \<Rightarrow> ticks p \<and> (ph = Returned \<longrightarrow> pol_stop_closed p \<or> pol_context_done p) \<and>
          (\<exists>ops. pol_cache p = poll_run refresh check ops c))"

lemma loop_step_inv:
  "loop_step refresh check ev p = Some q \<Longrightarrow> poller_inv refresh check c p \<Longrightarrow> poller_inv refresh check c q"
proof (cases ev)
  case Begin
  assume "loop_step refresh check ev p = Some q" and "poller_inv refresh check c p"
  with Begin show ?thesis
    by (cases "ticks p") (auto simp: poller_inv_def ticks_def poll_tickers_eq intro: poll_run_refl split: if_splits)
qed (auto simp: poller_inv_def ticks_def poll_run_extend split: if_splits)

lemma stop_poller_inv: "stop_poller p = Some q \<Longrightarrow> poller_inv refresh check c p \<Longrightarrow> poller_inv refresh check c q"
  by (auto simp: stop_poller_def poller_inv_def ticks_def split: if_splits option.splits loop_phase.splits)

lemma cancelled_inv: "poller_inv refresh check c p \<Longrightarrow> poller_inv refresh check c (p\<lparr>pol_context_done := True\<rparr>)"
  by (auto simp: poller_inv_def ticks_def split: option.splits loop_phase.splits)

lemma poller_step_inv: "poller_step refresh check p q \<Longrightarrow> poller_inv refresh check c p \<Longrightarrow> poller_inv refresh check c q"
  by (elim poller_stepE) (auto simp: loop_step_inv stop_poller_inv cancelled_inv)

lemma poller_reachable_inv:
  "(poller_step refresh check)\<^sup>*\<^sup>* p q \<Longrightarrow> poller_inv refresh check c p \<Longrightarrow> poller_inv refresh check c q"
  by (induction rule: rtranclp_induct) (auto intro: poller_step_inv)

lemma poller_intervals:
  "(poller_step refresh check)\<^sup>*\<^sup>* p q \<Longrightarrow>
   pol_poll_interval q = pol_poll_interval p \<and> pol_refresh_interval q = pol_refresh_interval p"
proof (induction rule: rtranclp_induct)
  case (step q r)
  have "loop_step refresh check ev q = Some r \<Longrightarrow>
      pol_poll_interval r = pol_poll_interval q \<and> pol_refresh_interval r = pol_refresh_interval q" for ev
    by (cases ev) (auto split: if_splits)
  with step show ?case by (elim poller_stepE) (auto simp: stop_poller_def split: if_splits)
qed simp

lemma poller_inv_start:
  "poller_inv refresh check (refresh e (pol_cache p)) (start_poller refresh e p)"
  by (simp add: poller_inv_def start_poller_def)

lemma run_ticks:
  "pol_loop p = Some Selecting \<Longrightarrow>
   (poller_step refresh check)\<^sup>*\<^sup>* p (p\<lparr>pol_cache := poll_run refresh check ops (pol_cache p)\<rparr>)"
proof (induction ops arbitrary: p)
  case (Cons op ops)
  let ?q = "p\<lparr>pol_cache := poll_step refresh check op (pol_cache p)\<rparr>"
  have "\<exists>ev. loop_step refresh check ev p = Some ?q"
  proof (cases op)
    case (Pair poll e)
    with Cons.prems show ?thesis
      by (cases poll) (auto simp: poll_step_def intro: exI [of _ "RefreshTick e"] exI [of _ "PollTick _ e"])
  qed
  then have "poller_step refresh check p ?q" by (blast intro: poller_step.loop)
  with Cons.IH [of ?q] Cons.prems show ?case by (simp add: converse_rtranclp_into_rtranclp)
qed simp

text \<open>What a started goroutine can have made of its cache: every history of ticks, or nothing when it panics.\<close>

lemma started_caches:
  "(\<exists>q. (poller_step refresh check)\<^sup>*\<^sup>* (start_poller refresh e (idle_poller poll_int refresh_int c)) q \<and> pol_cache q = c1) \<longleftrightarrow>
   (if 0 < poll_int \<and> 0 < refresh_int then \<exists>ops. c1 = poll_run refresh check ops (refresh e c) else c1 = refresh e c)"
  (is "?reached \<longleftrightarrow> ?history")
proof
  let ?p = "start_poller refresh e (idle_poller poll_int refresh_int c)"
  assume ?reached
  then obtain q where q: "(poller_step refresh check)\<^sup>*\<^sup>* ?p q" "pol_cache q = c1" by blast
  have "poller_inv refresh check (refresh e c) ?p"
    using poller_inv_start [of refresh check e "idle_poller poll_int refresh_int c"] by (simp add: idle_poller_def)
  from poller_reachable_inv [OF q(1) this] poller_intervals [OF q(1)] q(2) show ?history
    by (auto simp: poller_inv_def ticks_def start_poller_def idle_poller_def intro: poll_run_refl
        split: option.splits loop_phase.splits)
next
  let ?p = "start_poller refresh e (idle_poller poll_int refresh_int c)"
  assume h: ?history
  show ?reached
  proof (cases "0 < poll_int \<and> 0 < refresh_int")
    case True
    then obtain ops where "c1 = poll_run refresh check ops (refresh e c)" using h by auto
    moreover have "poller_step refresh check ?p (?p\<lparr>pol_loop := Some Selecting\<rparr>)"
      using True by (intro poller_step.loop [of _ _ Begin]) (simp add: start_poller_def idle_poller_def poll_tickers_eq)
    moreover note run_ticks [of "?p\<lparr>pol_loop := Some Selecting\<rparr>" refresh check ops]
    ultimately show ?thesis
      by (auto simp: start_poller_def idle_poller_def dest: converse_rtranclp_into_rtranclp)
  next
    case False
    then show ?thesis using h by (intro exI [of _ ?p]) (auto simp: start_poller_def idle_poller_def)
  qed
qed

section \<open>The two registry caches\<close>

definition start_snapshot_poller ::
  "(string \<Rightarrow> regex option) \<Rightarrow> snapshot_dto http_outcome \<Rightarrow> int \<Rightarrow> int \<Rightarrow> snapshot_cache poller" where
  "start_snapshot_poller rx e poll_int refresh_int =
     start_poller (snapshot_refresh rx) e (idle_poller poll_int refresh_int new_snapshot_cache)"

definition snapshot_poller_step :: "(string \<Rightarrow> regex option) \<Rightarrow> snapshot_cache poller \<Rightarrow> snapshot_cache poller \<Rightarrow> bool" where
  "snapshot_poller_step rx = poller_step (snapshot_refresh rx) (snapshot_check_version rx)"

definition start_registry_poller ::
  "(string \<Rightarrow> string) \<Rightarrow> app_registry_dto http_outcome \<Rightarrow> int \<Rightarrow> int \<Rightarrow> app_registry poller" where
  "start_registry_poller uni e poll_int refresh_int =
     start_poller (registry_refresh uni) e (idle_poller poll_int refresh_int new_app_registry)"

definition registry_poller_step :: "(string \<Rightarrow> string) \<Rightarrow> app_registry poller \<Rightarrow> app_registry poller \<Rightarrow> bool" where
  "registry_poller_step uni = poller_step (registry_refresh uni) (registry_check_version uni)"

text \<open>The first use of a URL starts a poller and shares its cache.\<close>

lemma shared_snapshot_started:
  "shared url = None \<Longrightarrow>
   fst (get_shared_snapshot_cache rx url e shared) = pol_cache (start_snapshot_poller rx e poll_int refresh_int)"
  by (simp add: get_shared_snapshot_cache_def start_snapshot_poller_def start_poller_def idle_poller_def Let_def)

lemma shared_registry_started:
  "shared url = None \<Longrightarrow>
   fst (get_shared_app_registry uni url e shared) = pol_cache (start_registry_poller uni e poll_int refresh_int)"
  by (simp add: get_shared_app_registry_def start_registry_poller_def start_poller_def idle_poller_def Let_def)

text \<open>
  the theorems on histories of polls speak about these goroutines.  With two positive
  intervals the caches a started poller can reach, through ticks, stops and cancellations in any order, are exactly those of
  the histories of refreshes and version checks after the first fetch; with any other interval it has the cache of
  the first fetch only.
\<close>

theorem pollers_are_their_histories:
  "(\<exists>p. (snapshot_poller_step rx)\<^sup>*\<^sup>* (start_snapshot_poller rx e poll_int refresh_int) p \<and> pol_cache p = sc) =
     (if 0 < poll_int \<and> 0 < refresh_int
      then \<exists>ops. sc = snapshot_run rx ops (snapshot_refresh rx e new_snapshot_cache)
      else sc = snapshot_refresh rx e new_snapshot_cache) \<and>
   (\<exists>p. (registry_poller_step uni)\<^sup>*\<^sup>* (start_registry_poller uni re poll_int refresh_int) p \<and> pol_cache p = rc) =
     (if 0 < poll_int \<and> 0 < refresh_int
      then \<exists>ops. rc = registry_run uni ops (registry_refresh uni re new_app_registry)
      else rc = registry_refresh uni re new_app_registry)"
  by (simp add: started_caches start_snapshot_poller_def snapshot_poller_step_def snapshot_run_def
      start_registry_poller_def registry_poller_step_def registry_run_def)

section \<open>The life of a poller\<close>

text \<open>
  What a poller promises in each phase, in terms of the documents the endpoints answer: \<open>install e\<close> is the cache that a
  usable snapshot answer \<open>e\<close> makes, \<open>named a\<close> the version that a usable version answer \<open>a\<close> names, \<open>version\<close> the one a cache serves,
  and \<open>c\<close> the cache after the first fetch.
\<close>

definition poller_contract ::
  "('e \<Rightarrow> 'c \<Rightarrow> 'c) \<Rightarrow> ('a \<Rightarrow> 'e \<Rightarrow> 'c \<Rightarrow> 'c) \<Rightarrow> ('e \<Rightarrow> 'c option) \<Rightarrow> ('a \<Rightarrow> string option) \<Rightarrow> ('c \<Rightarrow> string) \<Rightarrow>
   int \<Rightarrow> int \<Rightarrow> 'c \<Rightarrow> 'c poller \<Rightarrow> bool" where
  "poller_contract refresh check install named version poll_int refresh_int c p \<longleftrightarrow>
     (case pol_loop p of
        None \<Rightarrow> False
      | Some Launched \<Rightarrow> pol_cache p = c \<and>
          loop_step refresh check Begin p =
            Some (p\<lparr>pol_loop := Some (if 0 < poll_int \<and> 0 < refresh_int then Selecting else Panicked)\<rparr>)
      | Some Panicked \<Rightarrow> \<not> (0 < poll_int \<and> 0 < refresh_int) \<and> pol_cache p = c \<and>
          (\<forall>q. poller_step refresh check p q \<longrightarrow> pol_loop q = Some Panicked \<and> pol_cache q = c)
      | Some Returned \<Rightarrow> 0 < poll_int \<and> 0 < refresh_int \<and> (pol_stop_closed p \<or> pol_context_done p) \<and>
          (\<forall>q. poller_step refresh check p q \<longrightarrow> pol_loop q = Some Returned \<and> pol_cache q = pol_cache p)
      | Some Selecting \<Rightarrow> 0 < poll_int \<and> 0 < refresh_int \<and>
          (pol_stop_closed p \<longrightarrow> loop_step refresh check StopClosed p = Some (p\<lparr>pol_loop := Some Returned\<rparr>)) \<and>
          (pol_context_done p \<longrightarrow> loop_step refresh check ContextDone p = Some (p\<lparr>pol_loop := Some Returned\<rparr>)) \<and>
          (\<forall>e. loop_step refresh check (RefreshTick e) p =
             Some (case install e of None \<Rightarrow> p | Some d \<Rightarrow> p\<lparr>pol_cache := d\<rparr>)) \<and>
          (\<forall>a e. loop_step refresh check (PollTick a e) p =
             Some (if named a = None \<or> named a = Some (version (pol_cache p)) then p
                   else (case install e of None \<Rightarrow> p | Some d \<Rightarrow> p\<lparr>pol_cache := d\<rparr>)))) \<and>
     (pol_cache p = c \<or> (\<exists>e. install e = Some (pol_cache p)))"

lemma poll_run_installs:
  assumes "\<And>e c. refresh e c = (case install e of None \<Rightarrow> c | Some d \<Rightarrow> d)"
    and "\<And>a e c. check a e c = (if named a = None \<or> named a = Some (version c) then c else refresh e c)"
  shows "poll_run refresh check ops c = c \<or> (\<exists>e. install e = Some (poll_run refresh check ops c))"
proof (induction ops arbitrary: c)
  case (Cons op ops)
  have "poll_step refresh check op c = c \<or> (\<exists>e. install e = Some (poll_step refresh check op c))"
    by (auto simp: poll_step_def assms split: prod.splits option.splits)
  with Cons.IH [of "poll_step refresh check op c"] show ?case by auto
qed simp

lemma finished_step:
  "poller_step refresh check p q \<Longrightarrow> pol_loop p = Some ph \<Longrightarrow> ph = Returned \<or> ph = Panicked \<Longrightarrow>
   pol_loop q = Some ph \<and> pol_cache q = pol_cache p"
proof (elim poller_stepE)
  fix ev assume "loop_step refresh check ev p = Some q" and "pol_loop p = Some ph" and "ph = Returned \<or> ph = Panicked"
  then show ?thesis by (cases ev) (auto split: if_splits)
qed (auto simp: stop_poller_def split: if_splits)

lemma started_contract:
  assumes "(poller_step refresh check)\<^sup>*\<^sup>* (start_poller refresh e (idle_poller poll_int refresh_int c)) p"
    and "\<And>e c. refresh e c = (case install e of None \<Rightarrow> c | Some d \<Rightarrow> d)"
    and "\<And>a e c. check a e c = (if named a = None \<or> named a = Some (version c) then c else refresh e c)"
  shows "poller_contract refresh check install named version poll_int refresh_int (refresh e c) p"
proof -
  have "poller_inv refresh check (refresh e c) (start_poller refresh e (idle_poller poll_int refresh_int c))"
    using poller_inv_start [of refresh check e "idle_poller poll_int refresh_int c"] by (simp add: idle_poller_def)
  from poller_reachable_inv [OF assms(1) this] have inv: "poller_inv refresh check (refresh e c) p" .
  have ivs: "pol_poll_interval p = poll_int" "pol_refresh_interval p = refresh_int"
    using poller_intervals [OF assms(1)] by (simp_all add: start_poller_def idle_poller_def)
  obtain ph where ph: "pol_loop p = Some ph" using inv by (auto simp: poller_inv_def split: option.splits)
  have runs: "poll_run refresh check ops (refresh e c) = refresh e c \<or> (\<exists>e'. install e' = Some (poll_run refresh check ops (refresh e c)))" for ops
    by (rule poll_run_installs) (rule assms(2,3))+
  have cache: "pol_cache p = refresh e c \<or> (\<exists>e. install e = Some (pol_cache p))"
  proof -
    have "pol_cache p = refresh e c \<or> (\<exists>ops. pol_cache p = poll_run refresh check ops (refresh e c))"
      using inv ph by (cases ph) (auto simp: poller_inv_def)
    with runs show ?thesis by metis
  qed
  have same: "p\<lparr>pol_cache := pol_cache p\<rparr> = p" by simp
  show ?thesis
    using inv ph cache ivs finished_step [of refresh check p _ ph] same
    by (cases ph) (auto simp: poller_contract_def poller_inv_def ticks_def poll_tickers_eq assms(2,3) split: option.split)
qed

text \<open>
  C32: the two poll goroutines poll until they are told to stop, and no longer.  A started poller with an interval that
  is not positive panics before its first tick and never touches the cache its first fetch made.  With positive
  intervals it never panics, and it returns only after \<^verbatim>\<open>stop\<close> or the cancellation of its context, which either
  make it return; after that nothing touches its cache.  While it runs, each refresh tick installs the document
  that is answered, a poll tick does so only when the version named differs from the one served, and no failed answer
  takes anything away.
\<close>

theorem pollers_keep_their_contract:
  "((snapshot_poller_step rx)\<^sup>*\<^sup>* (start_snapshot_poller rx e poll_int refresh_int) p \<longrightarrow>
     poller_contract (snapshot_refresh rx) (snapshot_check_version rx) (\<lambda>e. map_option (compile_snapshot rx) (good_answer e))
       good_answer sc_version poll_int refresh_int (snapshot_refresh rx e new_snapshot_cache) p) \<and>
   ((registry_poller_step uni)\<^sup>*\<^sup>* (start_registry_poller uni re poll_int refresh_int) q \<longrightarrow>
     poller_contract (registry_refresh uni) (registry_check_version uni) (\<lambda>e. map_option (compile_registry uni) (good_answer e))
       good_answer reg_version poll_int refresh_int (registry_refresh uni re new_app_registry) q)"
  unfolding snapshot_poller_step_def start_snapshot_poller_def registry_poller_step_def start_registry_poller_def
  by (intro conjI impI; erule started_contract)
    (auto simp: snapshot_refresh_good snapshot_check_good registry_refresh_good registry_check_good split: option.splits)

text \<open>A poller with the interval \<^verbatim>\<open>"0"\<close>, and one that is stopped after it began.\<close>

theorem pollers_keep_their_contract_witness:
  "\<exists>p q. (snapshot_poller_step (\<lambda>_. None))\<^sup>*\<^sup>* (start_snapshot_poller (\<lambda>_. None) TransportFailed 0 30) p \<and>
     pol_loop p = Some Panicked \<and> pol_cache p = new_snapshot_cache \<and>
     (snapshot_poller_step (\<lambda>_. None))\<^sup>*\<^sup>* (start_snapshot_poller (\<lambda>_. None) TransportFailed 5 30) q \<and>
     pol_loop q = Some Selecting \<and> pol_stop_closed q \<and>
     loop_step (snapshot_refresh (\<lambda>_. None)) (snapshot_check_version (\<lambda>_. None)) StopClosed q = Some (q\<lparr>pol_loop := Some Returned\<rparr>)"
proof -
  let ?start = "start_snapshot_poller (\<lambda>_. None) TransportFailed" and ?step = "snapshot_poller_step (\<lambda>_. None)"
  let ?p = "?start 0 30\<lparr>pol_loop := Some Panicked\<rparr>"
    and ?b = "?start 5 30\<lparr>pol_loop := Some Selecting\<rparr>" and ?q = "?start 5 30\<lparr>pol_loop := Some Selecting, pol_stop_closed := True\<rparr>"
  note defs = snapshot_poller_step_def start_snapshot_poller_def start_poller_def idle_poller_def poll_tickers_eq stop_poller_def
  have "?step (?start 0 30) ?p" and "?step (?start 5 30) ?b"
    unfolding snapshot_poller_step_def by (rule poller_step.loop [of _ _ Begin], simp add: defs)+
  moreover have "?step ?b ?q"
    unfolding snapshot_poller_step_def by (rule poller_step.stop) (simp add: defs)
  ultimately have p: "?step\<^sup>*\<^sup>* (?start 0 30) ?p" and q: "?step\<^sup>*\<^sup>* (?start 5 30) ?q" by auto
  have ph: "pol_loop ?p = Some Panicked" "pol_loop ?q = Some Selecting" "pol_stop_closed ?q" by simp_all
  have "pol_cache ?p = snapshot_refresh (\<lambda>_. None) TransportFailed new_snapshot_cache"
    and "loop_step (snapshot_refresh (\<lambda>_. None)) (snapshot_check_version (\<lambda>_. None)) StopClosed ?q = Some (?q\<lparr>pol_loop := Some Returned\<rparr>)"
    using pollers_keep_their_contract [THEN conjunct1, rule_format, OF p]
      pollers_keep_their_contract [THEN conjunct1, rule_format, OF q]
    unfolding poller_contract_def ph by simp_all
  then have "pol_cache ?p = new_snapshot_cache" by (simp add: snapshot_refresh_def)
  with p q ph \<open>loop_step _ _ StopClosed ?q = _\<close> show ?thesis by blast
qed

text \<open>\<^verbatim>\<open>stop\<close> is not idempotent: the second call panics.\<close>

theorem stop_twice_panics: "Option.bind (stop_poller p) stop_poller = None"
  by (simp add: stop_poller_def)

end
