(* ===== verification/Cors.thy ===== *)
theory Cors
  imports Plugin Wiring
begin

text \<open>
  Cross-origin access, end to end: which origin the answer to a request names in
  \<^verbatim>\<open>Access-Control-Allow-Origin\<close>, and whether it allows credentials.  The headers are set in the prelude; the
  lemmas show that no later stage of either engine touches them.
\<close>

section \<open>Origins a configuration admits\<close>

text \<open>What a pattern means: itself, or \<open>scheme://*.d\<close> for every \<open>scheme://\<close>, host prefix and \<open>.d\<close>.\<close>

definition pattern_admits :: "string \<Rightarrow> string \<Rightarrow> bool" where
  "pattern_admits allowed origin \<longleftrightarrow> allowed = origin \<or>
     (\<exists>scheme d s. scheme \<in> {''https'', ''http''} \<and> allowed = scheme @ ''://*.'' @ d \<and> origin = scheme @ ''://'' @ s @ ''.'' @ d)"

definition origin_admitted :: "config \<Rightarrow> string \<Rightarrow> bool" where
  "origin_admitted cfg origin \<longleftrightarrow> origin \<noteq> [] \<and> (\<exists>allowed \<in> set (cfg_cors_allowed_origins cfg). pattern_admits allowed origin)"

lemma wildcard_branch:
  assumes "CHR ''.'' \<notin> set p" and "pre = p @ ''*.''"
  shows "has_prefix allowed pre \<and> has_prefix origin p \<and> has_suffix origin (drop (length p + 1) allowed) \<longleftrightarrow>
    (\<exists>d s. allowed = pre @ d \<and> origin = p @ s @ ''.'' @ d)"
proof
  assume h: "has_prefix allowed pre \<and> has_prefix origin p \<and> has_suffix origin (drop (length p + 1) allowed)"
  then obtain d where d: "allowed = pre @ d" by (auto simp: has_prefix_def prefix_def)
  with assms(2) have "drop (length p + 1) allowed = CHR ''.'' # d" by simp
  with h prefix_suffix_split [OF _ _ assms(1), of origin d] show "\<exists>d s. allowed = pre @ d \<and> origin = p @ s @ ''.'' @ d"
    by (auto simp: d has_prefix_def has_suffix_def)
qed (auto simp: has_prefix_def has_suffix_def prefix_def suffix_def assms(2))

lemma origin_matches_admits: "origin_matches allowed origin \<longleftrightarrow> pattern_admits allowed origin"
proof -
  have "CHR ''.'' \<notin> set ''https://''" and "CHR ''.'' \<notin> set ''http://''" by simp_all
  from wildcard_branch [OF this(1), of "''https://*.''" allowed origin] wildcard_branch [OF this(2), of "''http://*.''" allowed origin]
  show ?thesis by (auto simp: origin_matches_def pattern_admits_def)
qed

section \<open>Stages that leave the cross-origin headers alone\<close>

definition cors_headers :: "'s exchange \<Rightarrow> string list option \<times> string list option" where
  "cors_headers x =
     (rsp_header (x_rw x) (canonical_key ''Access-Control-Allow-Origin''),
      rsp_header (x_rw x) (canonical_key ''Access-Control-Allow-Credentials''))"

named_theorems cors_frames "stages that leave the cross-origin headers alone"

lemma cors_keys:
  "k \<in> {''Content-Type'', ''X-RateLimit-Limit'', ''X-RateLimit-Remaining'', ''X-RateLimit-Reset'', ''Retry-After'', ''X-Request-ID'',
         ''Access-Control-Allow-Methods'', ''Access-Control-Allow-Headers'', ''Access-Control-Max-Age'',
         ''Access-Control-Expose-Headers'', ''Vary''} \<Longrightarrow>
   canonical_key ''Access-Control-Allow-Origin'' \<noteq> canonical_key k \<and>
   canonical_key ''Access-Control-Allow-Credentials'' \<noteq> canonical_key k"
  by (elim insertE emptyE; hypsubst; code_simp)

lemma cors_set [cors_frames]:
  "k \<in> {''Content-Type'', ''X-RateLimit-Limit'', ''X-RateLimit-Remaining'', ''X-RateLimit-Reset'', ''Retry-After'', ''X-Request-ID'',
         ''Access-Control-Allow-Methods'', ''Access-Control-Allow-Headers'', ''Access-Control-Max-Age'',
         ''Access-Control-Expose-Headers'', ''Vary''} \<Longrightarrow>
   cors_headers (set_reply_header k v x) = cors_headers x"
  using cors_keys [of k] by (simp add: cors_headers_def h_set_apply)

lemma cors_reply [cors_frames]: "cors_headers (reply st d x) = cors_headers x"
  using cors_keys [of "''Content-Type''"] by (simp add: cors_headers_def h_set_apply)

lemma cors_request [cors_frames]:
  "cors_headers (set_header k v x) = cors_headers x" "cors_headers (del_header k x) = cors_headers x"
  "cors_headers (forward x) = cors_headers x" "cors_headers (log_reason gw lv r x) = cors_headers x"
  "cors_headers (x\<lparr>x_jwks := j\<rparr>) = cors_headers x" "cors_headers (x\<lparr>x_plans := p\<rparr>) = cors_headers x"
  "cors_headers (x\<lparr>x_limiter := l\<rparr>) = cors_headers x" "cors_headers (x\<lparr>x_shadows := sh\<rparr>) = cors_headers x"
  "cors_headers (x\<lparr>x_panicked := b\<rparr>) = cors_headers x" "cors_headers (x\<lparr>x_req := r1\<rparr>) = cors_headers x"
  by (simp_all add: cors_headers_def)

lemma cors_shared [cors_frames]:
  "cors_headers (deny gw st d r x) = cors_headers x" "cors_headers (reject_legacy_api_key gw x) = cors_headers x"
  "cors_headers (rate_limit_headers rl m x) = cors_headers x" "cors_headers (too_many_requests env rl x) = cors_headers x"
  "cors_headers (ensure_request_id env x) = cors_headers x" "cors_headers (strip_trust_headers gw x) = cors_headers x"
  "cors_headers (policy_stamp gw plan tc pr target x) = cors_headers x" "cors_headers (legacy_stamp gw plan tc x) = cors_headers x"
  "cors_headers (fst (anonymous_identity gw target x)) = cors_headers x"
  "cors_headers (log_shadow gw env ep app claims x) = cors_headers x"
  by (simp_all add: cors_frames deny_def reject_legacy_api_key_def rate_limit_headers_def too_many_requests_def
      ensure_request_id_def request_id_header_def strip_trust_headers_eq policy_stamp_def legacy_stamp_def
      stamp_authz_headers_def anonymous_identity_def log_shadow_def Let_def split: option.split)

lemma cors_anonymous: "anonymous_identity gw target x = (y, key, plan) \<Longrightarrow> cors_headers y = cors_headers x"
  using cors_shared(9) [of gw target x] by simp

lemma cors_apply_rate_limit [cors_frames]:
  "cors_headers (fst (apply_rate_limit lib gw env ep key plan x)) = cors_headers x"
  by (simp add: apply_rate_limit_def Let_def cors_frames split: prod.split check_result.split)

lemma cors_limited: "apply_rate_limit lib gw env ep key plan x = (y, ok) \<Longrightarrow> cors_headers y = cors_headers x"
  using cors_apply_rate_limit [of lib gw env ep key plan x] by simp

lemma cors_policy_stages:
  "policy_target gw env app requested x = Inl y \<Longrightarrow> cors_headers y = cors_headers x"
  "policy_target gw env app requested x = Inr (y, target) \<Longrightarrow> cors_headers y = cors_headers x"
  "policy_endpoint gw env app target x = Inl y \<Longrightarrow> cors_headers y = cors_headers x"
  "policy_credential lib gw env target x = Inl y \<Longrightarrow> cors_headers y = cors_headers x"
  "policy_credential lib gw env target x = Inr (y, claims) \<Longrightarrow> cors_headers y = cors_headers x"
  "policy_permission gw ep target pr x = Some y \<Longrightarrow> cors_headers y = cors_headers x"
  "policy_owner gw ep claims w x = Some y \<Longrightarrow> cors_headers y = cors_headers x"
  by (auto simp: policy_target_def policy_endpoint_def policy_credential_def policy_permission_def policy_owner_def
      Let_def cors_frames split: if_splits option.splits sum.splits prod.splits)

lemma cors_policy_admit [cors_frames]: "cors_headers (policy_admit lib gw env target ep caller x) = cors_headers x"
proof -
  obtain y key plan w where id: "policy_identity gw env target caller x = (y, key, plan, w)"
    by (cases "policy_identity gw env target caller x") auto
  then have "cors_headers y = cors_headers x"
    by (auto simp: policy_identity_def cors_frames dest: cors_anonymous split: option.splits prod.splits)
  then show ?thesis
    by (auto simp: policy_admit_def id cors_frames dest: cors_policy_stages(7) cors_limited split: option.split prod.split)
qed

lemma cors_serve_policy [cors_frames]: "cors_headers (serve_policy lib gw env app requested x) = cors_headers x"
  by (auto simp: serve_policy_def Let_def cors_frames dest!: cors_policy_stages split: sum.split option.split prod.split)

lemma cors_legacy_stages:
  "legacy_credential lib gw env ep app x = Inl y \<Longrightarrow> cors_headers y = cors_headers x"
  "legacy_credential lib gw env ep app x = Inr (y, claims) \<Longrightarrow> cors_headers y = cors_headers x"
  "legacy_permission gw ep claims x = Some y \<Longrightarrow> cors_headers y = cors_headers x"
  "legacy_owner gw ep claims x = Some y \<Longrightarrow> cors_headers y = cors_headers x"
  by (auto simp: legacy_credential_def legacy_permission_def legacy_owner_def
      Let_def cors_frames split: if_splits option.splits sum.splits prod.splits)

lemma cors_legacy_admit [cors_frames]: "cors_headers (legacy_admit lib gw env app ep claims x) = cors_headers x"
proof -
  obtain y key plan where id: "legacy_identity gw env app claims x = (y, key, plan)"
    by (cases "legacy_identity gw env app claims x") auto
  then have "cors_headers y = cors_headers x"
    by (auto simp: legacy_identity_def cors_frames dest: cors_anonymous split: option.splits prod.splits)
  then show ?thesis
    by (auto simp: legacy_admit_def id cors_frames legacy_rate_limit_eq dest: cors_legacy_stages(4) cors_limited
        split: option.split prod.split)
qed

lemma cors_serve_legacy [cors_frames]: "cors_headers (serve_legacy lib gw env app x) = cors_headers x"
  by (auto simp: serve_legacy_def Let_def cors_frames dest!: cors_legacy_stages split: sum.split option.split prod.split)

lemma cors_serve_iam_me [cors_frames]: "cors_headers (serve_iam_me lib gw env app x) = cors_headers x"
  by (simp add: serve_iam_me_def Let_def cors_frames split: sum.split option.split prod.split)

lemma cors_resolve_app:
  "resolve_app lib gw env x = Inl y \<Longrightarrow> cors_headers y = cors_headers x"
  "resolve_app lib gw env x = Inr (y, app) \<Longrightarrow> cors_headers y = cors_headers x"
  by (auto simp: resolve_app_def Let_def cors_frames split: if_splits option.splits)

section \<open>What the answer says\<close>

lemma cors_written [cors_frames]: "cors_headers (x\<lparr>x_rw := write_header c (x_rw x)\<rparr>) = cors_headers x"
  by (simp add: cors_headers_def)

lemma cors_preflight [cors_frames]: "cors_headers (preflight gw x) = cors_headers x"
  by (simp add: preflight_def Let_def cors_frames)

lemma cors_applied:
  "cors_headers (x\<lparr>x_rw := fst (apply_cors_headers gw origin (x_rw x))\<rparr>) =
    (if \<exists>allowed \<in> set (cfg_cors_allowed_origins (gw_config gw)). pattern_admits allowed origin
     then (Some [origin], if cfg_cors_allow_credentials (gw_config gw) then Some [''true''] else snd (cors_headers x))
     else cors_headers x)"
proof -
  have "canonical_key ''Access-Control-Allow-Origin'' \<noteq> canonical_key ''Access-Control-Allow-Credentials''" by code_simp
  with cors_keys [of "''Vary''"] cors_keys [of "''Access-Control-Expose-Headers''"] show ?thesis
    by (simp add: apply_cors_headers_def cors_headers_def Let_def list_ex_iff origin_matches_admits h_set_apply h_add_def)
qed

text \<open>After the prelude's CORS stage, whether it answers a preflight or goes on.\<close>

lemma cors_serve_cors:
  assumes "cors_headers x = (None, None)"
    and "serve_cors gw x = Inl y \<or> serve_cors gw x = Inr y"
  shows "cors_headers y =
    (if origin_admitted (gw_config gw) (get_header x ''Origin'')
     then (Some [get_header x ''Origin''], if cfg_cors_allow_credentials (gw_config gw) then Some [''true''] else None)
     else (None, None))"
  using assms
  by (auto simp: serve_cors_def Let_def cors_frames cors_applied origin_admitted_def split: if_splits)

text \<open>
  C14: the answer to a request allows cross-origin access exactly to the origins the configuration lists.
  Whatever the request, the engine and the outcome (forwarded, refused, rate limited, a preflight),
  \<^verbatim>\<open>Access-Control-Allow-Origin\<close> is the request's own origin when a configured pattern admits it, that is, equals it
  or is \<^verbatim>\<open>scheme://*.d\<close> for an origin \<^verbatim>\<open>scheme://s.d\<close>, and it is not set otherwise; credentials are
  allowed only along with it.  Errors carry the headers as well, so a browser client can read them.
\<close>

theorem cross_origin_access_as_configured:
  "cors_headers (serve_http lib gw env (arrives req jwks plans limiter)) =
    (if origin_admitted (gw_config gw) (get_req_header req ''Origin'')
     then (Some [get_req_header req ''Origin''],
           if cfg_cors_allow_credentials (gw_config gw) then Some [''true''] else None)
     else (None, None))"
proof -
  let ?x = "ensure_request_id env (arrives req jwks plans limiter)"
  have x: "cors_headers ?x = (None, None)" by (simp add: cors_frames) (simp add: cors_headers_def arrives_def fresh_response_def)
  have o: "get_header ?x ''Origin'' = get_req_header req ''Origin''"
  proof -
    have "\<not> same_key ''Origin'' request_id_header" by code_simp
    then show ?thesis by (simp add: ensure_request_id_def arrives_def Let_def)
  qed
  note c = cors_serve_cors [OF x, of gw, unfolded o]
  show ?thesis
  proof (cases "serve_cors gw ?x")
    case (Inl y) with c show ?thesis by (simp add: serve_http_def)
  next
    case (Inr y)
    have "cors_headers (serve_http lib gw env (arrives req jwks plans limiter)) = cors_headers (strip_trust_headers gw y)"
      by (auto simp: serve_http_def Inr dispatch_def Let_def cors_frames dest!: cors_resolve_app split: sum.split prod.split)
    also have "\<dots> = cors_headers y" by (simp add: cors_frames)
    finally show ?thesis using c Inr by simp
  qed
qed

end
