(* ===== verification/Jwks_Locks.thy ===== *)
theory Jwks_Locks
  imports Jwks
begin

text \<open>
  \<^verbatim>\<open>keyForKid\<close> and \<^verbatim>\<open>refresh\<close> (\<^verbatim>\<open>jwks.go\<close>) statement by statement, with the read/write lock of the cache as what it
  is: something a goroutine can block on.  The theory shows that the lock keeps the accesses of the cache apart, that
  no interleaving of any number of lookups and the background loop deadlocks or runs on, and that the atomic sections
  of \<open>system_step\<close> (\<open>Jwks\<close>) are what the program under its locks amounts to.
\<close>

section \<open>The lock\<close>

text \<open>
  \<^verbatim>\<open>sync.RWMutex\<close>: the readers that hold it, and the writer that holds it or waits for those readers to leave.  While
  there is such a writer, calls of \<^verbatim>\<open>RLock\<close> and \<^verbatim>\<open>Lock\<close> block.  \<open>None\<close> is a call that blocks, or the release of a lock
  that the caller does not hold, from which Go does not return either.  \<^verbatim>\<open>Lock\<close> is two steps, \<open>announce\<close> and \<open>acquire\<close>.
\<close>

datatype goroutine = Request nat | Background

record rw_lock =
  rw_readers :: "goroutine set"
  rw_writer :: "goroutine option"

definition rw_free :: rw_lock where "rw_free = \<lparr>rw_readers = {}, rw_writer = None\<rparr>"

definition rlock :: "goroutine \<Rightarrow> rw_lock \<Rightarrow> rw_lock option" where
  "rlock g l = (if rw_writer l = None then Some (l\<lparr>rw_readers := insert g (rw_readers l)\<rparr>) else None)"

definition runlock :: "goroutine \<Rightarrow> rw_lock \<Rightarrow> rw_lock option" where
  "runlock g l = (if g \<in> rw_readers l then Some (l\<lparr>rw_readers := rw_readers l - {g}\<rparr>) else None)"

definition announce :: "goroutine \<Rightarrow> rw_lock \<Rightarrow> rw_lock option" where
  "announce g l = (if rw_writer l = None then Some (l\<lparr>rw_writer := Some g\<rparr>) else None)"

definition acquire :: "goroutine \<Rightarrow> rw_lock \<Rightarrow> rw_lock option" where
  "acquire g l = (if rw_writer l = Some g \<and> rw_readers l = {} then Some l else None)"

definition unlock :: "goroutine \<Rightarrow> rw_lock \<Rightarrow> rw_lock option" where
  "unlock g l = (if rw_writer l = Some g then Some (l\<lparr>rw_writer := None\<rparr>) else None)"

section \<open>The program\<close>

text \<open>\<^verbatim>\<open>refresh\<close>: where its caller is in it, with the key set it has parsed.\<close>

datatype refresh_pc =
    MarkLock | MarkWait | MarkWrite | MarkUnlock | Fetch
  | SwapLock "string \<rightharpoonup> rsa_key" | SwapWait "string \<rightharpoonup> rsa_key" | SwapWrite "string \<rightharpoonup> rsa_key" | SwapUnlock
  | RefreshReturn

fun refresh_pc_step ::
  "goroutine \<Rightarrow> jwks_event \<Rightarrow> rw_lock \<Rightarrow> jwks_cache \<Rightarrow> refresh_pc \<Rightarrow> (rw_lock \<times> jwks_cache \<times> refresh_pc) option" where
  "refresh_pc_step g ev l jc MarkLock = map_option (\<lambda>l1. (l1, jc, MarkWait)) (announce g l)"
| "refresh_pc_step g ev l jc MarkWait = map_option (\<lambda>l1. (l1, jc, MarkWrite)) (acquire g l)"
| "refresh_pc_step g ev l jc MarkWrite = Some (l, jc\<lparr>jc_last_attempt := je_refresh_now ev\<rparr>, MarkUnlock)"
| "refresh_pc_step g ev l jc MarkUnlock = map_option (\<lambda>l1. (l1, jc, Fetch)) (unlock g l)"
| "refresh_pc_step g ev l jc Fetch =
     Some (l, jc, case published_keys (jc_url jc) ev of None \<Rightarrow> RefreshReturn | Some m \<Rightarrow> SwapLock m)"
| "refresh_pc_step g ev l jc (SwapLock m) = map_option (\<lambda>l1. (l1, jc, SwapWait m)) (announce g l)"
| "refresh_pc_step g ev l jc (SwapWait m) = map_option (\<lambda>l1. (l1, jc, SwapWrite m)) (acquire g l)"
| "refresh_pc_step g ev l jc (SwapWrite m) = Some (l, jc\<lparr>jc_keys := m\<rparr>, SwapUnlock)"
| "refresh_pc_step g ev l jc SwapUnlock = map_option (\<lambda>l1. (l1, jc, RefreshReturn)) (unlock g l)"
| "refresh_pc_step g ev l jc RefreshReturn = None"

text \<open>\<^verbatim>\<open>keyForKid\<close>: where a lookup is, with its local \<^verbatim>\<open>key\<close> and \<^verbatim>\<open>last\<close>.\<close>

datatype lookup_pc =
    ReadLock string | ReadKeys string | ReadLast string "rsa_key option" | ReadUnlock string "rsa_key option" int
  | Decide string "rsa_key option" int
  | InRefresh string refresh_pc
  | AgainLock string | AgainRead string | AgainUnlock string "rsa_key option"
  | Answered string "string + rsa_key option"

definition found :: "string \<Rightarrow> rsa_key option \<Rightarrow> string + rsa_key option" where
  "found kid k = (case k of Some key \<Rightarrow> Inr (Some key) | None \<Rightarrow> Inl kid)"

fun lookup_pc_step ::
  "goroutine \<Rightarrow> jwks_event \<Rightarrow> rw_lock \<Rightarrow> jwks_cache \<Rightarrow> lookup_pc \<Rightarrow> (rw_lock \<times> jwks_cache \<times> lookup_pc) option" where
  "lookup_pc_step g ev l jc (ReadLock kid) = map_option (\<lambda>l1. (l1, jc, ReadKeys kid)) (rlock g l)"
| "lookup_pc_step g ev l jc (ReadKeys kid) = Some (l, jc, ReadLast kid (jc_keys jc kid))"
| "lookup_pc_step g ev l jc (ReadLast kid k) = Some (l, jc, ReadUnlock kid k (jc_last_attempt jc))"
| "lookup_pc_step g ev l jc (ReadUnlock kid k t0) = map_option (\<lambda>l1. (l1, jc, Decide kid k t0)) (runlock g l)"
| "lookup_pc_step g ev l jc (Decide kid k t0) =
     Some (l, jc, if k \<noteq> None then Answered kid (found kid k)
                  else if jc_refetch_cooldown jc \<le> je_now ev - t0 then InRefresh kid MarkLock
                  else Answered kid (found kid None))"
| "lookup_pc_step g ev l jc (InRefresh kid r) =
     (if r = RefreshReturn then Some (l, jc, AgainLock kid)
      else map_option (\<lambda>(l1, jc1, r1). (l1, jc1, InRefresh kid r1)) (refresh_pc_step g ev l jc r))"
| "lookup_pc_step g ev l jc (AgainLock kid) = map_option (\<lambda>l1. (l1, jc, AgainRead kid)) (rlock g l)"
| "lookup_pc_step g ev l jc (AgainRead kid) = Some (l, jc, AgainUnlock kid (jc_keys jc kid))"
| "lookup_pc_step g ev l jc (AgainUnlock kid k) = map_option (\<lambda>l1. (l1, jc, Answered kid (found kid k))) (runlock g l)"
| "lookup_pc_step g ev l jc (Answered kid r) = None"

text \<open>
  The process: the lock, the cache, the lookups, the background loop (\<open>None\<close> while it waits for its ticker) and the number
  of attempts that the lookups have recorded.
\<close>

record lock_system =
  ls_lock :: rw_lock
  ls_cache :: jwks_cache
  ls_lookups :: "lookup_pc list"
  ls_loop :: "refresh_pc option"
  ls_attempts :: nat

fun records_attempt :: "lookup_pc \<Rightarrow> nat" where
  "records_attempt (InRefresh kid r) = (if r = MarkWrite then 1 else 0)"
| "records_attempt pc = 0"

text \<open>A step of a goroutine that does not block, and a tick of the background loop.\<close>

inductive lock_step :: "lock_system \<Rightarrow> lock_system \<Rightarrow> bool" where
  request: "i < length (ls_lookups s) \<Longrightarrow>
   lookup_pc_step (Request i) ev (ls_lock s) (ls_cache s) (ls_lookups s ! i) = Some (l, jc, pc) \<Longrightarrow>
   lock_step s (s\<lparr>ls_lock := l, ls_cache := jc, ls_lookups := (ls_lookups s)[i := pc],
     ls_attempts := ls_attempts s + records_attempt (ls_lookups s ! i)\<rparr>)"
| background: "ls_loop s = Some r \<Longrightarrow>
   refresh_pc_step Background ev (ls_lock s) (ls_cache s) r = Some (l, jc, r1) \<Longrightarrow>
   lock_step s (s\<lparr>ls_lock := l, ls_cache := jc, ls_loop := Some r1\<rparr>)"
| refreshed: "ls_loop s = Some RefreshReturn \<Longrightarrow> lock_step s (s\<lparr>ls_loop := None\<rparr>)"

inductive goroutine_step :: "lock_system \<Rightarrow> lock_system \<Rightarrow> bool" where
  step: "lock_step s t \<Longrightarrow> goroutine_step s t"
| tick: "ls_loop s = None \<Longrightarrow> goroutine_step s (s\<lparr>ls_loop := Some MarkLock\<rparr>)"

inductive_cases lock_stepE: "lock_step s t"
inductive_cases goroutine_stepE: "goroutine_step s t"

definition lock_start :: "jwks_cache \<Rightarrow> string list \<Rightarrow> lock_system" where
  "lock_start jc kids =
     \<lparr>ls_lock = rw_free, ls_cache = jc, ls_lookups = map ReadLock kids, ls_loop = None, ls_attempts = 0\<rparr>"

section \<open>Who holds the lock\<close>

text \<open>What a goroutine is to the lock, by where it is in the program.\<close>

datatype lock_role = Outside | Reader | Waiter | Writer

fun refresh_role :: "refresh_pc \<Rightarrow> lock_role" where
  "refresh_role MarkWait = Waiter" | "refresh_role (SwapWait m) = Waiter"
| "refresh_role MarkWrite = Writer" | "refresh_role MarkUnlock = Writer"
| "refresh_role (SwapWrite m) = Writer" | "refresh_role SwapUnlock = Writer"
| "refresh_role _ = Outside"

fun lookup_role :: "lookup_pc \<Rightarrow> lock_role" where
  "lookup_role (ReadKeys kid) = Reader" | "lookup_role (ReadLast kid k) = Reader"
| "lookup_role (ReadUnlock kid k t0) = Reader"
| "lookup_role (AgainRead kid) = Reader" | "lookup_role (AgainUnlock kid k) = Reader"
| "lookup_role (InRefresh kid r) = refresh_role r"
| "lookup_role _ = Outside"

fun role :: "lock_system \<Rightarrow> goroutine \<Rightarrow> lock_role" where
  "role s (Request i) = (if i < length (ls_lookups s) then lookup_role (ls_lookups s ! i) else Outside)"
| "role s Background = (case ls_loop s of None \<Rightarrow> Outside | Some r \<Rightarrow> refresh_role r)"

definition lock_ok :: "rw_lock \<Rightarrow> (goroutine \<Rightarrow> lock_role) \<Rightarrow> bool" where
  "lock_ok l rl \<longleftrightarrow> rw_readers l = {g. rl g = Reader} \<and>
     (\<forall>g. rw_writer l = Some g \<longleftrightarrow> rl g = Waiter \<or> rl g = Writer) \<and>
     (\<forall>g. rl g = Writer \<longrightarrow> rw_readers l = {})"

text \<open>The moves of one goroutine in the discipline of the lock.\<close>

definition lock_move :: "goroutine \<Rightarrow> rw_lock \<Rightarrow> lock_role \<Rightarrow> rw_lock \<Rightarrow> lock_role \<Rightarrow> bool" where
  "lock_move g l r l1 r1 \<longleftrightarrow>
     l1 = l \<and> r1 = r \<or>
     rlock g l = Some l1 \<and> r = Outside \<and> r1 = Reader \<or> runlock g l = Some l1 \<and> r = Reader \<and> r1 = Outside \<or>
     announce g l = Some l1 \<and> r = Outside \<and> r1 = Waiter \<or> acquire g l = Some l1 \<and> r = Waiter \<and> r1 = Writer \<or>
     unlock g l = Some l1 \<and> r = Writer \<and> r1 = Outside"

lemma lock_ok_move:
  assumes "lock_ok l rl" and "lock_move g l (rl g) l1 r1"
  shows "lock_ok l1 (rl(g := r1))"
  using assms(2) unfolding lock_move_def
proof (elim disjE conjE)
  assume "l1 = l" "r1 = rl g" then show ?thesis using assms(1) by simp
next
  assume "rlock g l = Some l1" "rl g = Outside" "r1 = Reader"
  with assms(1) show ?thesis by (auto simp: lock_ok_def rlock_def split: if_splits)
next
  assume "runlock g l = Some l1" "rl g = Reader" "r1 = Outside"
  with assms(1) show ?thesis by (auto simp: lock_ok_def runlock_def split: if_splits)
next
  assume "announce g l = Some l1" "rl g = Outside" "r1 = Waiter"
  with assms(1) show ?thesis by (auto simp: lock_ok_def announce_def split: if_splits)
next
  assume "acquire g l = Some l1" "rl g = Waiter" "r1 = Writer"
  with assms(1) show ?thesis by (auto simp: lock_ok_def acquire_def split: if_splits)
next
  assume "unlock g l = Some l1" "rl g = Writer" "r1 = Outside"
  moreover have "h = g" if "rl h = Waiter \<or> rl h = Writer" for h
    using assms(1) that \<open>rl g = Writer\<close> unfolding lock_ok_def by (metis option.inject)
  ultimately show ?thesis using assms(1) by (auto simp: lock_ok_def unlock_def split: if_splits)
qed

lemma refresh_pc_moves:
  "refresh_pc_step g ev l jc r = Some (l1, jc1, r1) \<Longrightarrow> lock_move g l (refresh_role r) l1 (refresh_role r1)"
  by (cases r) (auto simp: lock_move_def split: option.splits)

lemma lookup_pc_moves:
  "lookup_pc_step g ev l jc pc = Some (l1, jc1, pc1) \<Longrightarrow> lock_move g l (lookup_role pc) l1 (lookup_role pc1)"
  by (cases pc) (auto simp: lock_move_def split: option.splits if_splits dest: refresh_pc_moves [unfolded lock_move_def])

lemma role_request:
  "i < length (ls_lookups s) \<Longrightarrow>
   role (s\<lparr>ls_lock := l, ls_cache := jc, ls_lookups := (ls_lookups s)[i := pc], ls_attempts := n\<rparr>) =
   (role s)(Request i := lookup_role pc)"
proof
  fix g assume "i < length (ls_lookups s)"
  then show "role (s\<lparr>ls_lock := l, ls_cache := jc, ls_lookups := (ls_lookups s)[i := pc], ls_attempts := n\<rparr>) g =
      ((role s)(Request i := lookup_role pc)) g"
    by (cases g) (auto simp: nth_list_update)
qed

lemma role_background:
  "role (s\<lparr>ls_lock := l, ls_cache := jc, ls_loop := Some r\<rparr>) = (role s)(Background := refresh_role r)"
proof
  fix g show "role (s\<lparr>ls_lock := l, ls_cache := jc, ls_loop := Some r\<rparr>) g = ((role s)(Background := refresh_role r)) g"
    by (cases g) auto
qed

lemma role_idle:
  "ls_loop s = Some RefreshReturn \<Longrightarrow> role (s\<lparr>ls_loop := None\<rparr>) = role s"
  "ls_loop s = None \<Longrightarrow> role (s\<lparr>ls_loop := Some MarkLock\<rparr>) = role s"
proof -
  assume "ls_loop s = Some RefreshReturn"
  then have "role (s\<lparr>ls_loop := None\<rparr>) g = role s g" for g by (cases g) auto
  then show "role (s\<lparr>ls_loop := None\<rparr>) = role s" ..
next
  assume "ls_loop s = None"
  then have "role (s\<lparr>ls_loop := Some MarkLock\<rparr>) g = role s g" for g by (cases g) auto
  then show "role (s\<lparr>ls_loop := Some MarkLock\<rparr>) = role s" ..
qed

abbreviation lock_inv :: "lock_system \<Rightarrow> bool" where
  "lock_inv s \<equiv> lock_ok (ls_lock s) (role s)"

lemma lock_inv_start: "lock_inv (lock_start jc kids)"
proof -
  have "role (lock_start jc kids) g = Outside" for g by (cases g) (simp_all add: lock_start_def)
  then show ?thesis by (simp add: lock_ok_def lock_start_def rw_free_def)
qed

lemma lock_inv_step: "goroutine_step s t \<Longrightarrow> lock_inv s \<Longrightarrow> lock_inv t"
proof (elim goroutine_stepE lock_stepE)
  fix i ev l jc pc
  assume inv: "lock_inv s" and i: "i < length (ls_lookups s)"
    and st: "lookup_pc_step (Request i) ev (ls_lock s) (ls_cache s) (ls_lookups s ! i) = Some (l, jc, pc)"
    and t: "t = s\<lparr>ls_lock := l, ls_cache := jc, ls_lookups := (ls_lookups s)[i := pc],
      ls_attempts := ls_attempts s + records_attempt (ls_lookups s ! i)\<rparr>"
  have "lock_move (Request i) (ls_lock s) (role s (Request i)) l (lookup_role pc)" using lookup_pc_moves [OF st] i by simp
  from lock_ok_move [OF inv this] show ?thesis unfolding t role_request [OF i] by simp
next
  fix r ev l jc r1
  assume inv: "lock_inv s" and r: "ls_loop s = Some r"
    and st: "refresh_pc_step Background ev (ls_lock s) (ls_cache s) r = Some (l, jc, r1)"
    and t: "t = s\<lparr>ls_lock := l, ls_cache := jc, ls_loop := Some r1\<rparr>"
  have "lock_move Background (ls_lock s) (role s Background) l (refresh_role r1)" using refresh_pc_moves [OF st] r by simp
  from lock_ok_move [OF inv this] show ?thesis unfolding t role_background by simp
qed (simp_all add: role_idle)

lemma lock_inv_reachable: "goroutine_step\<^sup>*\<^sup>* (lock_start jc kids) s \<Longrightarrow> lock_inv s"
  by (induction rule: rtranclp_induct) (auto intro: lock_inv_step lock_inv_start)

section \<open>No races\<close>

text \<open>The next statement of a goroutine reads or writes the fields that the lock guards.\<close>

fun reads_next :: "lock_system \<Rightarrow> goroutine \<Rightarrow> bool" where
  "reads_next s (Request i) \<longleftrightarrow> i < length (ls_lookups s) \<and>
     (case ls_lookups s ! i of ReadKeys _ \<Rightarrow> True | ReadLast _ _ \<Rightarrow> True | AgainRead _ \<Rightarrow> True | _ \<Rightarrow> False)"
| "reads_next s Background \<longleftrightarrow> False"

fun refresh_writes :: "refresh_pc \<Rightarrow> bool" where
  "refresh_writes MarkWrite = True"
| "refresh_writes (SwapWrite m) = True"
| "refresh_writes _ = False"

fun writes_next :: "lock_system \<Rightarrow> goroutine \<Rightarrow> bool" where
  "writes_next s (Request i) \<longleftrightarrow> i < length (ls_lookups s) \<and>
     (case ls_lookups s ! i of InRefresh _ r \<Rightarrow> refresh_writes r | _ \<Rightarrow> False)"
| "writes_next s Background \<longleftrightarrow> (case ls_loop s of None \<Rightarrow> False | Some r \<Rightarrow> refresh_writes r)"

lemma reads_next_role: "reads_next s g \<Longrightarrow> role s g = Reader"
proof (cases g)
  case (Request i)
  assume "reads_next s g"
  with Request show ?thesis by (cases "ls_lookups s ! i") simp_all
qed simp

lemma refresh_writes_role: "refresh_writes r \<Longrightarrow> refresh_role r = Writer"
  by (cases r) auto

lemma writes_next_role: "writes_next s g \<Longrightarrow> role s g = Writer"
proof (cases g)
  case (Request i)
  assume "writes_next s g"
  with Request show ?thesis by (cases "ls_lookups s ! i") (simp_all add: refresh_writes_role)
next
  case Background
  assume "writes_next s g"
  with Background show ?thesis by (cases "ls_loop s") (simp_all add: refresh_writes_role)
qed

lemma lock_excludes:
  assumes "lock_inv s" and "role s g = Writer" and "h \<noteq> g"
  shows "role s h \<noteq> Reader \<and> role s h \<noteq> Writer"
proof -
  have readers: "rw_readers (ls_lock s) = {}" "rw_readers (ls_lock s) = {g. role s g = Reader}"
    and writer: "\<And>g. rw_writer (ls_lock s) = Some g \<longleftrightarrow> role s g = Waiter \<or> role s g = Writer"
    using assms(1,2) unfolding lock_ok_def by blast+
  have "role s h \<noteq> Reader" using readers by blast
  moreover have "role s h \<noteq> Writer" using writer [of g] writer [of h] assms(2,3) by auto
  ultimately show ?thesis by blast
qed

section \<open>No deadlock, and an end\<close>

fun refresh_left :: "refresh_pc \<Rightarrow> nat" where
  "refresh_left MarkLock = 9" | "refresh_left MarkWait = 8" | "refresh_left MarkWrite = 7" | "refresh_left MarkUnlock = 6"
| "refresh_left Fetch = 5" | "refresh_left (SwapLock m) = 4" | "refresh_left (SwapWait m) = 3"
| "refresh_left (SwapWrite m) = 2" | "refresh_left SwapUnlock = 1" | "refresh_left RefreshReturn = 0"

fun lookup_left :: "lookup_pc \<Rightarrow> nat" where
  "lookup_left (ReadLock kid) = 18" | "lookup_left (ReadKeys kid) = 17" | "lookup_left (ReadLast kid k) = 16"
| "lookup_left (ReadUnlock kid k t0) = 15" | "lookup_left (Decide kid k t0) = 14"
| "lookup_left (InRefresh kid r) = 4 + refresh_left r"
| "lookup_left (AgainLock kid) = 3" | "lookup_left (AgainRead kid) = 2" | "lookup_left (AgainUnlock kid k) = 1"
| "lookup_left (Answered kid r) = 0"

definition loop_left :: "refresh_pc option \<Rightarrow> nat" where
  "loop_left lp = (case lp of None \<Rightarrow> 0 | Some r \<Rightarrow> Suc (refresh_left r))"

definition lock_work :: "lock_system \<Rightarrow> nat" where
  "lock_work s = sum_list (map lookup_left (ls_lookups s)) + loop_left (ls_loop s)"

lemma refresh_left_step: "refresh_pc_step g ev l jc r = Some (l1, jc1, r1) \<Longrightarrow> refresh_left r1 < refresh_left r"
  by (cases r) (auto split: option.splits)

lemma lookup_left_step: "lookup_pc_step g ev l jc pc = Some (l1, jc1, pc1) \<Longrightarrow> lookup_left pc1 < lookup_left pc"
  by (cases pc) (auto split: option.splits if_splits dest: refresh_left_step)

lemma lock_work_step: "lock_step s t \<Longrightarrow> lock_work t < lock_work s"
proof (elim lock_stepE)
  fix i ev l jc pc
  assume i: "i < length (ls_lookups s)"
    and st: "lookup_pc_step (Request i) ev (ls_lock s) (ls_cache s) (ls_lookups s ! i) = Some (l, jc, pc)"
    and t: "t = s\<lparr>ls_lock := l, ls_cache := jc, ls_lookups := (ls_lookups s)[i := pc],
      ls_attempts := ls_attempts s + records_attempt (ls_lookups s ! i)\<rparr>"
  from sum_list_list_update [OF i, of lookup_left pc] lookup_left_step [OF st] show ?thesis by (simp add: t lock_work_def)
next
  fix r ev l jc r1
  assume "ls_loop s = Some r" and st: "refresh_pc_step Background ev (ls_lock s) (ls_cache s) r = Some (l, jc, r1)"
    and "t = s\<lparr>ls_lock := l, ls_cache := jc, ls_loop := Some r1\<rparr>"
  with refresh_left_step [OF st] show ?thesis by (simp add: lock_work_def loop_left_def)
qed (simp add: lock_work_def loop_left_def)

lemma lock_work_steps: "(lock_step ^^ k) s t \<Longrightarrow> k + lock_work t \<le> lock_work s"
proof (induction k arbitrary: t)
  case (Suc k)
  then obtain u where "(lock_step ^^ k) s u" and u: "lock_step u t" by auto
  with Suc.IH lock_work_step [OF u] show ?case by fastforce
qed simp

lemma loop_left_le: "loop_left lp \<le> 10"
proof -
  have "refresh_left r \<le> 9" for r by (cases r) auto
  then show ?thesis by (auto simp: loop_left_def split: option.split)
qed

text \<open>The work of the lookups alone never grows, ticks included.\<close>

lemma lookups_left_step:
  "goroutine_step s t \<Longrightarrow> sum_list (map lookup_left (ls_lookups t)) \<le> sum_list (map lookup_left (ls_lookups s))"
proof (elim goroutine_stepE lock_stepE)
  fix i ev l jc pc
  assume i: "i < length (ls_lookups s)"
    and st: "lookup_pc_step (Request i) ev (ls_lock s) (ls_cache s) (ls_lookups s ! i) = Some (l, jc, pc)"
    and t: "t = s\<lparr>ls_lock := l, ls_cache := jc, ls_lookups := (ls_lookups s)[i := pc],
      ls_attempts := ls_attempts s + records_attempt (ls_lookups s ! i)\<rparr>"
  from sum_list_list_update [OF i, of lookup_left pc] lookup_left_step [OF st] show ?thesis by (simp add: t)
qed simp_all

lemma lock_work_bound:
  assumes "goroutine_step\<^sup>*\<^sup>* (lock_start jc kids) s"
  shows "lock_work s \<le> 18 * length kids + 10"
proof -
  have "sum_list (map lookup_left (ls_lookups (lock_start jc kids))) = 18 * length kids"
    by (induction kids) (simp_all add: lock_start_def)
  moreover have "sum_list (map lookup_left (ls_lookups s)) \<le> sum_list (map lookup_left (ls_lookups (lock_start jc kids)))"
    using assms by (induction rule: rtranclp_induct) (auto dest: lookups_left_step)
  ultimately show ?thesis using loop_left_le [of "ls_loop s"] by (simp add: lock_work_def)
qed

text \<open>Whose step is not blocked.\<close>

definition may_proceed :: "rw_lock \<Rightarrow> goroutine \<Rightarrow> lock_role \<Rightarrow> bool" where
  "may_proceed l g r \<longleftrightarrow>
     (case r of Outside \<Rightarrow> rw_writer l = None | Reader \<Rightarrow> g \<in> rw_readers l
      | Waiter \<Rightarrow> rw_writer l = Some g \<and> rw_readers l = {} | Writer \<Rightarrow> rw_writer l = Some g)"

lemma refresh_proceeds:
  "may_proceed l g (refresh_role r) \<Longrightarrow> r \<noteq> RefreshReturn \<Longrightarrow> \<exists>o1. refresh_pc_step g ev l jc r = Some o1"
  by (cases r) (auto simp: may_proceed_def announce_def acquire_def unlock_def)

lemma lookup_proceeds:
  "may_proceed l g (lookup_role pc) \<Longrightarrow> lookup_left pc \<noteq> 0 \<Longrightarrow> \<exists>o1. lookup_pc_step g ev l jc pc = Some o1"
  by (cases pc)
    (auto simp: may_proceed_def rlock_def runlock_def dest: refresh_proceeds [unfolded may_proceed_def, where ev = ev and jc = jc])

lemma goroutine_proceeds:
  assumes "may_proceed (ls_lock s) g (role s g)"
    and "case g of Request i \<Rightarrow> i < length (ls_lookups s) \<and> lookup_left (ls_lookups s ! i) \<noteq> 0 | Background \<Rightarrow> ls_loop s \<noteq> None"
  shows "\<exists>t. lock_step s t"
proof (cases g)
  case (Request i)
  with assms have i: "i < length (ls_lookups s)" and "may_proceed (ls_lock s) (Request i) (lookup_role (ls_lookups s ! i))"
    and "lookup_left (ls_lookups s ! i) \<noteq> 0"
    by simp_all
  then obtain l jc pc where "lookup_pc_step (Request i) undefined (ls_lock s) (ls_cache s) (ls_lookups s ! i) = Some (l, jc, pc)"
    using lookup_proceeds by (metis prod_cases3)
  from lock_step.request [OF i this] show ?thesis by blast
next
  case Background
  with assms obtain r where r: "ls_loop s = Some r" and m: "may_proceed (ls_lock s) Background (refresh_role r)" by auto
  show ?thesis
  proof (cases "r = RefreshReturn")
    case True
    with lock_step.refreshed r show ?thesis by blast
  next
    case False
    then obtain l jc r1 where "refresh_pc_step Background undefined (ls_lock s) (ls_cache s) r = Some (l, jc, r1)"
      using refresh_proceeds [OF m] by (metis prod_cases3)
    from lock_step.background [OF r this] show ?thesis by blast
  qed
qed

text \<open>A goroutine with a role is at a statement it has not finished.\<close>

lemma role_unfinished:
  "role s g \<noteq> Outside \<Longrightarrow>
   (case g of Request i \<Rightarrow> i < length (ls_lookups s) \<and> lookup_left (ls_lookups s ! i) \<noteq> 0 | Background \<Rightarrow> ls_loop s \<noteq> None)"
proof (cases g)
  case (Request i)
  assume "role s g \<noteq> Outside"
  with Request show ?thesis by (cases "ls_lookups s ! i") (auto split: if_splits)
qed (auto split: option.splits)

lemma no_deadlock:
  assumes inv: "lock_inv s" and pc: "pc \<in> set (ls_lookups s)" "lookup_left pc \<noteq> 0"
  shows "\<exists>t. lock_step s t"
proof (cases "rw_writer (ls_lock s)")
  case (Some g)
  then have g: "role s g = Waiter \<or> role s g = Writer" using inv unfolding lock_ok_def by blast
  show ?thesis
  proof (cases "\<exists>h. role s h = Reader")
    case True
    then obtain h where h: "role s h = Reader" by blast
    then have "may_proceed (ls_lock s) h (role s h)" using inv by (simp add: may_proceed_def lock_ok_def)
    from goroutine_proceeds [OF this] role_unfinished [of s h] h show ?thesis by simp
  next
    case False
    then have "rw_readers (ls_lock s) = {}" using inv unfolding lock_ok_def by simp
    with Some g have "may_proceed (ls_lock s) g (role s g)" by (auto simp: may_proceed_def)
    from goroutine_proceeds [OF this] role_unfinished [of s g] g show ?thesis by auto
  qed
next
  case None
  obtain i where i: "i < length (ls_lookups s)" "ls_lookups s ! i = pc" using pc(1) by (auto simp: in_set_conv_nth)
  have "may_proceed (ls_lock s) (Request i) (role s (Request i))"
    using None inv unfolding lock_ok_def may_proceed_def by (cases "role s (Request i)") (auto simp del: role.simps)
  from goroutine_proceeds [OF this] i pc(2) show ?thesis by simp
qed

lemma answered_iff: "lookup_left pc = 0 \<longleftrightarrow> (\<exists>kid r. pc = Answered kid r)"
  by (cases pc) auto

section \<open>The atomic sections\<close>

text \<open>
  Where a lookup is in terms of \<open>Jwks\<close>.  The decision to fetch is taken on the clock after the lock has been released,
  the atomic section takes it while the values are read: \<open>f\<close> foretells the outcome.
\<close>

fun refresh_section :: "string \<Rightarrow> refresh_pc \<Rightarrow> lookup" where
  "refresh_section kid MarkLock = Stale kid" | "refresh_section kid MarkWait = Stale kid" | "refresh_section kid MarkWrite = Stale kid"
| "refresh_section kid SwapUnlock = Fetched kid" | "refresh_section kid RefreshReturn = Fetched kid"
| "refresh_section kid _ = Fetching kid"

definition decided :: "bool \<Rightarrow> string \<Rightarrow> rsa_key option \<Rightarrow> lookup" where
  "decided f kid k = (if k = None \<and> f then Stale kid else Done kid (found kid k))"

fun section_of :: "bool \<Rightarrow> lookup_pc \<Rightarrow> lookup" where
  "section_of f (ReadLock kid) = Ready kid" | "section_of f (ReadKeys kid) = Ready kid" | "section_of f (ReadLast kid k) = Ready kid"
| "section_of f (ReadUnlock kid k t0) = decided f kid k" | "section_of f (Decide kid k t0) = decided f kid k"
| "section_of f (InRefresh kid r) = refresh_section kid r"
| "section_of f (AgainLock kid) = Fetched kid" | "section_of f (AgainRead kid) = Fetched kid"
| "section_of f (AgainUnlock kid k) = Done kid (found kid k)"
| "section_of f (Answered kid r) = Done kid r"

fun loop_polling :: "refresh_pc \<Rightarrow> bool" where
  "loop_polling MarkUnlock = True" | "loop_polling Fetch = True" | "loop_polling (SwapLock m) = True"
| "loop_polling (SwapWait m) = True" | "loop_polling (SwapWrite m) = True" | "loop_polling _ = False"

definition sections :: "(nat \<Rightarrow> bool) \<Rightarrow> lock_system \<Rightarrow> jwks_system" where
  "sections f s =
     \<lparr>sys_cache = ls_cache s, sys_lookups = map (\<lambda>i. section_of (f i) (ls_lookups s ! i)) [0..<length (ls_lookups s)],
      sys_fetches = ls_attempts s, sys_polling = (case ls_loop s of None \<Rightarrow> False | Some r \<Rightarrow> loop_polling r)\<rparr>"

text \<open>The local copies: what was read under the lock is still there, and a parsed key set was published.\<close>

fun refresh_data :: "jwks_cache \<Rightarrow> refresh_pc \<Rightarrow> bool" where
  "refresh_data jc (SwapLock m) = (\<exists>ev. published_keys (jc_url jc) ev = Some m)"
| "refresh_data jc (SwapWait m) = (\<exists>ev. published_keys (jc_url jc) ev = Some m)"
| "refresh_data jc (SwapWrite m) = (\<exists>ev. published_keys (jc_url jc) ev = Some m)"
| "refresh_data jc _ = True"

fun lookup_data :: "jwks_cache \<Rightarrow> lookup_pc \<Rightarrow> bool" where
  "lookup_data jc (ReadLast kid k) = (k = jc_keys jc kid)"
| "lookup_data jc (InRefresh kid r) = refresh_data jc r"
| "lookup_data jc _ = True"

definition data_inv :: "lock_system \<Rightarrow> bool" where
  "data_inv s \<longleftrightarrow> list_all (lookup_data (ls_cache s)) (ls_lookups s) \<and>
     (case ls_loop s of None \<Rightarrow> True | Some r \<Rightarrow> refresh_data (ls_cache s) r)"

lemma refresh_data_step:
  "refresh_pc_step g ev l jc r = Some (l1, jc1, r1) \<Longrightarrow> refresh_data jc r \<Longrightarrow> refresh_data jc1 r1"
  by (cases r) (auto split: option.splits)

lemma lookup_data_step:
  "lookup_pc_step g ev l jc pc = Some (l1, jc1, pc1) \<Longrightarrow> lookup_data jc pc \<Longrightarrow> lookup_data jc1 pc1"
  by (cases pc) (auto split: option.splits if_splits dest: refresh_data_step)

text \<open>A step leaves the cache alone, or its goroutine is the writer; the URL and the cooldown never change.\<close>

lemma refresh_pc_cache:
  "refresh_pc_step g ev l jc r = Some (l1, jc1, r1) \<Longrightarrow>
   (jc1 = jc \<or> refresh_role r = Writer) \<and> jc_url jc1 = jc_url jc \<and> jc_refetch_cooldown jc1 = jc_refetch_cooldown jc"
  by (cases r) auto

lemma lookup_pc_cache:
  "lookup_pc_step g ev l jc pc = Some (l1, jc1, pc1) \<Longrightarrow>
   (jc1 = jc \<or> lookup_role pc = Writer) \<and> jc_url jc1 = jc_url jc \<and> jc_refetch_cooldown jc1 = jc_refetch_cooldown jc"
  by (cases pc) (auto split: if_splits dest: refresh_pc_cache)

lemma refresh_data_url: "jc_url jc1 = jc_url jc \<Longrightarrow> refresh_data jc r \<Longrightarrow> refresh_data jc1 r"
  by (cases r) auto

lemma lookup_data_other:
  "lookup_data jc pc \<Longrightarrow> jc_url jc1 = jc_url jc \<Longrightarrow> jc1 = jc \<or> lookup_role pc \<noteq> Reader \<Longrightarrow> lookup_data jc1 pc"
  by (cases pc) (auto dest: refresh_data_url)

lemma data_inv_others:
  assumes "lock_inv s" and "data_inv s" and "jc = ls_cache s \<or> role s g = Writer" and "jc_url jc = jc_url (ls_cache s)"
    and "j < length (ls_lookups s)" and "Request j \<noteq> g"
  shows "lookup_data jc (ls_lookups s ! j)"
proof -
  have "jc = ls_cache s \<or> lookup_role (ls_lookups s ! j) \<noteq> Reader"
    using assms(3) lock_excludes [OF assms(1) _ assms(6)] assms(5) by auto
  then show ?thesis using assms(2,4,5) by (auto simp: data_inv_def list_all_length intro: lookup_data_other)
qed

lemma data_inv_step: "goroutine_step s t \<Longrightarrow> lock_inv s \<Longrightarrow> data_inv s \<Longrightarrow> data_inv t"
proof (elim goroutine_stepE lock_stepE)
  fix i ev l jc pc
  assume inv: "lock_inv s" "data_inv s" and i: "i < length (ls_lookups s)"
    and st: "lookup_pc_step (Request i) ev (ls_lock s) (ls_cache s) (ls_lookups s ! i) = Some (l, jc, pc)"
    and t: "t = s\<lparr>ls_lock := l, ls_cache := jc, ls_lookups := (ls_lookups s)[i := pc],
      ls_attempts := ls_attempts s + records_attempt (ls_lookups s ! i)\<rparr>"
  note c = lookup_pc_cache [OF st]
  have w: "jc = ls_cache s \<or> role s (Request i) = Writer" using c i by simp
  have "lookup_data jc pc" using lookup_data_step [OF st] inv(2) i by (simp add: data_inv_def list_all_length)
  moreover have "lookup_data jc (ls_lookups s ! j)" if "j < length (ls_lookups s)" "j \<noteq> i" for j
    using that c by (intro data_inv_others [OF inv w]) auto
  ultimately have "lookup_data jc ((ls_lookups s)[i := pc] ! j)" if "j < length (ls_lookups s)" for j
    using that by (cases "j = i") simp_all
  moreover have "case ls_loop s of None \<Rightarrow> True | Some r \<Rightarrow> refresh_data jc r"
    using inv(2) c refresh_data_url [of jc "ls_cache s"] by (auto simp: data_inv_def split: option.splits)
  ultimately show ?thesis by (simp add: t data_inv_def list_all_length split: option.splits)
next
  fix r ev l jc r1
  assume inv: "lock_inv s" "data_inv s" and r: "ls_loop s = Some r"
    and st: "refresh_pc_step Background ev (ls_lock s) (ls_cache s) r = Some (l, jc, r1)"
    and t: "t = s\<lparr>ls_lock := l, ls_cache := jc, ls_loop := Some r1\<rparr>"
  note c = refresh_pc_cache [OF st]
  have w: "jc = ls_cache s \<or> role s Background = Writer" using c r by simp
  have "refresh_data jc r1" using refresh_data_step [OF st] inv(2) r by (simp add: data_inv_def)
  moreover have "lookup_data jc (ls_lookups s ! j)" if "j < length (ls_lookups s)" for j
    using that c by (intro data_inv_others [OF inv w]) auto
  ultimately show ?thesis by (auto simp: t data_inv_def list_all_length)
qed (auto simp: data_inv_def)

lemma data_inv_start: "data_inv (lock_start jc kids)"
  by (induction kids) (auto simp: data_inv_def lock_start_def)

lemma data_inv_reachable: "goroutine_step\<^sup>*\<^sup>* (lock_start jc kids) s \<Longrightarrow> data_inv s"
  by (induction rule: rtranclp_induct) (auto intro: data_inv_step lock_inv_reachable data_inv_start)

text \<open>A statement is nothing to the atomic sections, or it is the one that a section stands for.\<close>

lemma refresh_section_step:
  assumes "refresh_pc_step g ev l jc r = Some (l1, jc1, r1)" and "refresh_data jc r"
  shows "refresh_section kid r = refresh_section kid r1 \<and> jc1 = jc \<and> r \<noteq> MarkWrite \<or>
    (\<exists>ev1. lookup_step ev1 jc (refresh_section kid r) = Some (jc1, refresh_section kid r1, if r = MarkWrite then 1 else 0))"
proof (cases r)
  case Fetch
  with assms(1) show ?thesis
    by (cases "published_keys (jc_url jc) ev") (auto intro: exI [of _ ev])
next
  case (SwapWrite m)
  then obtain ev1 where "published_keys (jc_url jc) ev1 = Some m" using assms(2) by auto
  with SwapWrite assms(1) show ?thesis by (auto intro!: exI [of _ ev1])
qed (use assms(1) in \<open>auto intro: exI [of _ ev]\<close>)

lemma loop_section_step:
  assumes "refresh_pc_step g ev l jc r = Some (l1, jc1, r1)" and "refresh_data jc r"
  shows "loop_polling r = loop_polling r1 \<and> jc1 = jc \<or> (\<exists>ev1. jwks_loop_step ev1 jc (loop_polling r) = (jc1, loop_polling r1))"
proof (cases r)
  case Fetch
  with assms(1) show ?thesis
    by (cases "published_keys (jc_url jc) ev") (auto simp: jwks_loop_step_def intro: exI [of _ ev])
next
  case (SwapWrite m)
  then obtain ev1 where "published_keys (jc_url jc) ev1 = Some m" using assms(2) by auto
  with SwapWrite assms(1) show ?thesis by (auto simp: jwks_loop_step_def intro!: exI [of _ ev1])
qed (use assms(1) in \<open>auto simp: jwks_loop_step_def intro: exI [of _ ev]\<close>)

lemma ready_section:
  "\<exists>ev. lookup_step ev jc (Ready kid) = Some (jc, decided f kid (jc_keys jc kid), 0)"
  by (rule exI [of _ "\<lparr>je_now = jc_last_attempt jc + jc_refetch_cooldown jc - (if f then 0 else 1), je_refresh_now = 0,
      je_fetch = \<lambda>_. TransportFailed\<rparr>"])
    (auto simp: decided_def answer_def found_def split: option.splits)

lemma lookup_section_step:
  assumes "lookup_pc_step g ev l jc pc = Some (l1, jc1, pc1)" and "lookup_data jc pc"
  shows "\<exists>f. section_of f pc = section_of f1 pc1 \<and> jc1 = jc \<and> records_attempt pc = 0 \<or>
    (\<exists>ev1. lookup_step ev1 jc (section_of f pc) = Some (jc1, section_of f1 pc1, records_attempt pc))"
proof (cases pc)
  case (ReadLast kid k)
  obtain ev1 where "lookup_step ev1 jc (Ready kid) = Some (jc, decided f1 kid (jc_keys jc kid), 0)"
    using ready_section by blast
  with ReadLast assms show ?thesis by (intro exI disjI2) (auto simp del: lookup_step.simps)
next
  case (ReadUnlock kid k t0)
  with assms(1) show ?thesis by (intro exI [of _ f1]) auto
next
  case (Decide kid k t0)
  with assms(1) show ?thesis
    by (intro exI [of _ "jc_refetch_cooldown jc \<le> je_now ev - t0"]) (auto simp: decided_def)
next
  case (InRefresh kid r)
  show ?thesis
  proof (cases "r = RefreshReturn")
    case True
    with InRefresh assms(1) show ?thesis by auto
  next
    case False
    with InRefresh assms(1) obtain r1 where r1: "refresh_pc_step g ev l jc r = Some (l1, jc1, r1)" "pc1 = InRefresh kid r1"
      by (auto split: if_splits)
    from refresh_section_step [OF r1(1), of kid] InRefresh assms(2) r1(2) show ?thesis by auto
  qed
next
  case (AgainRead kid)
  with assms(1) show ?thesis by (auto simp: answer_def found_def)
qed (use assms(1) in auto)

lemma sections_update:
  "i < length pcs \<Longrightarrow> map (\<lambda>j. section_of (f j) (pcs[i := pc] ! j)) [0..<length pcs] =
     (map (\<lambda>j. section_of ((f(i := b)) j) (pcs ! j)) [0..<length pcs])[i := section_of (f i) pc]"
  by (rule nth_equalityI) (auto simp: nth_list_update)

lemma sections_step:
  assumes "goroutine_step s t" and "data_inv s"
  shows "\<exists>f. sections f s = sections f1 t \<or> system_step (sections f s) (sections f1 t)"
  using assms(1)
proof (elim goroutine_stepE lock_stepE)
  fix i ev l jc pc
  assume i: "i < length (ls_lookups s)"
    and st: "lookup_pc_step (Request i) ev (ls_lock s) (ls_cache s) (ls_lookups s ! i) = Some (l, jc, pc)"
    and t: "t = s\<lparr>ls_lock := l, ls_cache := jc, ls_lookups := (ls_lookups s)[i := pc],
      ls_attempts := ls_attempts s + records_attempt (ls_lookups s ! i)\<rparr>"
  have "lookup_data (ls_cache s) (ls_lookups s ! i)" using assms(2) i by (simp add: data_inv_def list_all_length)
  from lookup_section_step [OF st this, of "f1 i"] obtain b where
    b: "section_of b (ls_lookups s ! i) = section_of (f1 i) pc \<and> jc = ls_cache s \<and> records_attempt (ls_lookups s ! i) = 0 \<or>
      (\<exists>ev1. lookup_step ev1 (ls_cache s) (section_of b (ls_lookups s ! i)) =
         Some (jc, section_of (f1 i) pc, records_attempt (ls_lookups s ! i)))" by blast
  let ?f = "f1(i := b)"
  have st1: "sections f1 t = (sections ?f s)\<lparr>sys_cache := jc, sys_lookups := (sys_lookups (sections ?f s))[i := section_of (f1 i) pc],
      sys_fetches := sys_fetches (sections ?f s) + records_attempt (ls_lookups s ! i)\<rparr>"
    using sections_update [OF i, of f1 pc b] by (simp add: t sections_def)
  have at: "sys_lookups (sections ?f s) ! i = section_of b (ls_lookups s ! i)" and len: "i < length (sys_lookups (sections ?f s))"
    using i by (simp_all add: sections_def)
  show ?thesis
    using b
  proof (elim disjE conjE exE)
    assume same: "section_of b (ls_lookups s ! i) = section_of (f1 i) pc" "jc = ls_cache s" "records_attempt (ls_lookups s ! i) = 0"
    have "sections ?f s = sections f1 t"
      using same list_update_id [of "sys_lookups (sections ?f s)" i, unfolded at] by (simp add: st1) (simp add: sections_def)
    then show ?thesis by blast
  next
    fix ev1
    assume step: "lookup_step ev1 (ls_cache s) (section_of b (ls_lookups s ! i)) =
      Some (jc, section_of (f1 i) pc, records_attempt (ls_lookups s ! i))"
    have "sys_cache (sections ?f s) = ls_cache s" by (simp add: sections_def)
    with step have "lookup_step ev1 (sys_cache (sections ?f s)) (sys_lookups (sections ?f s) ! i) =
        Some (jc, section_of (f1 i) pc, records_attempt (ls_lookups s ! i))" by (simp only: at)
    from system_step.lookup [OF len this] show ?thesis unfolding st1 by blast
  qed
next
  fix r ev l jc r1
  assume r: "ls_loop s = Some r" and st: "refresh_pc_step Background ev (ls_lock s) (ls_cache s) r = Some (l, jc, r1)"
    and t: "t = s\<lparr>ls_lock := l, ls_cache := jc, ls_loop := Some r1\<rparr>"
  have st1: "sections f1 t = (sections f1 s)\<lparr>sys_cache := jc, sys_polling := loop_polling r1\<rparr>" by (simp add: t sections_def)
  have "refresh_data (ls_cache s) r" using assms(2) r by (simp add: data_inv_def)
  from loop_section_step [OF st this] show ?thesis
  proof (elim disjE conjE exE)
    assume "loop_polling r = loop_polling r1" "jc = ls_cache s"
    then have "sections f1 s = sections f1 t" by (simp add: t sections_def r)
    then show ?thesis by blast
  next
    fix ev1 assume "jwks_loop_step ev1 (ls_cache s) (loop_polling r) = (jc, loop_polling r1)"
    then have "jwks_loop_step ev1 (sys_cache (sections f1 s)) (sys_polling (sections f1 s)) = (jc, loop_polling r1)"
      by (simp add: sections_def r)
    from system_step.loop [OF this] show ?thesis unfolding st1 by blast
  qed
qed (auto simp: sections_def)

text \<open>Every run of the program under its locks is a run of the atomic sections, whatever is foretold.\<close>

lemma sections_reachable:
  "goroutine_step\<^sup>*\<^sup>* (lock_start jc kids) s \<Longrightarrow> system_step\<^sup>*\<^sup>* (start jc kids) (sections f s)"
proof (induction arbitrary: f rule: rtranclp_induct)
  case base
  have "sections f (lock_start jc kids) = start jc kids"
    by (auto simp: sections_def lock_start_def start_def intro: nth_equalityI)
  then show ?case by simp
next
  case (step s t)
  from sections_step [OF step.hyps(2) data_inv_reachable [OF step.hyps(1)], of f] step.IH show ?case
    by (metis rtranclp.rtrancl_into_rtrancl)
qed

text \<open>An answer is the key that was read, or the error that names the \<^verbatim>\<open>kid\<close>.\<close>

definition well_answered :: "lookup_pc \<Rightarrow> bool" where
  "well_answered pc \<longleftrightarrow> (\<forall>kid r. pc = Answered kid r \<longrightarrow> (\<exists>k. r = found kid k))"

lemma well_answered_step: "lookup_pc_step g ev l jc pc = Some (l1, jc1, pc1) \<Longrightarrow> well_answered pc1"
  by (cases pc) (auto simp: well_answered_def split: if_splits option.splits)

lemma well_answered_reachable:
  "goroutine_step\<^sup>*\<^sup>* (lock_start jc kids) s \<Longrightarrow> \<forall>pc \<in> set (ls_lookups s). \<forall>kid r. pc = Answered kid r \<longrightarrow> (\<exists>k. r = found kid k)"
proof -
  assume "goroutine_step\<^sup>*\<^sup>* (lock_start jc kids) s"
  then have "list_all well_answered (ls_lookups s)"
  proof (induction rule: rtranclp_induct)
    case (step s t)
    from step.hyps(2) show ?case
    proof (elim goroutine_stepE lock_stepE)
      fix i ev l jc pc
      assume "lookup_pc_step (Request i) ev (ls_lock s) (ls_cache s) (ls_lookups s ! i) = Some (l, jc, pc)"
        and "t = s\<lparr>ls_lock := l, ls_cache := jc, ls_lookups := (ls_lookups s)[i := pc],
          ls_attempts := ls_attempts s + records_attempt (ls_lookups s ! i)\<rparr>"
      with step.IH show ?thesis by (simp add: list_all_update well_answered_step)
    qed (use step.IH in simp_all)
  qed (auto simp: lock_start_def list_all_iff well_answered_def)
  then show ?thesis by (auto simp: list_all_iff well_answered_def)
qed

section \<open>Properties\<close>

text \<open>
  C21: the lock does what it is there for.  However the statements of any number of concurrent lookups and of the
  background refreshes interleave, no goroutine is about to write the cache while another is about to read or write it;
  the cache and the answers are those of some run of the atomic sections, so every answer is a sound RSA key or the error that
  names the \<^verbatim>\<open>kid\<close>, never a missing key, and the lookups record at most one attempt each.
\<close>

theorem locks_prevent_races:
  assumes "sound_cache jc" and "goroutine_step\<^sup>*\<^sup>* (lock_start jc kids) s"
  shows "(\<forall>g h. writes_next s g \<and> h \<noteq> g \<longrightarrow> \<not> reads_next s h \<and> \<not> writes_next s h) \<and>
    (\<exists>t. system_step\<^sup>*\<^sup>* (start jc kids) t \<and> sys_cache t = ls_cache s \<and>
       (\<forall>i < length (ls_lookups s). \<forall>kid r. ls_lookups s ! i = Answered kid r \<longrightarrow> sys_lookups t ! i = Done kid r)) \<and>
    (\<forall>kid r. Answered kid r \<in> set (ls_lookups s) \<longrightarrow> r = Inl kid \<or> (\<exists>key. r = Inr (Some key) \<and> sound_key key)) \<and>
    ls_attempts s \<le> length kids"
proof (intro conjI allI impI)
  fix g h assume "writes_next s g \<and> h \<noteq> g"
  then show "\<not> reads_next s h" and "\<not> writes_next s h"
    using lock_excludes [OF lock_inv_reachable [OF assms(2)], of g h] reads_next_role [of s h] writes_next_role [of s]
    by auto
next
  let ?t = "sections (\<lambda>_. True) s"
  have run: "system_step\<^sup>*\<^sup>* (start jc kids) ?t" by (rule sections_reachable [OF assms(2)])
  have ans: "sys_lookups ?t ! i = Done kid r" if "i < length (ls_lookups s)" "ls_lookups s ! i = Answered kid r" for i kid r
    using that by (simp add: sections_def)
  have cache: "sys_cache ?t = ls_cache s" by (simp add: sections_def)
  show "\<exists>t. system_step\<^sup>*\<^sup>* (start jc kids) t \<and> sys_cache t = ls_cache s \<and>
       (\<forall>i < length (ls_lookups s). \<forall>kid r. ls_lookups s ! i = Answered kid r \<longrightarrow> sys_lookups t ! i = Done kid r)"
    using run ans cache by blast
  have inv: "system_inv (length kids) ?t"
    by (rule system_inv_reachable [OF run system_inv_start [OF assms(1)]])
  then show "ls_attempts s \<le> length kids" by (simp add: system_inv_def sections_def)
  fix kid r assume a: "Answered kid r \<in> set (ls_lookups s)"
  then obtain i where i: "i < length (ls_lookups s)" "ls_lookups s ! i = Answered kid r" by (auto simp: in_set_conv_nth)
  have "length (sys_lookups ?t) = length (ls_lookups s)" by (simp add: sections_def)
  with inv ans [OF i] i(1) have "answered_soundly (Done kid r)" by (metis list_all_length system_inv_def)
  moreover obtain k where "r = found kid k" using well_answered_reachable [OF assms(2)] a by blast
  ultimately show "r = Inl kid \<or> (\<exists>key. r = Inr (Some key) \<and> sound_key key)"
    by (auto simp: found_def answered_soundly_def split: option.splits)
qed

text \<open>
  Two lookups on a cache that holds the key of one: the other reads under the same lock while the first is answered.
\<close>

fun run_requests :: "(nat \<times> jwks_event) list \<Rightarrow> lock_system \<Rightarrow> lock_system option" where
  "run_requests [] s = Some s"
| "run_requests ((i, ev) # rs) s =
     (if i < length (ls_lookups s) then
        (case lookup_pc_step (Request i) ev (ls_lock s) (ls_cache s) (ls_lookups s ! i) of
           None \<Rightarrow> None
         | Some (l, jc, pc) \<Rightarrow> run_requests rs (s\<lparr>ls_lock := l, ls_cache := jc, ls_lookups := (ls_lookups s)[i := pc],
             ls_attempts := ls_attempts s + records_attempt (ls_lookups s ! i)\<rparr>))
      else None)"

lemma run_requests_steps: "run_requests rs s = Some t \<Longrightarrow> goroutine_step\<^sup>*\<^sup>* s t"
proof (induction rs arbitrary: s)
  case (Cons r rs)
  obtain i ev where r: "r = (i, ev)" by (cases r)
  obtain l jc pc where i: "i < length (ls_lookups s)"
    and st: "lookup_pc_step (Request i) ev (ls_lock s) (ls_cache s) (ls_lookups s ! i) = Some (l, jc, pc)"
    and run: "run_requests rs (s\<lparr>ls_lock := l, ls_cache := jc, ls_lookups := (ls_lookups s)[i := pc],
      ls_attempts := ls_attempts s + records_attempt (ls_lookups s ! i)\<rparr>) = Some t"
    using Cons.prems by (auto simp: r split: if_splits option.splits)
  from goroutine_step.step [OF lock_step.request [OF i st]] Cons.IH [OF run] show ?case
    by (rule converse_rtranclp_into_rtranclp)
qed simp

definition locks_key :: rsa_key where "locks_key = \<lparr>rsa_n = 2 ^ 1024, rsa_e = 65537\<rparr>"

definition locks_cache :: jwks_cache where
  "locks_cache = (new_jwks_cache ''u'' 10)\<lparr>jc_keys := [''k'' \<mapsto> locks_key]\<rparr>"

lemma locks_cache_sound: "sound_cache locks_cache"
  by (simp add: sound_cache_def locks_cache_def new_jwks_cache_def sound_key_def locks_key_def)

lemma locks_run:
  "\<exists>s. run_requests (map (\<lambda>i. (i, ev)) [0, 1, 0, 0, 1, 0, 0]) (lock_start locks_cache [''k'', ''z'']) = Some s \<and>
     ls_lookups s = [Answered ''k'' (Inr (Some locks_key)), ReadLast ''z'' None]"
  by (simp add: lock_start_def rw_free_def rlock_def runlock_def locks_cache_def new_jwks_cache_def found_def)

theorem locks_prevent_races_witness:
  "\<exists>s. goroutine_step\<^sup>*\<^sup>* (lock_start locks_cache [''k'', ''z'']) s \<and>
     Answered ''k'' (Inr (Some locks_key)) \<in> set (ls_lookups s) \<and> reads_next s (Request 1) \<and> sound_key locks_key \<and>
     \<not> writes_next s Background"
proof -
  obtain s where s: "goroutine_step\<^sup>*\<^sup>* (lock_start locks_cache [''k'', ''z'']) s"
    and l: "ls_lookups s = [Answered ''k'' (Inr (Some locks_key)), ReadLast ''z'' None]"
    using locks_run [of undefined] run_requests_steps by blast
  have "reads_next s (Request 1)" and "Answered ''k'' (Inr (Some locks_key)) \<in> set (ls_lookups s)" by (simp_all add: l)
  with locks_prevent_races [OF locks_cache_sound s] s show ?thesis by blast
qed

text \<open>
  C22: no lookup is blocked for ever and none runs for ever, on the lock as it is, where a writer waits for readers and a
  waiting writer keeps readers out.  Between two ticks of the background loop \<open>n\<close> concurrent lookups and a refresh
  in progress make at most \<open>18 n + 10\<close> steps, in whatever order they are scheduled, and when none of them can make another
  step every lookup has been answered: they never deadlock.
\<close>

theorem locked_lookups_terminate:
  assumes "goroutine_step\<^sup>*\<^sup>* (lock_start jc kids) s"
  shows "(\<forall>k t. (lock_step ^^ k) s t \<longrightarrow> k \<le> 18 * length kids + 10) \<and>
    (\<forall>t. lock_step\<^sup>*\<^sup>* s t \<and> (\<nexists>u. lock_step t u) \<longrightarrow> (\<forall>pc \<in> set (ls_lookups t). \<exists>kid r. pc = Answered kid r))"
proof (intro conjI allI impI)
  show "k \<le> 18 * length kids + 10" if "(lock_step ^^ k) s t" for k t
    using lock_work_steps [OF that] lock_work_bound [OF assms] by linarith
  fix t assume t: "lock_step\<^sup>*\<^sup>* s t \<and> (\<nexists>u. lock_step t u)"
  have "goroutine_step\<^sup>*\<^sup>* s t"
    by (rule rtranclp_mono [of lock_step, THEN predicate2D]) (use t in \<open>auto intro: goroutine_step.step\<close>)
  then have "lock_inv t" by (rule lock_inv_reachable [OF rtranclp_trans [OF assms]])
  then show "\<forall>pc \<in> set (ls_lookups t). \<exists>kid r. pc = Answered kid r"
    using no_deadlock [of t] t unfolding answered_iff [symmetric] by blast
qed

theorem locked_lookups_terminate_witness:
  "\<not> (\<exists>t. (lock_step ^^ 47) (lock_start locks_cache [''k'', ''z'']) t)"
proof
  assume "\<exists>t. (lock_step ^^ 47) (lock_start locks_cache [''k'', ''z'']) t"
  then obtain t where "(lock_step ^^ 47) (lock_start locks_cache [''k'', ''z'']) t" ..
  with locked_lookups_terminate [OF rtranclp.rtrancl_refl, of locks_cache "[''k'', ''z'']"]
  have "(47::nat) \<le> 18 * length [''k'', ''z''] + 10" by blast
  then show False by simp
qed

end
