(* ===== verification/Spec2Isabelle.thy ===== *)
theory Spec2Isabelle
  imports Admission World Harness_Main Quota Introspect Plans Pollers Cors Jwks_Locks
begin

text \<open>
  A verification library of the Traefik gateway plugin (the Go package at the root of the repository).

  \<^bold>\<open>The program.\<close>  The plugin is an HTTP middleware.  \<^verbatim>\<open>ServeHTTP\<close>
  (\<^verbatim>\<open>plugin.go\<close>) gives a request an id, answers CORS preflights, removes every header the
  gateway itself owns, maps the host to an application through the application registry
  (\<^verbatim>\<open>registry.go\<close>), and hands over to one of two engines:
  \<^verbatim>\<open>serveLegacy\<close> (\<^verbatim>\<open>plugin.go\<close>) or
  \<^verbatim>\<open>servePolicy\<close> (\<^verbatim>\<open>policy.go\<close>).  An engine finds the endpoint in the
  snapshot (\<^verbatim>\<open>snapshot.go\<close>), validates a bearer token (\<^verbatim>\<open>jwt.go\<close>)
  under the keys of its issuer's realm (\<^verbatim>\<open>jwks.go\<close>), decides (token roles, or the policies of
  \<^verbatim>\<open>authz.go\<close>), resolves the caller's plan (\<^verbatim>\<open>identity.go\<close>), counts
  against the rate limit (\<^verbatim>\<open>ratelimit.go\<close> over the Redis client of
  \<^verbatim>\<open>redis_resp.go\<close>), stamps the identity headers and forwards. Registry, snapshot and key sets
  are caches refreshed by background polls.

  \<^bold>\<open>The model.\<close>  Each theory holds the definitions of one source file, in the order of the code,
  and the lemmas on them.  Go structs are records, integers whose width matters are words, errors are
  \<^verbatim>\<open>Inl\<close> of a sum or \<^verbatim>\<open>None\<close>, a panic is a constructor of its own,
  strings are byte strings.
    \<^item> \<open>Prelude\<close>, \<open>Encoding\<close>, \<open>Http\<close>: the parts of Go's standard library
      the source uses (string functions, canonical header names, query strings, base64url, decoded JSON values),
      written out.
    \<^item> \<open>Caches\<close>: the contract of a last-known-good cache and of its version poll, as two locales
      interpreted for the key sets, the snapshot and the registry.
    \<^item> \<open>Authz\<close>: statements, policies, \<open>granted\<close>, \<open>is_wildcard\<close>,
      introspection lists, qualified roles.
    \<^item> \<open>Snapshot\<close>, \<open>Registry\<close>: compilation of a published document, version check,
      refresh, and the lookups \<open>match_endpoint\<close> and \<open>resolve_host\<close>; a history of polls is a
      list of ticks.
    \<^item> \<open>Pollers\<close>: the poll goroutines of those two caches (start, tickers, select, stop).
    \<^item> \<open>Jwks\<close>: key parsing, refresh, \<open>key_for_kid\<close> as one sequential operation and as
      a transition system of lock sections, so that lookups and the background refresh may interleave.
      \<open>Jwks_Locks\<close>: the same code statement by statement, with \<^verbatim>\<open>sync.RWMutex\<close> as a
      lock that goroutines block on, and the proof that its runs are runs of those sections.
    \<^item> \<open>Token\<close> and \<open>Jwt\<close>: the vendored token parser as the plugin configures it, and
      \<open>parse_keycloak_jwt\<close>, roles and numeric user ids (64-bit words).
    \<^item> \<open>Identity\<close>, \<open>RateLimit\<close>, \<open>Redis_Resp\<close>, \<open>Logger\<close>,
      \<open>Config\<close>, \<open>Helpers\<close>: plans, fixed windows, the RESP2 client, log formatting, options
      and durations, request helpers.
    \<^item> \<open>Plans\<close>: the plan resolver as a transition system of lock sections, any number of calls in
      parallel.
    \<^item> \<open>Gateway\<close>: the plugin instance, \<^verbatim>\<open>New\<close>, and the exchange, the state
      a request carries through the stages (request, response, whether it was forwarded, logged reasons, key caches,
      plans, limiter).
    \<^item> \<open>Policy\<close>, \<open>Legacy\<close>: the two engines, one definition per stage; a stage returns
      \<^verbatim>\<open>Inl\<close> of a finished exchange or \<^verbatim>\<open>Inr\<close> of what the next one
      reads.  \<open>Plugin\<close>: the prelude and \<open>serve_http\<close>.
    \<^item> \<open>Wiring\<close>, \<open>Admission\<close>, \<open>Trust\<close>, \<open>Gate\<close>,
      \<open>Decision\<close>, \<open>Introspect\<close>, \<open>Quota\<close>, \<open>Cors\<close>: properties across
      components (construction; limits and reasons; header provenance; what a forwarded request has passed; the
      decision of each engine, both ways; the answer of introspection; what a rate limit lets through over any history
      of requests; which origins an answer admits).
    \<^item> \<open>Lifetime\<close>, \<open>World\<close>: the process as a transition system (instances built,
      caches polled, requests served, on the shared caches) with its invariants: what a request is decided by has been
      published.
    \<^item> \<open>Harness\<close>, \<open>Harness_Main\<close>: the probes, the server and the checks of
      \<^verbatim>\<open>hack/yaegi-harness\<close>, run on the model of the plugin, and its
      \<^verbatim>\<open>main\<close> with the ways the process ends. \<open>Samples\<close>: a deployment and a
      request on which the theorems on whole requests are evaluated.

  \<^bold>\<open>What the environment gives.\<close>  Everything outside the process is an argument: the clock
  readings, the answers of HTTP requests, the bytes a socket yields and the outcomes of dials are events a definition
  takes (\<open>env\<close> collects those of one request).  A cache may be refreshed by its poll between two reads of
  one request, so \<open>env\<close> has a separate registry or snapshot for each read.  The regular-expression
  engine, signature verification, the JSON decoder, Unicode case folding and the rate-limit backend of a whole request
  are parameters, of which the theorems assume nothing except where a hypothesis says so.

  \<^bold>\<open>What is shown.\<close>
    \<^item> Whole requests (this theory, \<open>Plugin\<close>, \<open>Decision\<close>, \<open>Introspect\<close>,
      \<open>Lifetime\<close>, \<open>World\<close>): a request is either answered or forwarded, never both; the
      gateway-owned headers it is forwarded with (\<open>owned_headers\<close>, a list of the specification that the
      code's is proved to agree with) come from a vouched caller, plan included, or are absent, so that forging them has
      no effect; over any history of a process the key behind an identity was published by the realm's own URL, and in
      policy mode the application, the endpoint and the permission were published by the registry and snapshot
      services; whatever the outcome, cross-origin access is allowed exactly to the configured origins; each engine
      forwards what it authorizes and nothing else, and answers the rest with 401 or 403;
      \<^verbatim>\<open>enforce\<close> mode fails closed.  These theorems assume \<open>headers_distinct\<close>: no
      two configured header names address the same header, as with the defaults.
    \<^item> Decisions: \<open>granted\<close> against the documented union of the policies bound to a caller's roles
      (never more; all of it unless a role is bound twice, where only the last binding counts), endpoint
      matching against a specification and isolated by application, shadow verdicts, the answer of introspection
      against \<open>granted\<close>, the keys requests are counted under, and end to end that no more requests of a
      caller are let on in a window than the limit of its plan.
    \<^item> Tokens: exactly which tokens are accepted, under which key, with which claims.
    \<^item> Caches: the cache holds one published document, its version included; an outage keeps the last good value;
      a host resolves however it is written; what the poll goroutines do in each phase of their lives, from the start to
      the stop or the panic, and that they make of a cache exactly what the histories of ticks describe; concurrent key
      lookups stay sound, the lock of the key cache excludes races, no lookup deadlocks or runs on, and the cooldown
      bounds refetching for sequential lookups but not for interleaved ones; under every interleaving a plan served is
      the caller's own, stored less than its time to live ago.
    \<^item> Redis: round trips of commands and replies, framing, loss of the connection, spacing of dials in an
      outage.
    \<^item> Construction: every built realm is bound to the cache of its own endpoint, so that the check of
      \<^verbatim>\<open>New\<close>, which inspects the built realms, never fails; which applications are Keycloak's.
    \<^item> The harness: whatever the interpreted probes return, it exits with 0 exactly when they return what is
      documented and with 1 exactly when they do not; on probes that compute what the model of the plugin computes they
      do; a failed run leaves its copy of the package behind.

  \<^bold>\<open>Termination and fuel.\<close>  All operations are total.  Loops over input are structural recursions;
  nested replies are refused by the reader, so it does not recurse.  A sequential run of the lookup transition system
  takes four steps (\<open>run_lookup\<close>), one for each lock section of \<^verbatim>\<open>keyForKid\<close>, and
  is shown to end in the result of \<open>key_for_kid\<close>.  Statement by statement a lookup takes at most eighteen
  steps and a refresh ten, so \<open>n\<close> interleaved lookups and a refresh in progress make at most
  \<open>18 n + 10\<close>, and they stop only when all are answered.

  \<^bold>\<open>Not modelled.\<close>  The Go scheduler beyond the interleavings above (a poll of the registry or the
  snapshot and a Redis command are one step each; within a whole request so are a plan lookup and a key lookup); blocking
  on locks other than that of the key cache; transport, TLS and contexts; the destination of log lines; how the
  interpreter of the harness evaluates and what its shell command copies (what they yield is a parameter); the tests, the container and Kubernetes files, and vendored code
  other than the token parser.  The environment of a request gives every stage its own readings, so no theorem rests
  on two reads of a cache being equal.
\<close>

section \<open>Identity\<close>

text \<open>
  C1: the gateway-owned headers of a forwarded request never come from the client: they are all absent, or
  they are those of one caller whose bearer token is vouched for by a configured realm (signed under a key
  that realm publishes, fresh, and carrying the claims), with the administrator flag set exactly when that
  caller is one for the application the request carries.
\<close>

theorem trusted_headers_provenance:
  assumes "headers_distinct (gw_config gw)"
    and "x_forwarded (serve_http lib gw env (arrives req jwks plans limiter))"
  shows "anonymous_request (gw_config gw) (x_req (serve_http lib gw env (arrives req jwks plans limiter))) \<or>
    (\<exists>tc. vouched_caller lib gw env jwks (get_req_header req (cfg_jwt_header_key (gw_config gw))) tc \<and>
       stamped_request gw env plans tc (x_req (serve_http lib gw env (arrives req jwks plans limiter))))"
  by (rule forwarded_provenance [OF assms])

theorem trusted_headers_provenance_witness:
  "anonymous_request demo_config (x_req (demo_run True)) \<or>
    (\<exists>tc. vouched_caller demo_libs (demo_gateway True) demo_env demo_jwks ''Bearer aA.Yw.cw'' tc \<and>
       stamped_request (demo_gateway True) demo_env (new_plan_resolver []) tc (x_req (demo_run True)))"
proof -
  have "gw_config (demo_gateway True) = demo_config" and "get_req_header demo_request (cfg_jwt_header_key demo_config) = ''Bearer aA.Yw.cw''"
    by (simp add: demo_gateway_def) code_simp
  with trusted_headers_provenance [OF demo_headers_distinct demo_forwarded(1)] show ?thesis by simp
qed

text \<open>
  C8: forged identity headers have no effect.  Two requests that differ at most in the gateway-owned headers
  (other than the application header, whose value policy mode reads as a request for an application) have
  the same outcome: the same answer, logged reasons, counters and caches, and the same forwarded request.
\<close>

theorem spoofed_headers_have_no_effect:
  assumes "headers_distinct (gw_config gw)" and "spoof_equivalent (gw_config gw) req req'"
  shows "same_outcome (serve_http lib gw env (arrives req jwks plans limiter))
    (serve_http lib gw env (arrives req' jwks plans limiter))"
  using assms by (intro serve_http_spoofed pending_arrives) (auto simp: spoofed_def arrives_def)

theorem spoofed_headers_have_no_effect_witness:
  "same_outcome (demo_run True) (serve_http demo_libs (demo_gateway True) demo_env
     (arrives (demo_request\<lparr>req_header := (req_header demo_request)(canonical_key ''X-Is-Admin'' := None)\<rparr>) demo_jwks (new_plan_resolver []) ()))"
proof (rule spoofed_headers_have_no_effect [OF demo_headers_distinct])
  have "''X-Is-Admin'' \<in> set (owned_headers demo_config) - {cfg_app_id_header demo_config}"
    by code_simp
  then have "canonical_key ''X-Is-Admin'' \<in> canonical_key ` (set (owned_headers demo_config) - {cfg_app_id_header demo_config})"
    by (rule imageI)
  then show "spoof_equivalent (gw_config (demo_gateway True)) demo_request
      (demo_request\<lparr>req_header := (req_header demo_request)(canonical_key ''X-Is-Admin'' := None)\<rparr>)"
    unfolding spoof_equivalent_def
    by (intro exI [of _ "(req_header demo_request)(canonical_key ''X-Is-Admin'' := None)"]) (auto simp: demo_gateway_def)
qed

section \<open>Authorization\<close>

text \<open>
  C4: in policy mode no request reaches a protected endpoint unauthorized: when the application a forwarded
  request carries has an endpoint for its method and path, the endpoint demands no permission or the
  policies grant it to the caller on that application, the owner gate holds (the caller is the owner, or
  holds the wildcard there), the caller, if there is one, is vouched for by a configured realm, and the identity
  headers are that caller's (absent without one).
\<close>

theorem policy_mode_authorizes:
  assumes "headers_distinct (gw_config gw)" and "gw_policy_mode gw"
    and "y = serve_http lib gw env (arrives req jwks plans limiter)" and "x_forwarded y"
    and "match_endpoint (en_match_snapshot env) (get_header y (cfg_app_id_header (gw_config gw)))
      (req_method req) (req_path req) = Some ep"
  shows "\<exists>claims. policy_authorizes (en_policy_snapshot env) ep (get_header y (cfg_app_id_header (gw_config gw))) req claims \<and>
    carries gw env plans claims (x_req y) \<and>
    (\<forall>tc. claims = Some tc \<longrightarrow> vouched_caller lib gw env jwks (get_req_header req (cfg_jwt_header_key (gw_config gw))) tc)"
  using assms by (rule forwarded_policy)

theorem policy_mode_authorizes_witness:
  "\<exists>ep claims. policy_authorizes demo_snapshot ep ''a'' demo_request claims \<and> ep_required_permission ep = ''doc.read'' \<and>
    carries (demo_gateway True) demo_env (new_plan_resolver []) claims (x_req (demo_run True)) \<and>
    (\<forall>tc. claims = Some tc \<longrightarrow> vouched_caller demo_libs (demo_gateway True) demo_env demo_jwks
       (get_req_header demo_request (cfg_jwt_header_key (gw_config (demo_gateway True)))) tc)"
proof -
  have m: "gw_policy_mode (demo_gateway True)" by (simp add: demo_gateway_def)
  have a: "get_header (demo_run True) (cfg_app_id_header (gw_config (demo_gateway True))) = ''a''" by code_simp
  have sn: "en_match_snapshot demo_env = demo_snapshot" "en_policy_snapshot demo_env = demo_snapshot" by (simp_all add: demo_env_def)
  have "match_endpoint demo_snapshot ''a'' (req_method demo_request) (req_path demo_request) = Some demo_endpoint"
    by (simp add: match_endpoint_def demo_snapshot_def demo_endpoint_def sample_endpoint_def demo_request_def
        rx_matches_def literal_regex_def)
  from policy_mode_authorizes [OF demo_headers_distinct m refl demo_forwarded(1), unfolded a sn, OF this] show ?thesis
    by (intro exI [of _ demo_endpoint]) (auto simp: demo_endpoint_def)
qed

text \<open>
  C5: in legacy mode a forwarded request whose application has an endpoint for its method and path either needs
  no permission or comes from an administrator of the realm; the owner gate holds; the caller, if there
  is one, is vouched for and its token was issued for that application; and the identity headers are that caller's
  (absent without one).
\<close>

theorem legacy_mode_authorizes:
  assumes "headers_distinct (gw_config gw)" and "\<not> gw_policy_mode gw"
    and "y = serve_http lib gw env (arrives req jwks plans limiter)" and "x_forwarded y"
    and "match_endpoint (en_match_snapshot env) (get_header y (cfg_app_id_header (gw_config gw)))
      (req_method req) (req_path req) = Some ep"
  shows "\<exists>claims. legacy_authorizes gw ep (get_header y (cfg_app_id_header (gw_config gw))) req claims \<and>
    carries gw env plans claims (x_req y) \<and>
    (\<forall>tc. claims = Some tc \<longrightarrow> vouched_caller lib gw env jwks (get_req_header req (cfg_jwt_header_key (gw_config gw))) tc)"
  using assms by (rule forwarded_legacy)

theorem legacy_mode_authorizes_witness:
  "\<exists>ep claims. legacy_authorizes (demo_gateway False) ep ''a'' demo_request claims \<and> ep_required_permission ep = ''doc.read'' \<and>
    carries (demo_gateway False) demo_env (new_plan_resolver []) claims (x_req (demo_run False)) \<and>
    (\<forall>tc. claims = Some tc \<longrightarrow> vouched_caller demo_libs (demo_gateway False) demo_env demo_jwks
       (get_req_header demo_request (cfg_jwt_header_key (gw_config (demo_gateway False)))) tc)"
proof -
  have m: "\<not> gw_policy_mode (demo_gateway False)" by (simp add: demo_gateway_def)
  have a: "get_header (demo_run False) (cfg_app_id_header (gw_config (demo_gateway False))) = ''a''" by code_simp
  have sn: "en_match_snapshot demo_env = demo_snapshot" by (simp add: demo_env_def)
  have "match_endpoint demo_snapshot ''a'' (req_method demo_request) (req_path demo_request) = Some demo_endpoint"
    by (simp add: match_endpoint_def demo_snapshot_def demo_endpoint_def sample_endpoint_def demo_request_def
        rx_matches_def literal_regex_def)
  from legacy_mode_authorizes [OF demo_headers_distinct m refl demo_forwarded(2), unfolded a sn, OF this] show ?thesis
    by (intro exI [of _ demo_endpoint]) (auto simp: demo_endpoint_def)
qed

section \<open>The application\<close>

text \<open>
  C12: the application header of a forwarded request is never the client's word alone: it is empty, or the
  application the registry resolves for the request's host, or (policy mode only) the application the
  client asked for, which the registry lists as active.
\<close>

theorem application_header_provenance:
  assumes "headers_distinct (gw_config gw)"
    and "x_forwarded (serve_http lib gw env (arrives req jwks plans limiter))"
  shows "let app = get_header (serve_http lib gw env (arrives req jwks plans limiter)) (cfg_app_id_header (gw_config gw)) in
    app = [] \<or> resolve_host (lib_uni lib) (en_resolve_registry env) (resolution_host gw req) = Some app \<or>
    (gw_policy_mode gw \<and> app = trim_space (get_req_header req (cfg_app_id_header (gw_config gw))) \<and>
     is_active_app (en_active_registry env) app)"
  unfolding Let_def by (rule forwarded_application [OF assms(1) refl assms(2) refl])

theorem application_header_provenance_witness:
  "let app = get_header (demo_run True) (cfg_app_id_header (gw_config (demo_gateway True))) in
    app = [] \<or> resolve_host (lib_uni demo_libs) (en_resolve_registry demo_env) (resolution_host (demo_gateway True) demo_request) = Some app \<or>
    (gw_policy_mode (demo_gateway True) \<and>
     app = trim_space (get_req_header demo_request (cfg_app_id_header (gw_config (demo_gateway True)))) \<and>
     is_active_app (en_active_registry demo_env) app)"
  by (rule application_header_provenance [OF demo_headers_distinct demo_forwarded(1)])

text \<open>
  C13: \<^verbatim>\<open>enforce\<close> mode fails closed: a request is forwarded only when a snapshot of the policies has been loaded
  and the registry maps the request's host to an application; before that, and for any other host, the
  gateway answers.
\<close>

theorem enforce_mode_fails_closed:
  assumes "headers_distinct (gw_config gw)" and "cfg_app_resolution_mode (gw_config gw) = ''enforce''"
    and "gw_has_registry gw"
    and "\<not> sc_loaded (en_loaded_snapshot env) \<or>
      resolve_host (lib_uni lib) (en_resolve_registry env) (resolution_host gw req) = None"
  shows "\<not> x_forwarded (serve_http lib gw env (arrives req jwks plans limiter))"
  using forwarded_engine [OF assms(1), of lib env req jwks plans limiter] assms(2-4)
  by (auto simp: snapshot_cold_def)

theorem enforce_mode_fails_closed_witness:
  "\<not> x_forwarded (serve_http demo_libs (demo_gateway True) demo_env
     (arrives (demo_request\<lparr>req_host := ''b.example''\<rparr>) demo_jwks (new_plan_resolver []) ()))"
proof (rule enforce_mode_fails_closed [OF demo_headers_distinct])
  show "\<not> sc_loaded (en_loaded_snapshot demo_env) \<or>
    resolve_host (lib_uni demo_libs) (en_resolve_registry demo_env)
      (resolution_host (demo_gateway True) (demo_request\<lparr>req_host := ''b.example''\<rparr>)) = None"
    by code_simp
qed (simp_all add: demo_gateway_def demo_config_def create_config_def)

section \<open>Preflight and introspection\<close>

text \<open>
  with CORS configured every \<^verbatim>\<open>OPTIONS\<close> request is answered with 204 on the spot: it is not forwarded, and no
  credential, plan or counter is looked at.
\<close>

theorem preflight_is_answered:
  assumes "cfg_cors_allowed_origins (gw_config gw) \<noteq> []" and "req_method req = ''OPTIONS''"
  shows "let y = serve_http lib gw env (arrives req jwks plans limiter) in
    rsp_status (x_rw y) = Some 204 \<and> \<not> x_forwarded y \<and> x_jwks y = jwks \<and> x_plans y = plans \<and> x_limiter y = limiter"
proof -
  let ?e = "ensure_request_id env (arrives req jwks plans limiter)"
  have e: "pending ?e" by (rule pending_ensure_request_id [OF pending_arrives])
  have req: "req_method (x_req ?e) = ''OPTIONS''" and
    fr: "x_jwks ?e = jwks" "x_plans ?e = plans" "x_limiter ?e = limiter"
    using assms(2) by (simp_all add: ensure_request_id_def arrives_def Let_def)
  have "\<exists>y. serve_cors gw ?e = Inl y \<and> x_jwks y = jwks \<and> x_plans y = plans \<and> x_limiter y = limiter"
    using assms(1) req fr by (cases "get_header ?e ''Origin'' = []") (simp_all add: serve_cors_def preflight_def Let_def)
  then obtain y where y: "serve_cors gw ?e = Inl y" and "x_jwks y = jwks \<and> x_plans y = plans \<and> x_limiter y = limiter"
    by blast
  with serve_cors_Inl [OF y e] show ?thesis by (simp add: serve_http_def)
qed

theorem preflight_is_answered_witness:
  "let y = serve_http demo_libs ((demo_gateway True)\<lparr>gw_config := demo_config\<lparr>cfg_cors_allowed_origins := [''*'']\<rparr>\<rparr>) demo_env
       (arrives (demo_request\<lparr>req_method := ''OPTIONS''\<rparr>) demo_jwks (new_plan_resolver []) ())
   in rsp_status (x_rw y) = Some 204 \<and> \<not> x_forwarded y \<and> x_jwks y = demo_jwks \<and> x_plans y = new_plan_resolver [] \<and>
      x_limiter y = ()"
  by (rule preflight_is_answered) (simp_all add: demo_request_def)

end
